theory Spec2Isabelle
  imports Main
begin

section \<open>Outcomes, element types and the event log\<close>

text \<open>
  The source is \<^verbatim>\<open>advanced-vector/vector.h\<close>: the class templates
  \<^verbatim>\<open>RawMemory<T>\<close> and \<^verbatim>\<open>Vector<T>\<close>.

  A call either returns, or leaves by an exception, or has undefined behaviour (a failed
  \<^verbatim>\<open>assert\<close>, an access outside the allocated block, a read or a destruction of
  a slot that holds no object, an invalid iterator range handed to a standard algorithm).
  \<open>Done\<close> carries what the call returns and the state it leaves; \<open>Raised\<close> carries
  the exception and the state the caller sees after unwinding.
\<close>

datatype failure = bad_alloc | element_exception

datatype ('d, 'r) outcome = Done 'd | Raised failure 'r | Undefined

text \<open>
  The element type \<open>T\<close> is a parameter: its size, the two traits the source tests with
  \<^verbatim>\<open>if constexpr\<close>, and for each special member function the values on which it
  throws. A copy has the value of its source. A move gives the target the value of the
  source and leaves the source with \<open>moved_from\<close> of it (the identity for \<^verbatim>\<open>int\<close>,
  the empty string for \<^verbatim>\<open>std::string\<close>). \<open>value_ctor_throws k\<close> says whether the
  \<open>k\<close>-th value-initialisation of a batch throws. Destructors do not throw.
\<close>

record 'a elem_type =
  sizeof_T :: nat
  is_nothrow_move_constructible :: bool
  is_copy_constructible :: bool
  value_init :: 'a
  value_ctor_throws :: "nat \<Rightarrow> bool"
  args_ctor_throws :: "'a \<Rightarrow> bool"
  copy_ctor_throws :: "'a \<Rightarrow> bool"
  move_ctor_throws :: "'a \<Rightarrow> bool"
  copy_assign_throws :: "'a \<Rightarrow> bool"
  move_assign_throws :: "'a \<Rightarrow> bool"
  moved_from :: "'a \<Rightarrow> 'a"

text \<open>A move constructor declared \<^verbatim>\<open>noexcept\<close> lets no exception out.\<close>

definition move_throws :: "'a elem_type \<Rightarrow> 'a \<Rightarrow> bool" where
  "move_throws T x = (\<not> is_nothrow_move_constructible T \<and> move_ctor_throws T x)"

text \<open>
  Every allocation, deallocation and element operation that succeeds is appended to a log,
  so that a statement can say which operations a call performed. A block is named by the
  position of its \<open>New\<close> event in the log.
\<close>

datatype 'a event =
    New nat
  | Delete nat
  | Value_constructed 'a
  | Args_constructed 'a
  | Copy_constructed 'a
  | Move_constructed 'a
  | Copy_assigned 'a
  | Move_assigned 'a
  | Destroyed 'a

datatype ptr = nullptr | Ptr nat

text \<open>
  The arguments of \<^verbatim>\<open>EmplaceBack\<close> and \<^verbatim>\<open>Emplace\<close>: an lvalue of type
  \<open>T\<close> (\<^verbatim>\<open>PushBack(const T&)\<close>, \<^verbatim>\<open>Insert(pos, const T&)\<close>), an rvalue
  (\<^verbatim>\<open>PushBack(T&&)\<close>, \<^verbatim>\<open>Insert(pos, T&&)\<close>), or other constructor arguments
  that build the given value. The argument is an object outside the vector.
\<close>

datatype 'a ctor_args = Lvalue 'a | Rvalue 'a | Args 'a

fun ctor_throws :: "'a elem_type \<Rightarrow> 'a ctor_args \<Rightarrow> bool" where
  "ctor_throws T (Lvalue x) = copy_ctor_throws T x"
| "ctor_throws T (Rvalue x) = move_throws T x"
| "ctor_throws T (Args x) = args_ctor_throws T x"

fun ctor_value :: "'a ctor_args \<Rightarrow> 'a" where
  "ctor_value (Lvalue x) = x"
| "ctor_value (Rvalue x) = x"
| "ctor_value (Args x) = x"

fun ctor_event :: "'a ctor_args \<Rightarrow> 'a event" where
  "ctor_event (Lvalue x) = Copy_constructed x"
| "ctor_event (Rvalue x) = Move_constructed x"
| "ctor_event (Args x) = Args_constructed x"

section \<open>The standard algorithms the source calls\<close>

text \<open>
  Memory is a list of slots: \<open>Some x\<close> is a slot that holds a live object of value \<open>x\<close>,
  \<open>None\<close> a slot of raw memory (never constructed, or destroyed). A pointer into a block
  is an index into its list.

  \<^verbatim>\<open>std::destroy_n(first, n)\<close>: destroys the \<open>n\<close> objects from \<open>first\<close> on.
\<close>

fun destroy_n :: "'a option list \<Rightarrow> nat \<Rightarrow> nat \<Rightarrow> 'a event list
    \<Rightarrow> ('a option list \<times> 'a event list, unit) outcome" where
  "destroy_n c first 0 lg = Done (c, lg)"
| "destroy_n c first (Suc n) lg =
     (if first < length c then
        (case c ! first of
           None \<Rightarrow> Undefined
         | Some x \<Rightarrow> destroy_n (c[first := None]) (Suc first) n (lg @ [Destroyed x]))
      else Undefined)"

text \<open>
  \<^verbatim>\<open>std::uninitialized_copy_n(first, n, d_first)\<close>: copy-constructs into raw memory;
  when a copy throws, the objects it has constructed (from \<open>d_first\<close> up to the current
  position \<open>cur\<close>) are destroyed and the exception is rethrown.
\<close>

fun uninit_copy_loop :: "'a elem_type \<Rightarrow> 'a option list \<Rightarrow> nat \<Rightarrow> nat \<Rightarrow> 'a option list
    \<Rightarrow> nat \<Rightarrow> nat \<Rightarrow> 'a event list
    \<Rightarrow> ('a option list \<times> 'a event list, 'a option list \<times> 'a event list) outcome" where
  "uninit_copy_loop T src first 0 dst d_first cur lg = Done (dst, lg)"
| "uninit_copy_loop T src first (Suc n) dst d_first cur lg =
     (if first < length src \<and> cur < length dst then
        (case src ! first of
           None \<Rightarrow> Undefined
         | Some x \<Rightarrow>
             if copy_ctor_throws T x then
               (case destroy_n dst d_first (cur - d_first) lg of
                  Done (dst', lg') \<Rightarrow> Raised element_exception (dst', lg')
                | _ \<Rightarrow> Undefined)
             else uninit_copy_loop T src (Suc first) n (dst[cur := Some x]) d_first (Suc cur)
                    (lg @ [Copy_constructed x]))
      else Undefined)"

definition uninitialized_copy_n :: "'a elem_type \<Rightarrow> 'a option list \<Rightarrow> nat \<Rightarrow> nat
    \<Rightarrow> 'a option list \<Rightarrow> nat \<Rightarrow> 'a event list
    \<Rightarrow> ('a option list \<times> 'a event list, 'a option list \<times> 'a event list) outcome" where
  "uninitialized_copy_n T src first n dst d_first lg =
     uninit_copy_loop T src first n dst d_first d_first lg"

text \<open>
  \<^verbatim>\<open>std::uninitialized_move_n(first, n, d_first)\<close> on a range of non-const objects:
  move-constructs, leaving each source moved-from; the same rollback of the destination.
  The result holds the source block, the destination block and the log.
\<close>

fun uninit_move_loop :: "'a elem_type \<Rightarrow> 'a option list \<Rightarrow> nat \<Rightarrow> nat \<Rightarrow> 'a option list
    \<Rightarrow> nat \<Rightarrow> nat \<Rightarrow> 'a event list
    \<Rightarrow> ('a option list \<times> 'a option list \<times> 'a event list,
        'a option list \<times> 'a option list \<times> 'a event list) outcome" where
  "uninit_move_loop T src first 0 dst d_first cur lg = Done (src, dst, lg)"
| "uninit_move_loop T src first (Suc n) dst d_first cur lg =
     (if first < length src \<and> cur < length dst then
        (case src ! first of
           None \<Rightarrow> Undefined
         | Some x \<Rightarrow>
             if move_throws T x then
               (case destroy_n dst d_first (cur - d_first) lg of
                  Done (dst', lg') \<Rightarrow> Raised element_exception (src, dst', lg')
                | _ \<Rightarrow> Undefined)
             else uninit_move_loop T (src[first := Some (moved_from T x)]) (Suc first) n
                    (dst[cur := Some x]) d_first (Suc cur) (lg @ [Move_constructed x]))
      else Undefined)"

definition uninitialized_move_n :: "'a elem_type \<Rightarrow> 'a option list \<Rightarrow> nat \<Rightarrow> nat
    \<Rightarrow> 'a option list \<Rightarrow> nat \<Rightarrow> 'a event list
    \<Rightarrow> ('a option list \<times> 'a option list \<times> 'a event list,
        'a option list \<times> 'a option list \<times> 'a event list) outcome" where
  "uninitialized_move_n T src first n dst d_first lg =
     uninit_move_loop T src first n dst d_first d_first lg"

text \<open>
  \<^verbatim>\<open>std::uninitialized_value_construct_n(first, n)\<close>: value-initialises \<open>n\<close>
  objects in raw memory, with the same rollback.
\<close>

fun uninit_value_loop :: "'a elem_type \<Rightarrow> nat \<Rightarrow> 'a option list \<Rightarrow> nat \<Rightarrow> nat
    \<Rightarrow> 'a event list
    \<Rightarrow> ('a option list \<times> 'a event list, 'a option list \<times> 'a event list) outcome" where
  "uninit_value_loop T 0 dst d_first cur lg = Done (dst, lg)"
| "uninit_value_loop T (Suc n) dst d_first cur lg =
     (if cur < length dst then
        (if value_ctor_throws T (cur - d_first) then
           (case destroy_n dst d_first (cur - d_first) lg of
              Done (dst', lg') \<Rightarrow> Raised element_exception (dst', lg')
            | _ \<Rightarrow> Undefined)
         else uninit_value_loop T n (dst[cur := Some (value_init T)]) d_first (Suc cur)
                (lg @ [Value_constructed (value_init T)]))
      else Undefined)"

definition uninitialized_value_construct_n :: "'a elem_type \<Rightarrow> 'a option list \<Rightarrow> nat \<Rightarrow> nat
    \<Rightarrow> 'a event list
    \<Rightarrow> ('a option list \<times> 'a event list, 'a option list \<times> 'a event list) outcome" where
  "uninitialized_value_construct_n T dst d_first n lg = uninit_value_loop T n dst d_first d_first lg"

text \<open>
  \<^verbatim>\<open>std::move_backward(first, last, d_last)\<close> inside one block: move-assigns the
  objects of \<open>[first, lst)\<close> to the range that ends at \<open>d_last\<close>, last object first.
  \<open>[first, lst)\<close> must be a valid range: with \<open>lst\<close> before \<open>first\<close> the behaviour
  is undefined. The loop counts the \<open>n\<close> objects still to move; the next source is slot
  \<open>first + n - 1\<close>, the next target slot \<open>d_last - 1\<close>. An exception of the assignment
  leaves the block as it is at that moment.
\<close>

fun move_backward_loop :: "'a elem_type \<Rightarrow> 'a option list \<Rightarrow> nat \<Rightarrow> nat \<Rightarrow> nat
    \<Rightarrow> 'a event list
    \<Rightarrow> ('a option list \<times> 'a event list, 'a option list \<times> 'a event list) outcome" where
  "move_backward_loop T c first 0 d_last lg = Done (c, lg)"
| "move_backward_loop T c first (Suc n) d_last lg =
     (if first + n < length c \<and> 0 < d_last \<and> d_last - 1 < length c then
        (case c ! (first + n) of
           None \<Rightarrow> Undefined
         | Some x \<Rightarrow>
             (case c ! (d_last - 1) of
                None \<Rightarrow> Undefined
              | Some y \<Rightarrow>
                  if move_assign_throws T x then Raised element_exception (c, lg)
                  else move_backward_loop T
                         (c[first + n := Some (moved_from T x), d_last - 1 := Some x])
                         first n (d_last - 1) (lg @ [Move_assigned x])))
      else Undefined)"

definition move_backward :: "'a elem_type \<Rightarrow> 'a option list \<Rightarrow> nat \<Rightarrow> nat \<Rightarrow> nat
    \<Rightarrow> 'a event list
    \<Rightarrow> ('a option list \<times> 'a event list, 'a option list \<times> 'a event list) outcome" where
  "move_backward T c first lst d_last lg =
     (if first \<le> lst then move_backward_loop T c first (lst - first) d_last lg else Undefined)"

text \<open>
  \<^verbatim>\<open>std::move(first, last, d_first)\<close> inside one block: move-assigns the objects of
  \<open>[first, lst)\<close> to the range that starts at \<open>d_first\<close>, first object first.
\<close>

fun move_loop :: "'a elem_type \<Rightarrow> 'a option list \<Rightarrow> nat \<Rightarrow> nat \<Rightarrow> nat \<Rightarrow> 'a event list
    \<Rightarrow> ('a option list \<times> 'a event list, 'a option list \<times> 'a event list) outcome" where
  "move_loop T c first 0 d_first lg = Done (c, lg)"
| "move_loop T c first (Suc n) d_first lg =
     (if first < length c \<and> d_first < length c then
        (case c ! first of
           None \<Rightarrow> Undefined
         | Some x \<Rightarrow>
             (case c ! d_first of
                None \<Rightarrow> Undefined
              | Some y \<Rightarrow>
                  if move_assign_throws T x then Raised element_exception (c, lg)
                  else move_loop T (c[first := Some (moved_from T x), d_first := Some x])
                         (Suc first) n (Suc d_first) (lg @ [Move_assigned x])))
      else Undefined)"

definition move_range :: "'a elem_type \<Rightarrow> 'a option list \<Rightarrow> nat \<Rightarrow> nat \<Rightarrow> nat \<Rightarrow> 'a event list
    \<Rightarrow> ('a option list \<times> 'a event list, 'a option list \<times> 'a event list) outcome" where
  "move_range T c first lst d_first lg =
     (if first \<le> lst then move_loop T c first (lst - first) d_first lg else Undefined)"

section \<open>RawMemory\<close>

text \<open>
  \<open>buffer_m\<close> and \<open>capacity_m\<close> are the members \<^verbatim>\<open>buffer_\<close> and
  \<^verbatim>\<open>capacity_\<close>; \<open>cells\<close> is the memory \<open>buffer_m\<close> points to, one entry for
  each whole slot of the block. \<^verbatim>\<open>RawMemory\<close> is not copyable, so a block has one
  owner and travels with it.
\<close>

record 'a RawMemory =
  buffer_m :: ptr
  capacity_m :: nat
  cells :: "'a option list"

text \<open>\<^verbatim>\<open>size_t\<close> has 64 bits; its arithmetic wraps around.\<close>

definition size_t_range :: nat where
  "size_t_range = 2 ^ 64"

text \<open>
  \<^verbatim>\<open>Allocate\<close> (lines 84-86). \<open>operator_new\<close> stands for the global
  \<^verbatim>\<open>operator new\<close>: it says for a byte count whether the request is satisfied
  (otherwise \<^verbatim>\<open>std::bad_alloc\<close> is thrown). The product
  \<^verbatim>\<open>n * sizeof(T)\<close> is computed in \<^verbatim>\<open>size_t\<close>. The result is the pointer
  and the byte size of the block it points to.
\<close>

definition Allocate :: "'a elem_type \<Rightarrow> (nat \<Rightarrow> bool) \<Rightarrow> nat \<Rightarrow> 'a event list
    \<Rightarrow> (ptr \<times> nat \<times> 'a event list, 'a event list) outcome" where
  "Allocate T operator_new n lg =
     (if n \<noteq> 0 then
        (let bytes = (n * sizeof_T T) mod size_t_range in
         if operator_new bytes then Done (Ptr (length lg), bytes, lg @ [New bytes])
         else Raised bad_alloc lg)
      else Done (nullptr, 0, lg))"

text \<open>\<^verbatim>\<open>Deallocate\<close> (lines 88-90): \<^verbatim>\<open>operator delete\<close> of a null pointer does nothing.\<close>

definition Deallocate :: "ptr \<Rightarrow> 'a event list \<Rightarrow> 'a event list" where
  "Deallocate buf lg = (case buf of nullptr \<Rightarrow> lg | Ptr b \<Rightarrow> lg @ [Delete b])"

text \<open>The default constructor (line 14) and \<^verbatim>\<open>RawMemory(size_t capacity)\<close> (lines 16-18).\<close>

definition RawMemory_default :: "'a RawMemory" where
  "RawMemory_default = \<lparr>buffer_m = nullptr, capacity_m = 0, cells = []\<rparr>"

definition RawMemory_ctor :: "'a elem_type \<Rightarrow> (nat \<Rightarrow> bool) \<Rightarrow> nat \<Rightarrow> 'a event list
    \<Rightarrow> ('a RawMemory \<times> 'a event list, 'a event list) outcome" where
  "RawMemory_ctor T operator_new capacity lg =
     (case Allocate T operator_new capacity lg of
        Done (p, bytes, lg') \<Rightarrow>
          Done (\<lparr>buffer_m = p, capacity_m = capacity,
                 cells = replicate (bytes div sizeof_T T) None\<rparr>, lg')
      | Raised e lg' \<Rightarrow> Raised e lg'
      | Undefined \<Rightarrow> Undefined)"

text \<open>The destructor (lines 41-45).\<close>

definition RawMemory_dtor :: "'a RawMemory \<Rightarrow> 'a event list \<Rightarrow> 'a event list" where
  "RawMemory_dtor m lg = (if buffer_m m \<noteq> nullptr then Deallocate (buffer_m m) lg else lg)"

text \<open>
  The move constructor (lines 23-28) gives the new object and the state of
  \<^verbatim>\<open>other\<close>. The move assignment (lines 30-38), for \<^verbatim>\<open>this != &rhs\<close> (its
  one caller, the move assignment of \<^verbatim>\<open>Vector\<close>, passes members of two different
  vectors), gives the states of \<^verbatim>\<open>*this\<close> and of \<^verbatim>\<open>rhs\<close>.
\<close>

definition RawMemory_move :: "'a RawMemory \<Rightarrow> 'a RawMemory \<times> 'a RawMemory" where
  "RawMemory_move other = (other, other\<lparr>buffer_m := nullptr, capacity_m := 0, cells := []\<rparr>)"

definition RawMemory_Swap :: "'a RawMemory \<Rightarrow> 'a RawMemory \<Rightarrow> 'a RawMemory \<times> 'a RawMemory" where
  "RawMemory_Swap m other = (other, m)"

definition RawMemory_move_assign :: "'a RawMemory \<Rightarrow> 'a RawMemory \<Rightarrow> 'a event list
    \<Rightarrow> 'a RawMemory \<times> 'a RawMemory \<times> 'a event list" where
  "RawMemory_move_assign m rhs lg =
     (let lg' = Deallocate (buffer_m m) lg;
          m' = m\<lparr>buffer_m := nullptr, capacity_m := 0, cells := []\<rparr>;
          (m'', rhs') = RawMemory_Swap m' rhs
      in (m'', rhs', lg'))"

section \<open>Vector: construction, assignment, destruction\<close>

text \<open>\<open>data_m\<close> and \<open>size_m\<close> are the members \<^verbatim>\<open>data_\<close> and \<^verbatim>\<open>size_\<close> (lines 346-347).\<close>

record 'a Vector =
  data_m :: "'a RawMemory"
  size_m :: nat

definition set_cells :: "'a Vector \<Rightarrow> 'a option list \<Rightarrow> 'a Vector" where
  "set_cells v c = v\<lparr>data_m := (data_m v)\<lparr>cells := c\<rparr>\<rparr>"

definition Size :: "'a Vector \<Rightarrow> nat" where
  "Size v = size_m v"

definition Capacity :: "'a Vector \<Rightarrow> nat" where
  "Capacity v = capacity_m (data_m v)"

text \<open>\<^verbatim>\<open>std::destroy_at(p)\<close>, and the explicit destructor call \<^verbatim>\<open>p->~T()\<close>.\<close>

definition destroy_at :: "'a option list \<Rightarrow> nat \<Rightarrow> 'a event list
    \<Rightarrow> ('a option list \<times> 'a event list, unit) outcome" where
  "destroy_at c i lg = destroy_n c i (Suc 0) lg"

text \<open>\<^verbatim>\<open>Vector()\<close> (line 102).\<close>

definition Vector_default :: "'a Vector" where
  "Vector_default = \<lparr>data_m = RawMemory_default, size_m = 0\<rparr>"

text \<open>
  \<^verbatim>\<open>Vector(size_t size)\<close> (lines 104-109). When the body of a constructor throws,
  the member \<^verbatim>\<open>data_\<close> is destroyed and no vector exists.
\<close>

definition Vector_sized :: "'a elem_type \<Rightarrow> (nat \<Rightarrow> bool) \<Rightarrow> nat \<Rightarrow> 'a event list
    \<Rightarrow> ('a Vector \<times> 'a event list, 'a event list) outcome" where
  "Vector_sized T operator_new n lg =
     (case RawMemory_ctor T operator_new n lg of
        Done (d, lg1) \<Rightarrow>
          (case uninitialized_value_construct_n T (cells d) 0 n lg1 of
             Done (c, lg2) \<Rightarrow> Done (\<lparr>data_m = d\<lparr>cells := c\<rparr>, size_m = n\<rparr>, lg2)
           | Raised e (c, lg2) \<Rightarrow> Raised e (RawMemory_dtor d lg2)
           | Undefined \<Rightarrow> Undefined)
      | Raised e lg1 \<Rightarrow> Raised e lg1
      | Undefined \<Rightarrow> Undefined)"

text \<open>
  \<^verbatim>\<open>std::uninitialized_move_n\<close> on a range of const objects, as
  \<^verbatim>\<open>list.begin()\<close> of a \<^verbatim>\<open>std::initializer_list<T>\<close> is
  (\<^verbatim>\<open>const T*\<close>): \<^verbatim>\<open>std::move\<close> of a \<^verbatim>\<open>const T\<close> lvalue is a
  \<^verbatim>\<open>const T&&\<close>, which the move constructor \<^verbatim>\<open>T(T&&)\<close> does not accept and the
  copy constructor \<^verbatim>\<open>T(const T&)\<close> does. So each element is copy-constructed and the
  source is left as it was.
\<close>

definition uninitialized_move_n_const :: "'a elem_type \<Rightarrow> 'a option list \<Rightarrow> nat \<Rightarrow> nat
    \<Rightarrow> 'a option list \<Rightarrow> nat \<Rightarrow> 'a event list
    \<Rightarrow> ('a option list \<times> 'a event list, 'a option list \<times> 'a event list) outcome" where
  "uninitialized_move_n_const T src first n dst d_first lg =
     uninit_copy_loop T src first n dst d_first d_first lg"

text \<open>\<^verbatim>\<open>Vector(std::initializer_list<T> list)\<close> (lines 111-120).\<close>

definition Vector_list :: "'a elem_type \<Rightarrow> (nat \<Rightarrow> bool) \<Rightarrow> 'a list \<Rightarrow> 'a event list
    \<Rightarrow> ('a Vector \<times> 'a event list, 'a event list) outcome" where
  "Vector_list T operator_new xs lg =
     (case RawMemory_ctor T operator_new (length xs) lg of
        Done (d, lg1) \<Rightarrow>
          (case (if is_nothrow_move_constructible T \<or> \<not> is_copy_constructible T
                 then uninitialized_move_n_const T (map Some xs) 0 (length xs) (cells d) 0 lg1
                 else uninitialized_copy_n T (map Some xs) 0 (length xs) (cells d) 0 lg1) of
             Done (c, lg2) \<Rightarrow> Done (\<lparr>data_m = d\<lparr>cells := c\<rparr>, size_m = length xs\<rparr>, lg2)
           | Raised e (c, lg2) \<Rightarrow> Raised e (RawMemory_dtor d lg2)
           | Undefined \<Rightarrow> Undefined)
      | Raised e lg1 \<Rightarrow> Raised e lg1
      | Undefined \<Rightarrow> Undefined)"

text \<open>\<^verbatim>\<open>Vector(const Vector& other)\<close> (lines 122-127).\<close>

definition Vector_copy :: "'a elem_type \<Rightarrow> (nat \<Rightarrow> bool) \<Rightarrow> 'a Vector \<Rightarrow> 'a event list
    \<Rightarrow> ('a Vector \<times> 'a event list, 'a event list) outcome" where
  "Vector_copy T operator_new other lg =
     (case RawMemory_ctor T operator_new (size_m other) lg of
        Done (d, lg1) \<Rightarrow>
          (case uninitialized_copy_n T (cells (data_m other)) 0 (size_m other) (cells d) 0 lg1 of
             Done (c, lg2) \<Rightarrow> Done (\<lparr>data_m = d\<lparr>cells := c\<rparr>, size_m = size_m other\<rparr>, lg2)
           | Raised e (c, lg2) \<Rightarrow> Raised e (RawMemory_dtor d lg2)
           | Undefined \<Rightarrow> Undefined)
      | Raised e lg1 \<Rightarrow> Raised e lg1
      | Undefined \<Rightarrow> Undefined)"

text \<open>\<^verbatim>\<open>~Vector()\<close> (lines 314-318), followed by the destructor of \<^verbatim>\<open>data_\<close>.\<close>

definition Vector_dtor :: "'a Vector \<Rightarrow> 'a event list \<Rightarrow> ('a event list, unit) outcome" where
  "Vector_dtor v lg =
     (if buffer_m (data_m v) \<noteq> nullptr then
        (case destroy_n (cells (data_m v)) 0 (size_m v) lg of
           Done (c, lg') \<Rightarrow> Done (RawMemory_dtor (data_m v) lg')
         | _ \<Rightarrow> Undefined)
      else Done (RawMemory_dtor (data_m v) lg))"

text \<open>\<^verbatim>\<open>Swap\<close> (lines 309-312): the states of \<^verbatim>\<open>*this\<close> and of \<^verbatim>\<open>other\<close>.\<close>

definition Swap :: "'a Vector \<Rightarrow> 'a Vector \<Rightarrow> 'a Vector \<times> 'a Vector" where
  "Swap v other =
     (let (d, od) = RawMemory_Swap (data_m v) (data_m other)
      in (\<lparr>data_m = d, size_m = size_m other\<rparr>, \<lparr>data_m = od, size_m = size_m v\<rparr>))"

text \<open>
  The loops \<^verbatim>\<open>for(; i < n; ++i) data_[i] = rhs[i];\<close> of the copy assignment
  (lines 137-139 and 144-146); the fourth argument is \<open>i\<close>, the fifth the number of
  iterations left.
\<close>

fun copy_assign_loop :: "'a elem_type \<Rightarrow> 'a option list \<Rightarrow> 'a option list \<Rightarrow> nat \<Rightarrow> nat
    \<Rightarrow> 'a event list
    \<Rightarrow> ('a option list \<times> 'a event list, 'a option list \<times> 'a event list) outcome" where
  "copy_assign_loop T src dst i 0 lg = Done (dst, lg)"
| "copy_assign_loop T src dst i (Suc n) lg =
     (if i < length src \<and> i < length dst then
        (case src ! i of
           None \<Rightarrow> Undefined
         | Some x \<Rightarrow>
             (case dst ! i of
                None \<Rightarrow> Undefined
              | Some y \<Rightarrow>
                  if copy_assign_throws T x then Raised element_exception (dst, lg)
                  else copy_assign_loop T src (dst[i := Some x]) (Suc i) n
                         (lg @ [Copy_assigned x])))
      else Undefined)"

text \<open>
  The body of \<^verbatim>\<open>operator=(const Vector& rhs)\<close> under \<^verbatim>\<open>this != &rhs\<close>
  (lines 131-150). In the first branch \<^verbatim>\<open>rhs_copy\<close> is a local: after the swap it
  holds the old contents of \<^verbatim>\<open>*this\<close> and is destroyed at the end of the block.
\<close>

definition copy_assign_body :: "'a elem_type \<Rightarrow> (nat \<Rightarrow> bool) \<Rightarrow> 'a Vector \<Rightarrow> 'a Vector
    \<Rightarrow> 'a event list \<Rightarrow> ('a Vector \<times> 'a event list, 'a Vector \<times> 'a event list) outcome" where
  "copy_assign_body T operator_new v rhs lg =
     (if size_m rhs > capacity_m (data_m v) then
        (case Vector_copy T operator_new rhs lg of
           Done (rhs_copy, lg1) \<Rightarrow>
             (let (v', rhs_copy') = Swap v rhs_copy in
              case Vector_dtor rhs_copy' lg1 of
                Done lg2 \<Rightarrow> Done (v', lg2)
              | _ \<Rightarrow> Undefined)
         | Raised e lg1 \<Rightarrow> Raised e (v, lg1)
         | Undefined \<Rightarrow> Undefined)
      else if size_m rhs \<ge> size_m v then
        (case copy_assign_loop T (cells (data_m rhs)) (cells (data_m v)) 0 (size_m v) lg of
           Done (c, lg1) \<Rightarrow>
             (case uninitialized_copy_n T (cells (data_m rhs)) (size_m v)
                     (size_m rhs - size_m v) c (size_m v) lg1 of
                Done (c', lg2) \<Rightarrow> Done ((set_cells v c')\<lparr>size_m := size_m rhs\<rparr>, lg2)
              | Raised e (c', lg2) \<Rightarrow> Raised e (set_cells v c', lg2)
              | Undefined \<Rightarrow> Undefined)
         | Raised e (c, lg1) \<Rightarrow> Raised e (set_cells v c, lg1)
         | Undefined \<Rightarrow> Undefined)
      else
        (case copy_assign_loop T (cells (data_m rhs)) (cells (data_m v)) 0 (size_m rhs) lg of
           Done (c, lg1) \<Rightarrow>
             (case destroy_n c (size_m rhs) (size_m v - size_m rhs) lg1 of
                Done (c', lg2) \<Rightarrow> Done ((set_cells v c')\<lparr>size_m := size_m rhs\<rparr>, lg2)
              | _ \<Rightarrow> Undefined)
         | Raised e (c, lg1) \<Rightarrow> Raised e (set_cells v c, lg1)
         | Undefined \<Rightarrow> Undefined))"

text \<open>
  \<^verbatim>\<open>operator=(const Vector& rhs)\<close> (lines 129-153). Whether \<^verbatim>\<open>this\<close> and
  \<^verbatim>\<open>&rhs\<close> are the same object is a matter of addresses, so the operator works on a
  store of vector objects, \<open>this\<close> and \<open>rhs\<close> being addresses in it.
\<close>

definition Vector_copy_assign :: "'a elem_type \<Rightarrow> (nat \<Rightarrow> bool) \<Rightarrow> (nat \<Rightarrow> 'a Vector) \<Rightarrow> nat
    \<Rightarrow> nat \<Rightarrow> 'a event list
    \<Rightarrow> ((nat \<Rightarrow> 'a Vector) \<times> 'a event list, (nat \<Rightarrow> 'a Vector) \<times> 'a event list) outcome" where
  "Vector_copy_assign T operator_new st this rhs lg =
     (if this \<noteq> rhs then
        (case copy_assign_body T operator_new (st this) (st rhs) lg of
           Done (v, lg') \<Rightarrow> Done (st(this := v), lg')
         | Raised e (v, lg') \<Rightarrow> Raised e (st(this := v), lg')
         | Undefined \<Rightarrow> Undefined)
      else Done (st, lg))"

text \<open>
  \<^verbatim>\<open>Vector(Vector&& other)\<close> (lines 155-159): the new vector and the state of
  \<^verbatim>\<open>other\<close>.
\<close>

definition Vector_move :: "'a Vector \<Rightarrow> 'a Vector \<times> 'a Vector" where
  "Vector_move other =
     (let (d, od) = RawMemory_move (data_m other)
      in (\<lparr>data_m = d, size_m = size_m other\<rparr>, \<lparr>data_m = od, size_m = 0\<rparr>))"

text \<open>
  The body of \<^verbatim>\<open>operator=(Vector&& rhs)\<close> under \<^verbatim>\<open>this != &rhs\<close>
  (lines 163-165): the states of \<^verbatim>\<open>*this\<close> and of \<^verbatim>\<open>rhs\<close>. The operator
  itself (lines 161-169) works on the store.
\<close>

definition move_assign_body :: "'a Vector \<Rightarrow> 'a Vector \<Rightarrow> 'a event list
    \<Rightarrow> 'a Vector \<times> 'a Vector \<times> 'a event list" where
  "move_assign_body v rhs lg =
     (let (d, rd, lg') = RawMemory_move_assign (data_m v) (data_m rhs) lg
      in (\<lparr>data_m = d, size_m = size_m rhs\<rparr>, \<lparr>data_m = rd, size_m = 0\<rparr>, lg'))"

definition Vector_move_assign :: "(nat \<Rightarrow> 'a Vector) \<Rightarrow> nat \<Rightarrow> nat \<Rightarrow> 'a event list
    \<Rightarrow> (nat \<Rightarrow> 'a Vector) \<times> 'a event list" where
  "Vector_move_assign st this rhs lg =
     (if this \<noteq> rhs then
        (let (v, r, lg') = move_assign_body (st this) (st rhs) lg
         in (st(this := v, rhs := r), lg'))
      else (st, lg))"

section \<open>Vector: capacity, insertion, removal\<close>

text \<open>
  \<^verbatim>\<open>FillNewData\<close> (lines 320-326): the vector (whose elements a move changes),
  the new block and the log.
\<close>

definition FillNewData :: "'a elem_type \<Rightarrow> 'a Vector \<Rightarrow> 'a RawMemory \<Rightarrow> nat \<Rightarrow> nat \<Rightarrow> nat
    \<Rightarrow> 'a event list
    \<Rightarrow> ('a Vector \<times> 'a RawMemory \<times> 'a event list,
        'a Vector \<times> 'a RawMemory \<times> 'a event list) outcome" where
  "FillNewData T v new_data from to count lg =
     (if is_nothrow_move_constructible T \<or> \<not> is_copy_constructible T then
        (case uninitialized_move_n T (cells (data_m v)) from count (cells new_data) to lg of
           Done (src, dst, lg') \<Rightarrow> Done (set_cells v src, new_data\<lparr>cells := dst\<rparr>, lg')
         | Raised e (src, dst, lg') \<Rightarrow>
             Raised e (set_cells v src, new_data\<lparr>cells := dst\<rparr>, lg')
         | Undefined \<Rightarrow> Undefined)
      else
        (case uninitialized_copy_n T (cells (data_m v)) from count (cells new_data) to lg of
           Done (dst, lg') \<Rightarrow> Done (v, new_data\<lparr>cells := dst\<rparr>, lg')
         | Raised e (dst, lg') \<Rightarrow> Raised e (v, new_data\<lparr>cells := dst\<rparr>, lg')
         | Undefined \<Rightarrow> Undefined))"

text \<open>
  \<^verbatim>\<open>FillBehindIndex\<close> (lines 328-334): the handler destroys
  \<^verbatim>\<open>new_data[index]\<close> and does not rethrow, so the function returns.
\<close>

definition FillBehindIndex :: "'a elem_type \<Rightarrow> 'a Vector \<Rightarrow> 'a RawMemory \<Rightarrow> nat
    \<Rightarrow> 'a event list
    \<Rightarrow> ('a Vector \<times> 'a RawMemory \<times> 'a event list,
        'a Vector \<times> 'a RawMemory \<times> 'a event list) outcome" where
  "FillBehindIndex T v new_data index lg =
     (case FillNewData T v new_data 0 0 index lg of
        Done s \<Rightarrow> Done s
      | Raised e (v', nd, lg') \<Rightarrow>
          (case destroy_at (cells nd) index lg' of
             Done (c, lg'') \<Rightarrow> Done (v', nd\<lparr>cells := c\<rparr>, lg'')
           | _ \<Rightarrow> Undefined)
      | Undefined \<Rightarrow> Undefined)"

text \<open>
  \<^verbatim>\<open>FillAfterIndex\<close> (lines 336-344): the handler destroys
  \<^verbatim>\<open>new_data[0]\<close> to \<^verbatim>\<open>new_data[index]\<close> and does not rethrow.
  \<^verbatim>\<open>size_ - index\<close> is a \<^verbatim>\<open>size_t\<close>: with \<open>index\<close> beyond the size it wraps
  around to a count no block holds.
\<close>

definition FillAfterIndex :: "'a elem_type \<Rightarrow> 'a Vector \<Rightarrow> 'a RawMemory \<Rightarrow> nat
    \<Rightarrow> 'a event list
    \<Rightarrow> ('a Vector \<times> 'a RawMemory \<times> 'a event list,
        'a Vector \<times> 'a RawMemory \<times> 'a event list) outcome" where
  "FillAfterIndex T v new_data index lg =
     (if index \<le> size_m v then
        (case FillNewData T v new_data index (index + 1) (size_m v - index) lg of
           Done s \<Rightarrow> Done s
         | Raised e (v', nd, lg') \<Rightarrow>
             (case destroy_n (cells nd) 0 (index + 1) lg' of
                Done (c, lg'') \<Rightarrow> Done (v', nd\<lparr>cells := c\<rparr>, lg'')
              | _ \<Rightarrow> Undefined)
         | Undefined \<Rightarrow> Undefined)
      else Undefined)"

text \<open>
  \<^verbatim>\<open>Reserve\<close> (lines 179-188). \<^verbatim>\<open>new_data\<close> is a local: when
  \<^verbatim>\<open>FillNewData\<close> throws it is destroyed with the block it owns; after the swap it
  owns the old block and is destroyed at the end of the function.
\<close>

definition Reserve :: "'a elem_type \<Rightarrow> (nat \<Rightarrow> bool) \<Rightarrow> 'a Vector \<Rightarrow> nat \<Rightarrow> 'a event list
    \<Rightarrow> ('a Vector \<times> 'a event list, 'a Vector \<times> 'a event list) outcome" where
  "Reserve T operator_new v new_capacity lg =
     (if new_capacity \<le> capacity_m (data_m v) then Done (v, lg)
      else
        (case RawMemory_ctor T operator_new new_capacity lg of
           Raised e lg1 \<Rightarrow> Raised e (v, lg1)
         | Undefined \<Rightarrow> Undefined
         | Done (new_data, lg1) \<Rightarrow>
             (case FillNewData T v new_data 0 0 (size_m v) lg1 of
                Raised e (v1, nd, lg2) \<Rightarrow> Raised e (v1, RawMemory_dtor nd lg2)
              | Undefined \<Rightarrow> Undefined
              | Done (v1, nd, lg2) \<Rightarrow>
                  (case destroy_n (cells (data_m v1)) 0 (size_m v1) lg2 of
                     Done (c, lg3) \<Rightarrow>
                       (let (d, old) = RawMemory_Swap ((data_m v1)\<lparr>cells := c\<rparr>) nd
                        in Done (v1\<lparr>data_m := d\<rparr>, RawMemory_dtor old lg3))
                   | _ \<Rightarrow> Undefined))))"

text \<open>\<^verbatim>\<open>Resize\<close> (lines 190-202).\<close>

definition Resize :: "'a elem_type \<Rightarrow> (nat \<Rightarrow> bool) \<Rightarrow> 'a Vector \<Rightarrow> nat \<Rightarrow> 'a event list
    \<Rightarrow> ('a Vector \<times> 'a event list, 'a Vector \<times> 'a event list) outcome" where
  "Resize T operator_new v new_size lg =
     (if new_size \<le> size_m v then
        (let left_elems = size_m v - new_size in
         if left_elems \<noteq> 0 then
           (case destroy_n (cells (data_m v)) new_size left_elems lg of
              Done (c, lg1) \<Rightarrow> Done ((set_cells v c)\<lparr>size_m := new_size\<rparr>, lg1)
            | _ \<Rightarrow> Undefined)
         else Done (v\<lparr>size_m := new_size\<rparr>, lg))
      else
        (case Reserve T operator_new v new_size lg of
           Raised e s \<Rightarrow> Raised e s
         | Undefined \<Rightarrow> Undefined
         | Done (v1, lg1) \<Rightarrow>
             (case uninitialized_value_construct_n T (cells (data_m v1)) (size_m v1)
                     (new_size - size_m v1) lg1 of
                Done (c, lg2) \<Rightarrow> Done ((set_cells v1 c)\<lparr>size_m := new_size\<rparr>, lg2)
              | Raised e (c, lg2) \<Rightarrow> Raised e (set_cells v1 c, lg2)
              | Undefined \<Rightarrow> Undefined)))"

text \<open>
  The capacity of the new block in \<^verbatim>\<open>EmplaceBack\<close> and \<^verbatim>\<open>Emplace\<close>:
  \<^verbatim>\<open>size_ == 0 ? 1 : size_ * 2\<close> (lines 223 and 241), in \<^verbatim>\<open>size_t\<close>.
\<close>

definition grown_capacity :: "nat \<Rightarrow> nat" where
  "grown_capacity sz = (if sz = 0 then 1 else (sz * 2) mod size_t_range)"

text \<open>
  \<^verbatim>\<open>EmplaceBack\<close> (lines 220-234); the result is the vector and the index of the
  element the returned reference names. When the constructor of the new element throws in
  the first branch, \<^verbatim>\<open>new_data\<close> is destroyed and releases the block; the elements
  \<^verbatim>\<open>FillNewData\<close> has built in it are not destroyed.
\<close>

definition EmplaceBack :: "'a elem_type \<Rightarrow> (nat \<Rightarrow> bool) \<Rightarrow> 'a Vector \<Rightarrow> 'a ctor_args
    \<Rightarrow> 'a event list
    \<Rightarrow> (('a Vector \<times> nat) \<times> 'a event list, 'a Vector \<times> 'a event list) outcome" where
  "EmplaceBack T operator_new v a lg =
     (if size_m v = capacity_m (data_m v) then
        (case RawMemory_ctor T operator_new (grown_capacity (size_m v)) lg of
           Raised e lg1 \<Rightarrow> Raised e (v, lg1)
         | Undefined \<Rightarrow> Undefined
         | Done (new_data, lg1) \<Rightarrow>
             (case FillNewData T v new_data 0 0 (size_m v) lg1 of
                Raised e (v1, nd, lg2) \<Rightarrow> Raised e (v1, RawMemory_dtor nd lg2)
              | Undefined \<Rightarrow> Undefined
              | Done (v1, nd, lg2) \<Rightarrow>
                  if size_m v1 < length (cells nd) then
                    if ctor_throws T a then
                      Raised element_exception (v1, RawMemory_dtor nd lg2)
                    else
                      (case destroy_n (cells (data_m v1)) 0 (size_m v1)
                              (lg2 @ [ctor_event a]) of
                         Done (c, lg3) \<Rightarrow>
                           (let (d, old) =
                                  RawMemory_Swap ((data_m v1)\<lparr>cells := c\<rparr>)
                                    (nd\<lparr>cells := (cells nd)[size_m v1 := Some (ctor_value a)]\<rparr>)
                            in Done ((\<lparr>data_m = d, size_m = size_m v1 + 1\<rparr>, size_m v1),
                                     RawMemory_dtor old lg3))
                       | _ \<Rightarrow> Undefined)
                  else Undefined))
      else
        (if size_m v < length (cells (data_m v)) then
           if ctor_throws T a then Raised element_exception (v, lg)
           else Done (((set_cells v ((cells (data_m v))[size_m v := Some (ctor_value a)]))
                         \<lparr>size_m := size_m v + 1\<rparr>, size_m v),
                      lg @ [ctor_event a])
         else Undefined))"

text \<open>\<^verbatim>\<open>PushBack(const T&)\<close> (lines 204-206) and \<^verbatim>\<open>PushBack(T&&)\<close> (lines 208-210).\<close>

definition PushBack_copy :: "'a elem_type \<Rightarrow> (nat \<Rightarrow> bool) \<Rightarrow> 'a Vector \<Rightarrow> 'a \<Rightarrow> 'a event list
    \<Rightarrow> ('a Vector \<times> 'a event list, 'a Vector \<times> 'a event list) outcome" where
  "PushBack_copy T operator_new v x lg =
     (case EmplaceBack T operator_new v (Lvalue x) lg of
        Done ((v', r), lg') \<Rightarrow> Done (v', lg')
      | Raised e s \<Rightarrow> Raised e s
      | Undefined \<Rightarrow> Undefined)"

definition PushBack_move :: "'a elem_type \<Rightarrow> (nat \<Rightarrow> bool) \<Rightarrow> 'a Vector \<Rightarrow> 'a \<Rightarrow> 'a event list
    \<Rightarrow> ('a Vector \<times> 'a event list, 'a Vector \<times> 'a event list) outcome" where
  "PushBack_move T operator_new v x lg =
     (case EmplaceBack T operator_new v (Rvalue x) lg of
        Done ((v', r), lg') \<Rightarrow> Done (v', lg')
      | Raised e s \<Rightarrow> Raised e s
      | Undefined \<Rightarrow> Undefined)"

text \<open>
  The branch of \<^verbatim>\<open>Emplace\<close> for \<^verbatim>\<open>size_ == data_.Capacity()\<close>
  (lines 241-246). \<^verbatim>\<open>new_data + index\<close> asserts \<^verbatim>\<open>index <= capacity_\<close>.
  Neither \<^verbatim>\<open>FillBehindIndex\<close> nor \<^verbatim>\<open>FillAfterIndex\<close> lets an exception
  out, so the four statements after the construction of the new element always run.
\<close>

definition Emplace_realloc :: "'a elem_type \<Rightarrow> (nat \<Rightarrow> bool) \<Rightarrow> 'a Vector \<Rightarrow> nat
    \<Rightarrow> 'a ctor_args \<Rightarrow> 'a event list
    \<Rightarrow> ('a Vector \<times> 'a event list, 'a Vector \<times> 'a event list) outcome" where
  "Emplace_realloc T operator_new v index a lg =
     (case RawMemory_ctor T operator_new (grown_capacity (size_m v)) lg of
        Raised e lg1 \<Rightarrow> Raised e (v, lg1)
      | Undefined \<Rightarrow> Undefined
      | Done (new_data, lg1) \<Rightarrow>
          if index \<le> capacity_m new_data \<and> index < length (cells new_data) then
            if ctor_throws T a then Raised element_exception (v, RawMemory_dtor new_data lg1)
            else
              (case FillBehindIndex T v
                      (new_data\<lparr>cells := (cells new_data)[index := Some (ctor_value a)]\<rparr>)
                      index (lg1 @ [ctor_event a]) of
                 Done (v1, nd1, lg2) \<Rightarrow>
                   (case FillAfterIndex T v1 nd1 index lg2 of
                      Done (v2, nd2, lg3) \<Rightarrow>
                        (case destroy_n (cells (data_m v2)) 0 (size_m v2) lg3 of
                           Done (c, lg4) \<Rightarrow>
                             (let (d, old) = RawMemory_Swap ((data_m v2)\<lparr>cells := c\<rparr>) nd2
                              in Done (\<lparr>data_m = d, size_m = size_m v2 + 1\<rparr>,
                                       RawMemory_dtor old lg4))
                         | _ \<Rightarrow> Undefined)
                    | Raised e (v2, nd2, lg3) \<Rightarrow> Raised e (v2, RawMemory_dtor nd2 lg3)
                    | Undefined \<Rightarrow> Undefined)
               | Raised e (v1, nd1, lg2) \<Rightarrow> Raised e (v1, RawMemory_dtor nd1 lg2)
               | Undefined \<Rightarrow> Undefined)
          else Undefined)"

text \<open>
  The branch for \<^verbatim>\<open>size_ != data_.Capacity()\<close> (lines 249-256). \<^verbatim>\<open>elem\<close>
  is a local: it is destroyed when the block is left, by an exception or at its end (then
  moved-from).
\<close>

definition Emplace_in_place :: "'a elem_type \<Rightarrow> 'a Vector \<Rightarrow> nat \<Rightarrow> 'a ctor_args
    \<Rightarrow> 'a event list
    \<Rightarrow> ('a Vector \<times> 'a event list, 'a Vector \<times> 'a event list) outcome" where
  "Emplace_in_place T v index a lg =
     (if size_m v \<noteq> 0 then
        (if ctor_throws T a then Raised element_exception (v, lg)
         else
           (let elem = ctor_value a; c = cells (data_m v); n = size_m v in
            if n < length c then
              (case c ! (n - 1) of
                 None \<Rightarrow> Undefined
               | Some y \<Rightarrow>
                   if move_throws T y then
                     Raised element_exception (v, lg @ [ctor_event a, Destroyed elem])
                   else
                     (case move_backward T (c[n - 1 := Some (moved_from T y), n := Some y])
                             index (n - 1) n (lg @ [ctor_event a, Move_constructed y]) of
                        Raised e (c1, lg1) \<Rightarrow> Raised e (set_cells v c1, lg1 @ [Destroyed elem])
                      | Undefined \<Rightarrow> Undefined
                      | Done (c1, lg1) \<Rightarrow>
                          if index < length c1 then
                            (case c1 ! index of
                               None \<Rightarrow> Undefined
                             | Some z \<Rightarrow>
                                 if move_assign_throws T elem then
                                   Raised element_exception
                                     (set_cells v c1, lg1 @ [Destroyed elem])
                                 else
                                   Done ((set_cells v (c1[index := Some elem]))
                                           \<lparr>size_m := n + 1\<rparr>,
                                         lg1 @ [Move_assigned elem,
                                                Destroyed (moved_from T elem)]))
                          else Undefined))
            else Undefined))
      else
        (if 0 < length (cells (data_m v)) then
           if ctor_throws T a then Raised element_exception (v, lg)
           else Done ((set_cells v ((cells (data_m v))[0 := Some (ctor_value a)]))
                        \<lparr>size_m := size_m v + 1\<rparr>,
                      lg @ [ctor_event a])
         else Undefined))"

text \<open>
  \<^verbatim>\<open>Emplace\<close> (lines 236-261). The position is given by
  \<^verbatim>\<open>index = pos - data_.GetAddress()\<close>; the iterator returned is
  \<^verbatim>\<open>begin() + index\<close>, again given by \<open>index\<close>.
\<close>

definition Emplace :: "'a elem_type \<Rightarrow> (nat \<Rightarrow> bool) \<Rightarrow> 'a Vector \<Rightarrow> nat \<Rightarrow> 'a ctor_args
    \<Rightarrow> 'a event list
    \<Rightarrow> (('a Vector \<times> nat) \<times> 'a event list, 'a Vector \<times> 'a event list) outcome" where
  "Emplace T operator_new v index a lg =
     (case (if size_m v = capacity_m (data_m v)
            then Emplace_realloc T operator_new v index a lg
            else Emplace_in_place T v index a lg) of
        Done (v', lg') \<Rightarrow> Done ((v', index), lg')
      | Raised e s \<Rightarrow> Raised e s
      | Undefined \<Rightarrow> Undefined)"

text \<open>\<^verbatim>\<open>Insert(pos, const T&)\<close> (lines 212-214) and \<^verbatim>\<open>Insert(pos, T&&)\<close> (lines 216-218).\<close>

definition Insert_copy :: "'a elem_type \<Rightarrow> (nat \<Rightarrow> bool) \<Rightarrow> 'a Vector \<Rightarrow> nat \<Rightarrow> 'a
    \<Rightarrow> 'a event list
    \<Rightarrow> (('a Vector \<times> nat) \<times> 'a event list, 'a Vector \<times> 'a event list) outcome" where
  "Insert_copy T operator_new v index x lg = Emplace T operator_new v index (Lvalue x) lg"

definition Insert_move :: "'a elem_type \<Rightarrow> (nat \<Rightarrow> bool) \<Rightarrow> 'a Vector \<Rightarrow> nat \<Rightarrow> 'a
    \<Rightarrow> 'a event list
    \<Rightarrow> (('a Vector \<times> nat) \<times> 'a event list, 'a Vector \<times> 'a event list) outcome" where
  "Insert_move T operator_new v index x lg = Emplace T operator_new v index (Rvalue x) lg"

text \<open>
  \<^verbatim>\<open>Erase\<close> (lines 263-269). \<^verbatim>\<open>[begin() + index + 1, end())\<close> is a valid
  range only for \<open>index < size_m v\<close>.
\<close>

definition Erase :: "'a elem_type \<Rightarrow> 'a Vector \<Rightarrow> nat \<Rightarrow> 'a event list
    \<Rightarrow> (('a Vector \<times> nat) \<times> 'a event list, 'a Vector \<times> 'a event list) outcome" where
  "Erase T v index lg =
     (case move_range T (cells (data_m v)) (index + 1) (size_m v) index lg of
        Raised e (c, lg1) \<Rightarrow> Raised e (set_cells v c, lg1)
      | Undefined \<Rightarrow> Undefined
      | Done (c, lg1) \<Rightarrow>
          if 0 < size_m v then
            (case destroy_at c (size_m v - 1) lg1 of
               Done (c', lg2) \<Rightarrow> Done (((set_cells v c')\<lparr>size_m := size_m v - 1\<rparr>, index), lg2)
             | _ \<Rightarrow> Undefined)
          else Undefined)"

text \<open>
  \<^verbatim>\<open>PopBack\<close> (lines 271-274): on an empty vector
  \<^verbatim>\<open>data_.GetAddress() + size_ - 1\<close> points before the block.
\<close>

definition PopBack :: "'a Vector \<Rightarrow> 'a event list \<Rightarrow> ('a Vector \<times> 'a event list, unit) outcome" where
  "PopBack v lg =
     (if 0 < size_m v then
        (case destroy_at (cells (data_m v)) (size_m v - 1) lg of
           Done (c, lg1) \<Rightarrow> Done ((set_cells v c)\<lparr>size_m := size_m v - 1\<rparr>, lg1)
         | _ \<Rightarrow> Undefined)
      else Undefined)"

text \<open>The elements of a vector, as \<^verbatim>\<open>begin()\<close> to \<^verbatim>\<open>end()\<close> gives them (lines 285-291).\<close>

definition elements :: "'a Vector \<Rightarrow> 'a option list" where
  "elements v = take (size_m v) (cells (data_m v))"

section \<open>Valid states\<close>

text \<open>
  \<open>holds v xs\<close>: the vector is in a valid state and its elements are \<open>xs\<close>. The size is
  at most the capacity, the block has exactly \<open>capacity_m\<close> slots, the slots below the
  size hold the live objects \<open>xs\<close> in order, the slots from the size on are raw memory,
  and the pointer is null exactly when the capacity is 0.
  \<open>invariant v\<close> says so of the values the first \<open>size_m v\<close> slots hold.
\<close>

definition holds :: "'a Vector \<Rightarrow> 'a list \<Rightarrow> bool" where
  "holds v xs =
     (size_m v = length xs \<and> length xs \<le> capacity_m (data_m v) \<and>
      cells (data_m v) = map Some xs @ replicate (capacity_m (data_m v) - length xs) None \<and>
      (buffer_m (data_m v) = nullptr) = (capacity_m (data_m v) = 0))"

definition contents :: "'a Vector \<Rightarrow> 'a list" where
  "contents v = map the (elements v)"

definition invariant :: "'a Vector \<Rightarrow> bool" where
  "invariant v = holds v (contents v)"

section \<open>Element types used as examples\<close>

text \<open>
  \<^verbatim>\<open>int\<close>; \<^verbatim>\<open>std::string\<close>, whose move leaves the source empty; and a class
  with a flag that makes its copy constructor and copy assignment throw (its move
  constructor is not \<^verbatim>\<open>noexcept\<close>), the value being a number and the flag.
\<close>

definition int_type :: "int elem_type" where
  "int_type = \<lparr>sizeof_T = 4, is_nothrow_move_constructible = True, is_copy_constructible = True,
     value_init = 0, value_ctor_throws = (\<lambda>k. False), args_ctor_throws = (\<lambda>x. False),
     copy_ctor_throws = (\<lambda>x. False), move_ctor_throws = (\<lambda>x. False),
     copy_assign_throws = (\<lambda>x. False), move_assign_throws = (\<lambda>x. False),
     moved_from = (\<lambda>x. x)\<rparr>"

definition string_type :: "string elem_type" where
  "string_type = \<lparr>sizeof_T = 32, is_nothrow_move_constructible = True,
     is_copy_constructible = True,
     value_init = [], value_ctor_throws = (\<lambda>k. False), args_ctor_throws = (\<lambda>x. False),
     copy_ctor_throws = (\<lambda>x. False), move_ctor_throws = (\<lambda>x. False),
     copy_assign_throws = (\<lambda>x. False), move_assign_throws = (\<lambda>x. False),
     moved_from = (\<lambda>x. [])\<rparr>"

definition obj_type :: "(nat \<times> bool) elem_type" where
  "obj_type = \<lparr>sizeof_T = 8, is_nothrow_move_constructible = False,
     is_copy_constructible = True,
     value_init = (0, False), value_ctor_throws = (\<lambda>k. False), args_ctor_throws = (\<lambda>x. False),
     copy_ctor_throws = snd, move_ctor_throws = (\<lambda>x. False),
     copy_assign_throws = snd, move_assign_throws = (\<lambda>x. False),
     moved_from = (\<lambda>x. x)\<rparr>"

text \<open>
  \<open>vec p cap xs\<close>: a vector in a valid state that owns block \<open>p\<close>, of \<open>cap\<close> slots, and
  holds \<open>xs\<close>. \<open>two_vectors v w\<close>: a store with \<open>v\<close> at address 0 and \<open>w\<close> at
  address 1.
\<close>

definition vec :: "nat \<Rightarrow> nat \<Rightarrow> 'a list \<Rightarrow> 'a Vector" where
  "vec p cap xs =
     \<lparr>data_m = \<lparr>buffer_m = Ptr p, capacity_m = cap,
                cells = map Some xs @ replicate (cap - length xs) None\<rparr>,
      size_m = length xs\<rparr>"

definition two_vectors :: "'a Vector \<Rightarrow> 'a Vector \<Rightarrow> nat \<Rightarrow> 'a Vector" where
  "two_vectors v w = (\<lambda>a. Vector_default)(0 := v, 1 := w)"

section \<open>Notions used in the statements\<close>

text \<open>
  \<open>fits T n\<close>: the byte size of \<open>n\<close> objects of type \<open>T\<close> is representable in
  \<^verbatim>\<open>size_t\<close> (and \<open>sizeof(T)\<close> is not 0, as for every C++ type).
  \<open>relocates_by_move T\<close> is the condition of the \<^verbatim>\<open>if constexpr\<close> in
  \<^verbatim>\<open>FillNewData\<close>. \<open>is_element_event\<close> tells the events that construct,
  assign or destroy an element from the allocations and deallocations.
\<close>

definition fits :: "'a elem_type \<Rightarrow> nat \<Rightarrow> bool" where
  "fits T n = (0 < sizeof_T T \<and> n * sizeof_T T < size_t_range)"

definition relocates_by_move :: "'a elem_type \<Rightarrow> bool" where
  "relocates_by_move T = (is_nothrow_move_constructible T \<or> \<not> is_copy_constructible T)"

fun is_element_event :: "'a event \<Rightarrow> bool" where
  "is_element_event (New b) = False"
| "is_element_event (Delete b) = False"
| "is_element_event e = True"

text \<open>
  \<open>block_ptr lg n\<close> and \<open>allocation T n\<close>: the pointer that \<^verbatim>\<open>RawMemory(n)\<close>
  obtains when the log is \<open>lg\<close> (null for \<open>n = 0\<close>), and what a successful allocation
  of \<open>n\<close> slots adds to the log.
\<close>

definition block_ptr :: "'a event list \<Rightarrow> nat \<Rightarrow> ptr" where
  "block_ptr lg n = (if n = 0 then nullptr else Ptr (length lg))"

definition allocation :: "'a elem_type \<Rightarrow> nat \<Rightarrow> 'a event list" where
  "allocation T n = (if n = 0 then [] else [New (n * sizeof_T T)])"

text \<open>
  For a relocation by \<^verbatim>\<open>FillNewData\<close> of the elements \<open>xs\<close>: \<open>relocation_ok\<close>
  says that none of the constructions throws, \<open>relocation_events\<close> are the constructions
  logged, and \<open>relocated_from\<close> are the values left in the old block. \<open>doubled n\<close> is
  \<open>max(1, n * 2)\<close>. \<open>push_all\<close> is a sequence of appends: \<^verbatim>\<open>EmplaceBack\<close> called
  with each argument in turn, up to the first call that does not return.
\<close>

definition relocation_ok :: "'a elem_type \<Rightarrow> 'a list \<Rightarrow> bool" where
  "relocation_ok T xs =
     (if relocates_by_move T then list_all (\<lambda>x. \<not> move_throws T x) xs
      else list_all (\<lambda>x. \<not> copy_ctor_throws T x) xs)"

definition relocation_events :: "'a elem_type \<Rightarrow> 'a list \<Rightarrow> 'a event list" where
  "relocation_events T xs =
     (if relocates_by_move T then map Move_constructed xs else map Copy_constructed xs)"

definition relocated_from :: "'a elem_type \<Rightarrow> 'a list \<Rightarrow> 'a list" where
  "relocated_from T xs = (if relocates_by_move T then map (moved_from T) xs else xs)"

definition doubled :: "nat \<Rightarrow> nat" where
  "doubled n = max 1 (n * 2)"


text \<open>
  \<open>quiet T xs\<close>: no construction from one of the objects \<open>xs\<close>, by copy or by move,
  and no assignment from one of them throws.
\<close>

definition quiet :: "'a elem_type \<Rightarrow> 'a list \<Rightarrow> bool" where
  "quiet T xs =
     list_all (\<lambda>x. \<not> copy_ctor_throws T x \<and> \<not> move_throws T x \<and>
                    \<not> copy_assign_throws T x \<and> \<not> move_assign_throws T x) xs"

section \<open>Allocation\<close>

text \<open>
  C2, as the code has it. \<^verbatim>\<open>RawMemory(capacity)\<close> gives the empty block for
  capacity 0. For another capacity it asks \<^verbatim>\<open>operator new\<close> for
  \<open>capacity * sizeof(T)\<close> bytes computed in \<^verbatim>\<open>size_t\<close>, that is modulo
  \<open>2^64\<close>: when the product does not wrap and the request is satisfied, the block has
  exactly \<open>capacity\<close> slots of raw memory; it throws, always \<^verbatim>\<open>std::bad_alloc\<close>
  and with nothing changed, exactly when \<^verbatim>\<open>operator new\<close> refuses the wrapped byte
  count; and its behaviour is never undefined. A product that wraps is not detected.
\<close>

theorem RawMemory_allocation:
  "(capacity = 0 \<longrightarrow>
      RawMemory_ctor T operator_new capacity lg = Done (RawMemory_default, lg)) \<and>
   (capacity \<noteq> 0 \<and> 0 < sizeof_T T \<and> capacity * sizeof_T T < size_t_range \<and>
      operator_new (capacity * sizeof_T T) \<longrightarrow>
      RawMemory_ctor T operator_new capacity lg =
        Done (\<lparr>buffer_m = Ptr (length lg), capacity_m = capacity,
               cells = replicate capacity None\<rparr>, lg @ [New (capacity * sizeof_T T)])) \<and>
   (capacity \<noteq> 0 \<and> \<not> operator_new ((capacity * sizeof_T T) mod size_t_range) \<longrightarrow>
      RawMemory_ctor T operator_new capacity lg = Raised bad_alloc lg) \<and>
   ((\<exists>e s. RawMemory_ctor T operator_new capacity lg = Raised e s) \<longleftrightarrow>
      (capacity \<noteq> 0 \<and> \<not> operator_new ((capacity * sizeof_T T) mod size_t_range))) \<and>
   RawMemory_ctor T operator_new capacity lg \<noteq> Undefined"
  by (auto simp: RawMemory_ctor_def Allocate_def RawMemory_default_def Let_def)

theorem RawMemory_allocation_witness:
  "RawMemory_ctor int_type (\<lambda>b. b \<le> 100) 3 [] =
     Done (\<lparr>buffer_m = Ptr 0, capacity_m = 3, cells = replicate 3 None\<rparr>, [New 12]) \<and>
   RawMemory_ctor int_type (\<lambda>b. b \<le> 100) 30 [] = Raised bad_alloc [] \<and>
   RawMemory_ctor int_type (\<lambda>b. b \<le> 100) 0 [] = Done (RawMemory_default, [])"
  using RawMemory_allocation [of 3 int_type "\<lambda>b. b \<le> 100" "[]"]
    RawMemory_allocation [of 30 int_type "\<lambda>b. b \<le> 100" "[]"]
    RawMemory_allocation [of 0 int_type "\<lambda>b. b \<le> 100" "[]"]
  by (simp add: int_type_def size_t_range_def)

text \<open>
  C2 as stated fails: for \<^verbatim>\<open>int\<close> (4 bytes) and capacity \<open>2^62\<close> the byte size
  is \<open>2^64\<close>, which wraps to 0; \<^verbatim>\<open>operator new(0)\<close> succeeds, so the constructor
  returns, with \<open>capacity_m = 2^62\<close> and a block of no slot at all.
\<close>

theorem RawMemory_overflow_undetected:
  "size_t_range \<le> 2 ^ 62 * sizeof_T int_type \<and>
   RawMemory_ctor int_type (\<lambda>b. True) (2 ^ 62) [] =
     Done (\<lparr>buffer_m = Ptr 0, capacity_m = 2 ^ 62, cells = []\<rparr>, [New 0])"
  by (simp add: RawMemory_ctor_def Allocate_def int_type_def size_t_range_def)

section \<open>The standard algorithms on ranges of live objects\<close>

lemma destroy_n_live:
  "destroy_n (pre @ map Some xs @ post) (length pre) (length xs) lg =
     Done (pre @ replicate (length xs) None @ post, lg @ map Destroyed xs)"
proof (induction xs arbitrary: pre lg)
  case Nil
  then show ?case by simp
next
  case (Cons x xs)
  have "destroy_n ((pre @ [None]) @ map Some xs @ post) (length (pre @ [None])) (length xs)
          (lg @ [Destroyed x]) =
        Done ((pre @ [None]) @ replicate (length xs) None @ post,
              (lg @ [Destroyed x]) @ map Destroyed xs)"
    by (rule Cons.IH)
  then show ?case by (simp add: nth_append list_update_append)
qed

lemma uninit_copy_loop_Done:
  "list_all (\<lambda>x. \<not> copy_ctor_throws T x) xs \<Longrightarrow> length ys = length xs \<Longrightarrow>
   uninit_copy_loop T (sp @ map Some xs @ sq) (length sp) (length xs) (dp @ ys @ dq) d0
       (length dp) lg =
     Done (dp @ map Some xs @ dq, lg @ map Copy_constructed xs)"
proof (induction xs arbitrary: sp ys dp lg)
  case Nil
  then show ?case by simp
next
  case (Cons x xs)
  then obtain y ys' where ys: "ys = y # ys'" "length ys' = length xs"
    by (cases ys) auto
  from Cons.prems have ok: "list_all (\<lambda>x. \<not> copy_ctor_throws T x) xs" "\<not> copy_ctor_throws T x"
    by auto
  have "uninit_copy_loop T ((sp @ [Some x]) @ map Some xs @ sq) (length (sp @ [Some x]))
          (length xs) ((dp @ [Some x]) @ ys' @ dq) d0 (length (dp @ [Some x]))
          (lg @ [Copy_constructed x]) =
        Done ((dp @ [Some x]) @ map Some xs @ dq,
              (lg @ [Copy_constructed x]) @ map Copy_constructed xs)"
    by (rule Cons.IH [OF ok(1) ys(2)])
  then show ?case using ok(2) ys by (simp add: nth_append list_update_append)
qed

lemma uninit_move_loop_Done:
  "list_all (\<lambda>x. \<not> move_throws T x) xs \<Longrightarrow> length ys = length xs \<Longrightarrow>
   uninit_move_loop T (sp @ map Some xs @ sq) (length sp) (length xs) (dp @ ys @ dq) d0
       (length dp) lg =
     Done (sp @ map (\<lambda>x. Some (moved_from T x)) xs @ sq, dp @ map Some xs @ dq,
           lg @ map Move_constructed xs)"
proof (induction xs arbitrary: sp ys dp lg)
  case Nil
  then show ?case by simp
next
  case (Cons x xs)
  then obtain y ys' where ys: "ys = y # ys'" "length ys' = length xs"
    by (cases ys) auto
  from Cons.prems have ok: "list_all (\<lambda>x. \<not> move_throws T x) xs" "\<not> move_throws T x"
    by auto
  have "uninit_move_loop T ((sp @ [Some (moved_from T x)]) @ map Some xs @ sq)
          (length (sp @ [Some (moved_from T x)]))
          (length xs) ((dp @ [Some x]) @ ys' @ dq) d0 (length (dp @ [Some x]))
          (lg @ [Move_constructed x]) =
        Done ((sp @ [Some (moved_from T x)]) @ map (\<lambda>x. Some (moved_from T x)) xs @ sq,
              (dp @ [Some x]) @ map Some xs @ dq,
              (lg @ [Move_constructed x]) @ map Move_constructed xs)"
    by (rule Cons.IH [OF ok(1) ys(2)])
  then show ?case using ok(2) ys by (simp add: nth_append list_update_append)
qed

lemma copy_assign_loop_Done:
  "list_all (\<lambda>x. \<not> copy_assign_throws T x) xs \<Longrightarrow> length ys = length xs \<Longrightarrow>
   length sp = length dp \<Longrightarrow>
   copy_assign_loop T (sp @ map Some xs @ sq) (dp @ map Some ys @ dq) (length dp) (length xs) lg =
     Done (dp @ map Some xs @ dq, lg @ map Copy_assigned xs)"
proof (induction xs arbitrary: sp ys dp lg)
  case Nil
  then show ?case by simp
next
  case (Cons x xs)
  then obtain y ys' where ys: "ys = y # ys'" "length ys' = length xs"
    by (cases ys) auto
  from Cons.prems have ok: "list_all (\<lambda>x. \<not> copy_assign_throws T x) xs"
      "\<not> copy_assign_throws T x" "length (sp @ [Some x]) = length (dp @ [Some x])"
    by auto
  have "copy_assign_loop T ((sp @ [Some x]) @ map Some xs @ sq)
          ((dp @ [Some x]) @ map Some ys' @ dq) (length (dp @ [Some x])) (length xs)
          (lg @ [Copy_assigned x]) =
        Done ((dp @ [Some x]) @ map Some xs @ dq,
              (lg @ [Copy_assigned x]) @ map Copy_assigned xs)"
    by (rule Cons.IH [OF ok(1) ys(2) ok(3)])
  then show ?case using ok(2) ys Cons.prems(3) by (simp add: nth_append list_update_append)
qed

lemma uninit_copy_loop_Raised:
  "list_all (\<lambda>x. \<not> copy_ctor_throws T x) xs1 \<Longrightarrow> copy_ctor_throws T x \<Longrightarrow>
   length ys = length xs1 \<Longrightarrow> rest \<noteq> [] \<Longrightarrow>
   uninit_copy_loop T (sp @ map Some (xs1 @ x # xs2) @ sq) (length sp) (length xs1 + Suc m)
       (dp @ map Some zs @ ys @ rest) (length dp) (length dp + length zs) lg =
     Raised element_exception
       (dp @ replicate (length zs + length xs1) None @ rest,
        lg @ map Copy_constructed xs1 @ map Destroyed (zs @ xs1))"
proof (induction xs1 arbitrary: sp zs ys lg)
  case Nil
  have d: "destroy_n (dp @ map Some zs @ rest) (length dp) (length zs) lg =
      Done (dp @ replicate (length zs) None @ rest, lg @ map Destroyed zs)"
    by (rule destroy_n_live)
  from Nil d show ?case
    by (cases rest) (simp_all add: nth_append)
next
  case (Cons a xs1)
  then obtain y ys' where ys: "ys = y # ys'" "length ys' = length xs1"
    by (cases ys) auto
  from Cons.prems have ok: "list_all (\<lambda>x. \<not> copy_ctor_throws T x) xs1" "\<not> copy_ctor_throws T a"
    by auto
  have "uninit_copy_loop T ((sp @ [Some a]) @ map Some (xs1 @ x # xs2) @ sq)
          (length (sp @ [Some a])) (length xs1 + Suc m)
          (dp @ map Some (zs @ [a]) @ ys' @ rest) (length dp) (length dp + length (zs @ [a]))
          (lg @ [Copy_constructed a]) =
        Raised element_exception
          (dp @ replicate (length (zs @ [a]) + length xs1) None @ rest,
           (lg @ [Copy_constructed a]) @ map Copy_constructed xs1 @
             map Destroyed ((zs @ [a]) @ xs1))"
    by (rule Cons.IH [OF ok(1) Cons.prems(2) ys(2) Cons.prems(4)])
  then show ?case using ok(2) ys
    by (simp add: nth_append list_update_append replicate_append_same)
qed

lemma uninit_move_loop_Raised:
  "list_all (\<lambda>x. \<not> move_throws T x) xs1 \<Longrightarrow> move_throws T x \<Longrightarrow>
   length ys = length xs1 \<Longrightarrow> rest \<noteq> [] \<Longrightarrow>
   uninit_move_loop T (sp @ map Some (xs1 @ x # xs2) @ sq) (length sp) (length xs1 + Suc m)
       (dp @ map Some zs @ ys @ rest) (length dp) (length dp + length zs) lg =
     Raised element_exception
       (sp @ map (\<lambda>x. Some (moved_from T x)) xs1 @ map Some (x # xs2) @ sq,
        dp @ replicate (length zs + length xs1) None @ rest,
        lg @ map Move_constructed xs1 @ map Destroyed (zs @ xs1))"
proof (induction xs1 arbitrary: sp zs ys lg)
  case Nil
  have d: "destroy_n (dp @ map Some zs @ rest) (length dp) (length zs) lg =
      Done (dp @ replicate (length zs) None @ rest, lg @ map Destroyed zs)"
    by (rule destroy_n_live)
  from Nil d show ?case
    by (cases rest) (simp_all add: nth_append)
next
  case (Cons a xs1)
  then obtain y ys' where ys: "ys = y # ys'" "length ys' = length xs1"
    by (cases ys) auto
  from Cons.prems have ok: "list_all (\<lambda>x. \<not> move_throws T x) xs1" "\<not> move_throws T a"
    by auto
  have "uninit_move_loop T ((sp @ [Some (moved_from T a)]) @ map Some (xs1 @ x # xs2) @ sq)
          (length (sp @ [Some (moved_from T a)])) (length xs1 + Suc m)
          (dp @ map Some (zs @ [a]) @ ys' @ rest) (length dp) (length dp + length (zs @ [a]))
          (lg @ [Move_constructed a]) =
        Raised element_exception
          ((sp @ [Some (moved_from T a)]) @ map (\<lambda>x. Some (moved_from T x)) xs1 @
             map Some (x # xs2) @ sq,
           dp @ replicate (length (zs @ [a]) + length xs1) None @ rest,
           (lg @ [Move_constructed a]) @ map Move_constructed xs1 @
             map Destroyed ((zs @ [a]) @ xs1))"
    by (rule Cons.IH [OF ok(1) Cons.prems(2) ys(2) Cons.prems(4)])
  then show ?case using ok(2) ys
    by (simp add: nth_append list_update_append replicate_append_same)
qed

lemma move_backward_loop_Done:
  "list_all (\<lambda>x. \<not> move_assign_throws T x) xs \<Longrightarrow>
   move_backward_loop T (pre @ map Some xs @ Some y # post) (length pre) (length xs)
       (Suc (length pre + length xs)) lg =
     Done ((if xs = [] then pre @ [Some y]
            else pre @ Some (moved_from T (hd xs)) # map Some xs) @ post,
           lg @ map Move_assigned (rev xs))"
proof (induction xs arbitrary: y post lg rule: rev_induct)
  case Nil
  then show ?case by simp
next
  case (snoc x xs)
  from snoc.prems have ok: "list_all (\<lambda>x. \<not> move_assign_throws T x) xs"
      "\<not> move_assign_throws T x"
    by auto
  have ih: "move_backward_loop T (pre @ map Some xs @ Some (moved_from T x) # Some x # post)
          (length pre) (length xs) (Suc (length pre + length xs)) (lg @ [Move_assigned x]) =
        Done ((if xs = [] then pre @ [Some (moved_from T x)]
               else pre @ Some (moved_from T (hd xs)) # map Some xs) @ Some x # post,
              (lg @ [Move_assigned x]) @ map Move_assigned (rev xs))"
    by (rule snoc.IH [OF ok(1)])
  have upd: "(pre @ map Some xs @ Some x # Some y # post)
       [length pre + length xs := Some (moved_from T x), Suc (length pre + length xs) := Some x] =
     pre @ map Some xs @ Some (moved_from T x) # Some x # post"
    by (simp add: list_update_append)
  show ?case using ok(2) ih upd
    by (cases xs) (simp_all add: nth_append)
qed

lemma move_loop_Done:
  "list_all (\<lambda>x. \<not> move_assign_throws T x) xs \<Longrightarrow>
   move_loop T (pre @ Some y # map Some xs @ post) (Suc (length pre)) (length xs)
       (length pre) lg =
     Done (pre @ (if xs = [] then [Some y]
                  else map Some xs @ [Some (moved_from T (last xs))]) @ post,
           lg @ map Move_assigned xs)"
proof (induction xs arbitrary: pre y lg)
  case Nil
  then show ?case by simp
next
  case (Cons x xs)
  from Cons.prems have ok: "list_all (\<lambda>x. \<not> move_assign_throws T x) xs"
      "\<not> move_assign_throws T x"
    by auto
  have ih: "move_loop T ((pre @ [Some x]) @ Some (moved_from T x) # map Some xs @ post)
          (Suc (length (pre @ [Some x]))) (length xs) (length (pre @ [Some x]))
          (lg @ [Move_assigned x]) =
        Done ((pre @ [Some x]) @ (if xs = [] then [Some (moved_from T x)]
                  else map Some xs @ [Some (moved_from T (last xs))]) @ post,
              (lg @ [Move_assigned x]) @ map Move_assigned xs)"
    by (rule Cons.IH [OF ok(1)])
  have upd: "(pre @ Some y # Some x # map Some xs @ post)
       [Suc (length pre) := Some (moved_from T x), length pre := Some x] =
     pre @ Some x # Some (moved_from T x) # map Some xs @ post"
    by (simp add: list_update_append)
  show ?case using ok(2) ih upd
    by (simp add: nth_append)
qed

lemma uninit_value_loop_Done:
  "(\<forall>k < length ys. \<not> value_ctor_throws T (j + k)) \<Longrightarrow> d0 + j = length dp \<Longrightarrow>
   uninit_value_loop T (length ys) (dp @ ys @ dq) d0 (length dp) lg =
     Done (dp @ replicate (length ys) (Some (value_init T)) @ dq,
           lg @ replicate (length ys) (Value_constructed (value_init T)))"
proof (induction ys arbitrary: dp j lg)
  case Nil
  then show ?case by simp
next
  case (Cons y ys)
  have a: "\<forall>k < length ys. \<not> value_ctor_throws T (Suc j + k)"
    using Cons.prems(1) by auto
  have b: "d0 + Suc j = length (dp @ [Some (value_init T)])"
    using Cons.prems(2) by simp
  have "length dp - d0 = j"
    using Cons.prems(2) by arith
  then have c: "\<not> value_ctor_throws T (length dp - d0)"
    using Cons.prems(1) [rule_format, of 0] by simp
  have "uninit_value_loop T (length ys) ((dp @ [Some (value_init T)]) @ ys @ dq) d0
          (length (dp @ [Some (value_init T)])) (lg @ [Value_constructed (value_init T)]) =
        Done ((dp @ [Some (value_init T)]) @ replicate (length ys) (Some (value_init T)) @ dq,
              (lg @ [Value_constructed (value_init T)]) @
                replicate (length ys) (Value_constructed (value_init T)))"
    by (rule Cons.IH [OF a b])
  then show ?case using c
    by (simp add: nth_append list_update_append replicate_append_same)
qed

section \<open>Reserve\<close>

lemma holds_invariant: "holds v xs \<Longrightarrow> invariant v"
  by (simp add: invariant_def contents_def elements_def holds_def comp_def)

lemma holds_contents: "holds v xs \<Longrightarrow> contents v = xs"
  by (simp add: contents_def elements_def holds_def comp_def)

lemma RawMemory_ctor_fits:
  "fits T n \<Longrightarrow> n \<noteq> 0 \<Longrightarrow> operator_new (n * sizeof_T T) \<Longrightarrow>
   RawMemory_ctor T operator_new n lg =
     Done (\<lparr>buffer_m = Ptr (length lg), capacity_m = n, cells = replicate n None\<rparr>,
           lg @ [New (n * sizeof_T T)])"
  by (simp add: RawMemory_ctor_def Allocate_def fits_def Let_def)

lemma replicate_split: "k \<le> n \<Longrightarrow> replicate n x = replicate k x @ replicate (n - k) x"
  by (simp add: replicate_add [symmetric])

lemma Reserve_noop: "n \<le> Capacity v \<Longrightarrow> Reserve T operator_new v n lg = Done (v, lg)"
  by (simp add: Reserve_def Capacity_def)

lemma FillNewData_all_move:
  assumes "relocates_by_move T" "list_all (\<lambda>x. \<not> move_throws T x) xs"
    "cells (data_m v) = map Some xs @ sq" "cells nd = ys @ dq" "length ys = length xs"
  shows "FillNewData T v nd 0 0 (length xs) lg =
     Done (set_cells v (map (\<lambda>x. Some (moved_from T x)) xs @ sq),
           nd\<lparr>cells := map Some xs @ dq\<rparr>, lg @ map Move_constructed xs)"
  using assms uninit_move_loop_Done [of T xs ys "[]" sq "[]" dq 0 lg]
  by (simp add: FillNewData_def relocates_by_move_def uninitialized_move_n_def)

lemma FillNewData_all_copy:
  assumes "\<not> relocates_by_move T" "list_all (\<lambda>x. \<not> copy_ctor_throws T x) xs"
    "cells (data_m v) = map Some xs @ sq" "cells nd = ys @ dq" "length ys = length xs"
  shows "FillNewData T v nd 0 0 (length xs) lg =
     Done (v, nd\<lparr>cells := map Some xs @ dq\<rparr>, lg @ map Copy_constructed xs)"
  using assms uninit_copy_loop_Done [of T xs ys "[]" sq "[]" dq 0 lg]
  by (simp add: FillNewData_def relocates_by_move_def uninitialized_copy_n_def)

lemma Reserve_move:
  assumes "holds v xs" "Capacity v < n" "fits T n" "operator_new (n * sizeof_T T)"
    "relocates_by_move T" "list_all (\<lambda>x. \<not> move_throws T x) xs"
  shows "Reserve T operator_new v n lg =
     Done (\<lparr>data_m = \<lparr>buffer_m = Ptr (length lg), capacity_m = n,
                       cells = map Some xs @ replicate (n - length xs) None\<rparr>,
            size_m = length xs\<rparr>,
           Deallocate (buffer_m (data_m v))
             (lg @ [New (n * sizeof_T T)] @ map Move_constructed xs @
              map Destroyed (map (moved_from T) xs)))"
proof -
  from assms(1,2) have n: "n \<noteq> 0" "length xs \<le> n" "size_m v = length xs"
    and c: "cells (data_m v) = map Some xs @ replicate (capacity_m (data_m v) - length xs) None"
    by (auto simp: holds_def Capacity_def)
  have r: "RawMemory_ctor T operator_new n lg =
     Done (\<lparr>buffer_m = Ptr (length lg), capacity_m = n, cells = replicate n None\<rparr>,
           lg @ [New (n * sizeof_T T)])"
    using assms(3) n(1) assms(4) by (rule RawMemory_ctor_fits)
  have sp: "replicate n None = replicate (length xs) (None :: 'a option) @ replicate (n - length xs) None"
    using n(2) by (rule replicate_split)
  have f: "FillNewData T v \<lparr>buffer_m = Ptr (length lg), capacity_m = n, cells = replicate n None\<rparr>
        0 0 (length xs) (lg @ [New (n * sizeof_T T)]) =
     Done (set_cells v (map (\<lambda>x. Some (moved_from T x)) xs @
              replicate (capacity_m (data_m v) - length xs) None),
           \<lparr>buffer_m = Ptr (length lg), capacity_m = n, cells = replicate n None\<rparr>
             \<lparr>cells := map Some xs @ replicate (n - length xs) None\<rparr>,
           (lg @ [New (n * sizeof_T T)]) @ map Move_constructed xs)"
    by (rule FillNewData_all_move [OF assms(5,6) c, where ys = "replicate (length xs) None"])
       (simp_all add: sp [symmetric])
  have d: "destroy_n (map (\<lambda>x. Some (moved_from T x)) xs @
              replicate (capacity_m (data_m v) - length xs) None) 0 (length xs) lg' =
     Done (replicate (length xs) None @ replicate (capacity_m (data_m v) - length xs) None,
           lg' @ map Destroyed (map (moved_from T) xs))" for lg'
    using destroy_n_live [of "[]" "map (moved_from T) xs" _ lg'] by (simp add: comp_def)
  show ?thesis
    using n(3) assms(2) by (simp add: Reserve_def r f d Capacity_def
        set_cells_def RawMemory_Swap_def RawMemory_dtor_def Deallocate_def split: ptr.split)
qed


lemma Reserve_copy:
  assumes "holds v xs" "Capacity v < n" "fits T n" "operator_new (n * sizeof_T T)"
    "\<not> relocates_by_move T" "list_all (\<lambda>x. \<not> copy_ctor_throws T x) xs"
  shows "Reserve T operator_new v n lg =
     Done (\<lparr>data_m = \<lparr>buffer_m = Ptr (length lg), capacity_m = n,
                       cells = map Some xs @ replicate (n - length xs) None\<rparr>,
            size_m = length xs\<rparr>,
           Deallocate (buffer_m (data_m v))
             (lg @ [New (n * sizeof_T T)] @ map Copy_constructed xs @ map Destroyed xs))"
proof -
  from assms(1,2) have n: "n \<noteq> 0" "length xs \<le> n" "size_m v = length xs"
    and c: "cells (data_m v) = map Some xs @ replicate (capacity_m (data_m v) - length xs) None"
    by (auto simp: holds_def Capacity_def)
  have r: "RawMemory_ctor T operator_new n lg =
     Done (\<lparr>buffer_m = Ptr (length lg), capacity_m = n, cells = replicate n None\<rparr>,
           lg @ [New (n * sizeof_T T)])"
    using assms(3) n(1) assms(4) by (rule RawMemory_ctor_fits)
  have sp: "replicate n None = replicate (length xs) (None :: 'a option) @ replicate (n - length xs) None"
    using n(2) by (rule replicate_split)
  have f: "FillNewData T v \<lparr>buffer_m = Ptr (length lg), capacity_m = n, cells = replicate n None\<rparr>
        0 0 (length xs) (lg @ [New (n * sizeof_T T)]) =
     Done (v, \<lparr>buffer_m = Ptr (length lg), capacity_m = n, cells = replicate n None\<rparr>
             \<lparr>cells := map Some xs @ replicate (n - length xs) None\<rparr>,
           (lg @ [New (n * sizeof_T T)]) @ map Copy_constructed xs)"
    by (rule FillNewData_all_copy [OF assms(5,6) c, where ys = "replicate (length xs) None"])
       (simp_all add: sp [symmetric])
  have d: "destroy_n (cells (data_m v)) 0 (length xs) lg' =
     Done (replicate (length xs) None @ replicate (capacity_m (data_m v) - length xs) None,
           lg' @ map Destroyed xs)" for lg'
    using destroy_n_live [of "[]" xs _ lg'] by (simp add: c)
  show ?thesis
    using n(3) assms(2) by (simp add: Reserve_def r f d Capacity_def
        set_cells_def RawMemory_Swap_def RawMemory_dtor_def Deallocate_def split: ptr.split)
qed

lemma Reserve_copy_raises:
  assumes "holds v xs" "Capacity v < n" "fits T n" "operator_new (n * sizeof_T T)"
    "\<not> relocates_by_move T" "xs = xs1 @ x # xs2"
    "list_all (\<lambda>x. \<not> copy_ctor_throws T x) xs1" "copy_ctor_throws T x"
  shows "Reserve T operator_new v n lg =
     Raised element_exception
       (v, lg @ [New (n * sizeof_T T)] @ map Copy_constructed xs1 @ map Destroyed xs1 @
           [Delete (length lg)])"
proof -
  from assms(1,2) have n: "n \<noteq> 0" "length xs < n" "size_m v = length xs"
    and c: "cells (data_m v) = map Some xs @ replicate (capacity_m (data_m v) - length xs) None"
    by (auto simp: holds_def Capacity_def)
  have r: "RawMemory_ctor T operator_new n lg =
     Done (\<lparr>buffer_m = Ptr (length lg), capacity_m = n, cells = replicate n None\<rparr>,
           lg @ [New (n * sizeof_T T)])"
    using assms(3) n(1) assms(4) by (rule RawMemory_ctor_fits)
  have l: "length xs1 < n" "length xs = length xs1 + Suc (length xs2)"
    using n(2) assms(6) by auto
  have sp: "replicate n None =
      replicate (length xs1) (None :: 'a option) @ replicate (n - length xs1) None"
    using l(1) by (simp add: replicate_split)
  have u: "uninit_copy_loop T ([] @ map Some (xs1 @ x # xs2) @
            replicate (capacity_m (data_m v) - length xs) None) (length ([] :: 'a option list))
          (length xs1 + Suc (length xs2))
          ([] @ map Some [] @ replicate (length xs1) None @ replicate (n - length xs1) None)
          (length ([] :: 'a option list)) (length ([] :: 'a option list) + length ([] :: 'a list))
          (lg @ [New (n * sizeof_T T)]) =
        Raised element_exception
          ([] @ replicate (length ([] :: 'a list) + length xs1) None @ replicate (n - length xs1) None,
           (lg @ [New (n * sizeof_T T)]) @ map Copy_constructed xs1 @ map Destroyed ([] @ xs1))"
    by (rule uninit_copy_loop_Raised [OF assms(7,8)]) (use l(1) in simp_all)
  have f: "FillNewData T v \<lparr>buffer_m = Ptr (length lg), capacity_m = n, cells = replicate n None\<rparr>
        0 0 (length xs) (lg @ [New (n * sizeof_T T)]) =
     Raised element_exception
       (v, \<lparr>buffer_m = Ptr (length lg), capacity_m = n, cells = replicate n None\<rparr>,
        lg @ [New (n * sizeof_T T)] @ map Copy_constructed xs1 @ map Destroyed xs1)"
    using u assms(5) l(2)
    by (simp add: FillNewData_def relocates_by_move_def uninitialized_copy_n_def c assms(6)
        sp [symmetric])
  show ?thesis
    using n(3) assms(2)
    by (simp add: Reserve_def r f Capacity_def RawMemory_dtor_def Deallocate_def)
qed

lemma Reserve_bad_alloc:
  assumes "Capacity v < n" "\<not> operator_new ((n * sizeof_T T) mod size_t_range)"
  shows "Reserve T operator_new v n lg = Raised bad_alloc (v, lg)"
  using assms by (auto simp: Reserve_def Capacity_def RawMemory_ctor_def Allocate_def Let_def)

text \<open>
  C7, as the code has it. For a vector in a valid state with elements \<open>xs\<close>:
  \<^verbatim>\<open>Reserve(n)\<close> with \<open>n\<close> at most the capacity returns with the vector and the log
  unchanged. With \<open>n\<close> above the capacity, a byte size \<open>n * sizeof(T)\<close> that fits
  \<^verbatim>\<open>size_t\<close> and an allocator that satisfies the request: when no relocation throws it
  returns with a block of exactly \<open>n\<close> slots, capacity \<open>n\<close>, and the same elements in
  the same order; when elements are copied and the copy of \<open>x\<close> throws after the copies
  of \<open>xs1\<close>, the exception leaves the function, the vector is the one it was, and the log
  shows the copies of \<open>xs1\<close> destroyed and the new block deleted. When the allocator
  refuses, \<^verbatim>\<open>std::bad_alloc\<close> leaves the function with the vector and the log
  unchanged.
\<close>

theorem Reserve_strong_guarantee:
  assumes "holds v xs"
  shows "(n \<le> Capacity v \<longrightarrow> Reserve T operator_new v n lg = Done (v, lg)) \<and>
    (Capacity v < n \<and> fits T n \<and> operator_new (n * sizeof_T T) \<and>
     (if relocates_by_move T then list_all (\<lambda>x. \<not> move_throws T x) xs
      else list_all (\<lambda>x. \<not> copy_ctor_throws T x) xs) \<longrightarrow>
       (\<exists>v' lg'. Reserve T operator_new v n lg = Done (v', lg') \<and> holds v' xs \<and>
          Capacity v' = n \<and> length (cells (data_m v')) = n \<and>
          buffer_m (data_m v') = Ptr (length lg))) \<and>
    (Capacity v < n \<and> fits T n \<and> operator_new (n * sizeof_T T) \<and> \<not> relocates_by_move T \<and>
     xs = xs1 @ x # xs2 \<and> list_all (\<lambda>x. \<not> copy_ctor_throws T x) xs1 \<and> copy_ctor_throws T x \<longrightarrow>
       Reserve T operator_new v n lg =
         Raised element_exception
           (v, lg @ [New (n * sizeof_T T)] @ map Copy_constructed xs1 @ map Destroyed xs1 @
               [Delete (length lg)])) \<and>
    (Capacity v < n \<and> \<not> operator_new ((n * sizeof_T T) mod size_t_range) \<longrightarrow>
       Reserve T operator_new v n lg = Raised bad_alloc (v, lg))"
proof (intro conjI impI)
  assume "n \<le> Capacity v"
  then show "Reserve T operator_new v n lg = Done (v, lg)" by (rule Reserve_noop)
next
  assume a: "Capacity v < n \<and> fits T n \<and> operator_new (n * sizeof_T T) \<and>
     (if relocates_by_move T then list_all (\<lambda>x. \<not> move_throws T x) xs
      else list_all (\<lambda>x. \<not> copy_ctor_throws T x) xs)"
  from assms a have le: "length xs \<le> n" "0 < n" by (simp_all add: holds_def Capacity_def)
  show "\<exists>v' lg'. Reserve T operator_new v n lg = Done (v', lg') \<and> holds v' xs \<and>
          Capacity v' = n \<and> length (cells (data_m v')) = n \<and>
          buffer_m (data_m v') = Ptr (length lg)"
  proof (cases "relocates_by_move T")
    case True
    with a assms have "Reserve T operator_new v n lg =
     Done (\<lparr>data_m = \<lparr>buffer_m = Ptr (length lg), capacity_m = n,
                       cells = map Some xs @ replicate (n - length xs) None\<rparr>,
            size_m = length xs\<rparr>,
           Deallocate (buffer_m (data_m v))
             (lg @ [New (n * sizeof_T T)] @ map Move_constructed xs @
              map Destroyed (map (moved_from T) xs)))"
      by (intro Reserve_move) simp_all
    then show ?thesis using le by (simp add: holds_def Capacity_def)
  next
    case False
    with a assms have "Reserve T operator_new v n lg =
     Done (\<lparr>data_m = \<lparr>buffer_m = Ptr (length lg), capacity_m = n,
                       cells = map Some xs @ replicate (n - length xs) None\<rparr>,
            size_m = length xs\<rparr>,
           Deallocate (buffer_m (data_m v))
             (lg @ [New (n * sizeof_T T)] @ map Copy_constructed xs @ map Destroyed xs))"
      by (intro Reserve_copy) simp_all
    then show ?thesis using le by (simp add: holds_def Capacity_def)
  qed
next
  assume h: "Capacity v < n \<and> fits T n \<and> operator_new (n * sizeof_T T) \<and> \<not> relocates_by_move T \<and>
     xs = xs1 @ x # xs2 \<and> list_all (\<lambda>x. \<not> copy_ctor_throws T x) xs1 \<and> copy_ctor_throws T x"
  show "Reserve T operator_new v n lg =
         Raised element_exception
           (v, lg @ [New (n * sizeof_T T)] @ map Copy_constructed xs1 @ map Destroyed xs1 @
               [Delete (length lg)])"
    by (rule Reserve_copy_raises [OF assms]) (use h in auto)
next
  assume "Capacity v < n \<and> \<not> operator_new ((n * sizeof_T T) mod size_t_range)"
  then show "Reserve T operator_new v n lg = Raised bad_alloc (v, lg)"
    by (intro Reserve_bad_alloc) simp_all
qed

theorem Reserve_strong_guarantee_witness:
  "Reserve obj_type (\<lambda>b. True)
       \<lparr>data_m = \<lparr>buffer_m = Ptr 0, capacity_m = 2,
                  cells = [Some (1, False), Some (2, True)]\<rparr>, size_m = 2\<rparr> 4 [New 16] =
     Raised element_exception
       (\<lparr>data_m = \<lparr>buffer_m = Ptr 0, capacity_m = 2,
                   cells = [Some (1, False), Some (2, True)]\<rparr>, size_m = 2\<rparr>,
        [New 16, New 32, Copy_constructed (1, False), Destroyed (1, False), Delete 1]) \<and>
   Reserve obj_type (\<lambda>b. True)
       \<lparr>data_m = \<lparr>buffer_m = Ptr 0, capacity_m = 2,
                  cells = [Some (1, False), Some (2, True)]\<rparr>, size_m = 2\<rparr> 2 [New 16] =
     Done (\<lparr>data_m = \<lparr>buffer_m = Ptr 0, capacity_m = 2,
                  cells = [Some (1, False), Some (2, True)]\<rparr>, size_m = 2\<rparr>, [New 16]) \<and>
   (\<exists>v' lg'. Reserve int_type (\<lambda>b. True)
       \<lparr>data_m = \<lparr>buffer_m = Ptr 0, capacity_m = 3,
                  cells = [Some 1, Some 2, Some 3]\<rparr>, size_m = 3\<rparr> 4 [New 12] = Done (v', lg') \<and>
      holds v' [1, 2, 3] \<and> Capacity v' = 4 \<and> length (cells (data_m v')) = 4 \<and>
      buffer_m (data_m v') = Ptr 1)"
  using Reserve_strong_guarantee [of
      "\<lparr>data_m = \<lparr>buffer_m = Ptr 0, capacity_m = 2,
                  cells = [Some (1, False), Some (2, True)]\<rparr>, size_m = 2\<rparr>"
      "[(1, False), (2, True)]" 4 obj_type "\<lambda>b. True" "[New 16]" "[(1, False)]" "(2, True)" "[]"]
    Reserve_strong_guarantee [of
      "\<lparr>data_m = \<lparr>buffer_m = Ptr 0, capacity_m = 2,
                  cells = [Some (1, False), Some (2, True)]\<rparr>, size_m = 2\<rparr>"
      "[(1, False), (2, True)]" 2 obj_type "\<lambda>b. True" "[New 16]" "[]" "(1, False)" "[(2, True)]"]
    Reserve_strong_guarantee [of
      "\<lparr>data_m = \<lparr>buffer_m = Ptr 0, capacity_m = 3,
                  cells = [Some 1, Some 2, Some 3]\<rparr>, size_m = 3\<rparr>"
      "[1, 2, 3]" 4 int_type "\<lambda>b. True" "[New 12]" "[]" 1 "[2, 3]"]
  by (simp add: holds_def Capacity_def fits_def relocates_by_move_def obj_type_def int_type_def
      size_t_range_def move_throws_def)

text \<open>
  C7 as stated fails where the byte size wraps: on an empty \<^verbatim>\<open>Vector<int>\<close>,
  \<^verbatim>\<open>Reserve\<close> of \<open>2^62\<close> returns with capacity \<open>2^62\<close> and a block of no slot.
\<close>

theorem Reserve_overflow_counterexample:
  "holds (Vector_default :: int Vector) [] \<and>
   Reserve int_type (\<lambda>b. True) Vector_default (2 ^ 62) [] =
     Done (\<lparr>data_m = \<lparr>buffer_m = Ptr 0, capacity_m = 2 ^ 62, cells = []\<rparr>, size_m = 0\<rparr>,
           [New 0])"
  by (simp add: holds_def Vector_default_def RawMemory_default_def Reserve_def RawMemory_ctor_def
      Allocate_def int_type_def size_t_range_def FillNewData_def uninitialized_move_n_def
      set_cells_def RawMemory_Swap_def RawMemory_dtor_def)

section \<open>Assignment to itself, and moves\<close>

text \<open>
  C10. Copy-assigning a vector to itself and move-assigning it to itself (the same address
  \<open>a\<close> for \<^verbatim>\<open>this\<close> and \<^verbatim>\<open>&rhs\<close>) return with every vector of the store,
  hence the size, the capacity and the elements of the vector at \<open>a\<close>, and the log
  unchanged: no allocation, no element operation.
\<close>

theorem self_assignment_noop:
  "Vector_copy_assign T operator_new st a a lg = Done (st, lg) \<and>
   Vector_move_assign st a a lg = (st, lg)"
  by (simp add: Vector_copy_assign_def Vector_move_assign_def)

lemma Vector_move_eq: "Vector_move other = (other, Vector_default)"
  by (simp add: Vector_move_def RawMemory_move_def Vector_default_def RawMemory_default_def)

lemma move_assign_body_eq:
  "move_assign_body v rhs lg = (rhs, Vector_default, Deallocate (buffer_m (data_m v)) lg)"
  by (simp add: move_assign_body_def RawMemory_move_assign_def RawMemory_Swap_def
      Vector_default_def RawMemory_default_def Let_def)

lemma holds_default: "holds Vector_default []"
  by (simp add: holds_def Vector_default_def RawMemory_default_def)

lemma Deallocate_no_element_event:
  "list_all (\<lambda>e. \<not> is_element_event e) (drop (length lg) (Deallocate p lg))"
  by (cases p) (simp_all add: Deallocate_def)

text \<open>
  C8. The move constructor gives the new vector the state of the source, block included,
  and leaves the source with size 0, capacity 0 and no block. The move assignment between
  two different vectors does the same for \<^verbatim>\<open>*this\<close>; all it adds to the log is the
  deallocation of the block \<^verbatim>\<open>*this\<close> owned before: no element is constructed,
  assigned or destroyed.
\<close>

theorem move_transfers_storage:
  "(holds other xs \<longrightarrow>
      (case Vector_move other of
         (v, other') \<Rightarrow> v = other \<and> holds v xs \<and> Size other' = 0 \<and> holds other' [])) \<and>
   (this \<noteq> rhs \<and> holds (st rhs) xs \<longrightarrow>
      (case Vector_move_assign st this rhs lg of
         (st', lg') \<Rightarrow>
           st' this = st rhs \<and> holds (st' this) xs \<and> Size (st' rhs) = 0 \<and>
           holds (st' rhs) [] \<and>
           lg' = Deallocate (buffer_m (data_m (st this))) lg \<and>
           list_all (\<lambda>e. \<not> is_element_event e) (drop (length lg) lg')))"
  using holds_default [where 'a = 'a]
  by (simp add: Vector_move_eq Vector_move_assign_def move_assign_body_eq
      Deallocate_no_element_event Size_def Vector_default_def)

theorem move_transfers_storage_witness:
  "(case Vector_move \<lparr>data_m = \<lparr>buffer_m = Ptr 0, capacity_m = 3,
                       cells = [Some 1, Some 2, None]\<rparr>, size_m = 2\<rparr> of
      (v, other') \<Rightarrow> holds v [1, 2 :: int] \<and> Size other' = 0 \<and> holds other' []) \<and>
   (case Vector_move_assign
           ((\<lambda>a. Vector_default)
              (0 := \<lparr>data_m = \<lparr>buffer_m = Ptr 2, capacity_m = 1, cells = [Some 7]\<rparr>,
                      size_m = 1\<rparr>,
               1 := \<lparr>data_m = \<lparr>buffer_m = Ptr 0, capacity_m = 3,
                       cells = [Some 1, Some 2, None]\<rparr>, size_m = 2\<rparr>))
           0 1 [] of
      (st', lg') \<Rightarrow> holds (st' 0) [1, 2 :: int] \<and> Size (st' 1) = 0 \<and> lg' = [Delete 2])"
  using move_transfers_storage [of
      "\<lparr>data_m = \<lparr>buffer_m = Ptr 0, capacity_m = 3,
                   cells = [Some 1, Some 2, None]\<rparr>, size_m = 2\<rparr>" "[1, 2 :: int]" 0 1
      "(\<lambda>a. Vector_default)
              (0 := \<lparr>data_m = \<lparr>buffer_m = Ptr 2, capacity_m = 1, cells = [Some 7]\<rparr>,
                      size_m = 1\<rparr>,
               1 := \<lparr>data_m = \<lparr>buffer_m = Ptr 0, capacity_m = 3,
                       cells = [Some 1, Some 2, None]\<rparr>, size_m = 2\<rparr>)" "[]"]
  by (simp add: holds_def Deallocate_def split: prod.splits)

section \<open>Copy construction and copy assignment\<close>

lemma RawMemory_ctor_ok:
  "fits T n \<Longrightarrow> n \<noteq> 0 \<longrightarrow> operator_new (n * sizeof_T T) \<Longrightarrow>
   RawMemory_ctor T operator_new n lg =
     Done (\<lparr>buffer_m = block_ptr lg n, capacity_m = n, cells = replicate n None\<rparr>,
           lg @ allocation T n)"
  by (simp add: RawMemory_ctor_def Allocate_def fits_def Let_def block_ptr_def allocation_def)


lemma Vector_dtor_holds:
  "holds v xs \<Longrightarrow>
   Vector_dtor v lg = Done (Deallocate (buffer_m (data_m v)) (lg @ map Destroyed xs))"
  using destroy_n_live [of "[]" xs "replicate (capacity_m (data_m v) - length xs) None" lg]
  by (auto simp: Vector_dtor_def holds_def RawMemory_dtor_def Deallocate_def)

lemma Vector_copy_Done:
  assumes "holds other ys" "fits T (length ys)" "ys \<noteq> [] \<longrightarrow> operator_new (length ys * sizeof_T T)"
    "list_all (\<lambda>x. \<not> copy_ctor_throws T x) ys"
  shows "Vector_copy T operator_new other lg =
     Done (\<lparr>data_m = \<lparr>buffer_m = block_ptr lg (length ys), capacity_m = length ys,
                       cells = map Some ys\<rparr>, size_m = length ys\<rparr>,
           lg @ allocation T (length ys) @ map Copy_constructed ys)"
proof -
  from assms(1) have s: "size_m other = length ys"
    and c: "cells (data_m other) =
        map Some ys @ replicate (capacity_m (data_m other) - length ys) None"
    by (auto simp: holds_def)
  have r: "RawMemory_ctor T operator_new (length ys) lg =
     Done (\<lparr>buffer_m = block_ptr lg (length ys), capacity_m = length ys,
            cells = replicate (length ys) None\<rparr>, lg @ allocation T (length ys))"
    using assms(2,3) by (intro RawMemory_ctor_ok) simp_all
  have u: "uninit_copy_loop T ([] @ map Some ys @
              replicate (capacity_m (data_m other) - length ys) None)
          (length ([] :: 'a option list)) (length ys) ([] @ replicate (length ys) None @ []) 0
          (length ([] :: 'a option list)) lg' =
        Done ([] @ map Some ys @ [], lg' @ map Copy_constructed ys)" for lg'
    by (rule uninit_copy_loop_Done [OF assms(4)]) simp
  show ?thesis
    using u by (simp add: Vector_copy_def r s c uninitialized_copy_n_def)
qed

lemma Vector_copy_holds:
  "holds \<lparr>data_m = \<lparr>buffer_m = block_ptr lg (length ys), capacity_m = length ys,
                       cells = map Some ys\<rparr>, size_m = length ys\<rparr> ys"
  by (simp add: holds_def block_ptr_def)

lemma copy_assign_body_swap:
  assumes "holds v xs" "holds rhs ys" "Capacity v < length ys" "fits T (length ys)"
    "operator_new (length ys * sizeof_T T)" "list_all (\<lambda>x. \<not> copy_ctor_throws T x) ys"
  shows "copy_assign_body T operator_new v rhs lg =
     Done (\<lparr>data_m = \<lparr>buffer_m = block_ptr lg (length ys), capacity_m = length ys,
                       cells = map Some ys\<rparr>, size_m = length ys\<rparr>,
           Deallocate (buffer_m (data_m v))
             (lg @ allocation T (length ys) @ map Copy_constructed ys @ map Destroyed xs))"
proof -
  have s: "size_m rhs = length ys" using assms(2) by (simp add: holds_def)
  have k: "Vector_copy T operator_new rhs lg =
     Done (\<lparr>data_m = \<lparr>buffer_m = block_ptr lg (length ys), capacity_m = length ys,
                       cells = map Some ys\<rparr>, size_m = length ys\<rparr>,
           lg @ allocation T (length ys) @ map Copy_constructed ys)"
    using assms(2,4,5,6) by (intro Vector_copy_Done) simp_all
  have d: "Vector_dtor \<lparr>data_m = data_m v, size_m = size_m v\<rparr> lg' =
      Done (Deallocate (buffer_m (data_m v)) (lg' @ map Destroyed xs))" for lg'
    using Vector_dtor_holds [OF assms(1), of lg'] by (cases v) simp
  show ?thesis
    using assms(3) by (simp add: copy_assign_body_def s k Capacity_def Swap_def RawMemory_Swap_def d)
qed

lemma copy_assign_body_grow:
  assumes "holds v xs" "holds rhs ys" "length ys \<le> Capacity v" "length xs \<le> length ys"
    "list_all (\<lambda>x. \<not> copy_assign_throws T x) (take (length xs) ys)"
    "list_all (\<lambda>x. \<not> copy_ctor_throws T x) (drop (length xs) ys)"
  shows "copy_assign_body T operator_new v rhs lg =
     Done ((set_cells v (map Some ys @ replicate (Capacity v - length ys) None))
             \<lparr>size_m := length ys\<rparr>,
           lg @ map Copy_assigned (take (length xs) ys) @
             map Copy_constructed (drop (length xs) ys))"
proof -
  let ?a = "take (length xs) ys" and ?b = "drop (length xs) ys"
  let ?k = "Capacity v - length ys"
  have s: "size_m rhs = length ys" "size_m v = length xs"
    and cr: "cells (data_m rhs) =
        map Some ?a @ map Some ?b @ replicate (capacity_m (data_m rhs) - length ys) None"
    and cv: "cells (data_m v) =
        map Some xs @ replicate (length ?b) None @ replicate ?k None"
    using assms(1-4)
    by (auto simp: holds_def Capacity_def map_append [symmetric] replicate_add [symmetric]
        simp del: map_append)
  have la: "length ?a = length xs" using assms(4) by simp
  have l1: "copy_assign_loop T ([] @ map Some ?a @ map Some ?b @
                replicate (capacity_m (data_m rhs) - length ys) None)
          ([] @ map Some xs @ replicate (length ?b) None @ replicate ?k None)
          (length ([] :: 'a option list)) (length ?a) lg =
        Done ([] @ map Some ?a @ replicate (length ?b) None @ replicate ?k None,
              lg @ map Copy_assigned ?a)"
    by (rule copy_assign_loop_Done [OF assms(5)]) (use assms(4) in \<open>simp_all add: min_def\<close>)
  have l2: "uninit_copy_loop T (map Some ?a @ map Some ?b @
                replicate (capacity_m (data_m rhs) - length ys) None)
          (length (map Some ?a)) (length ?b)
          (map Some ?a @ replicate (length ?b) None @ replicate ?k None) (length xs)
          (length (map Some ?a)) lg' =
        Done (map Some ?a @ map Some ?b @ replicate ?k None, lg' @ map Copy_constructed ?b)" for lg'
    by (rule uninit_copy_loop_Done [OF assms(6)]) simp
  have ab: "map Some ?a @ map Some ?b = map Some ys"
    by (simp add: map_append [symmetric] del: map_append)
  show ?thesis
    using assms(3,4) l1 l2 [of "lg @ map Copy_assigned ?a"]
    by (simp add: copy_assign_body_def s cr cv Capacity_def uninitialized_copy_n_def la
        ab [symmetric] del: map_append append_take_drop_id)
qed

lemma copy_assign_body_shrink:
  assumes "holds v xs" "holds rhs ys" "length ys < length xs"
    "list_all (\<lambda>x. \<not> copy_assign_throws T x) ys"
  shows "copy_assign_body T operator_new v rhs lg =
     Done ((set_cells v (map Some ys @ replicate (Capacity v - length ys) None))
             \<lparr>size_m := length ys\<rparr>,
           lg @ map Copy_assigned ys @ map Destroyed (drop (length ys) xs))"
proof -
  let ?a = "take (length ys) xs" and ?b = "drop (length ys) xs"
  let ?k = "Capacity v - length xs"
  have s: "size_m rhs = length ys" "size_m v = length xs" "length xs \<le> Capacity v"
    and cr: "cells (data_m rhs) =
        map Some ys @ replicate (capacity_m (data_m rhs) - length ys) None"
    and cv: "cells (data_m v) = map Some ?a @ map Some ?b @ replicate ?k None"
    using assms(1-3)
    by (auto simp: holds_def Capacity_def map_append [symmetric] simp del: map_append)
  have la: "length ?a = length ys" "length ?b = length xs - length ys" using assms(3) by simp_all
  have l1: "copy_assign_loop T ([] @ map Some ys @
                replicate (capacity_m (data_m rhs) - length ys) None)
          ([] @ map Some ?a @ map Some ?b @ replicate ?k None)
          (length ([] :: 'a option list)) (length ys) lg =
        Done ([] @ map Some ys @ map Some ?b @ replicate ?k None, lg @ map Copy_assigned ys)"
    by (rule copy_assign_loop_Done [OF assms(4)]) (use assms(3) in \<open>simp_all add: min_def\<close>)
  have l2: "destroy_n (map Some ys @ map Some ?b @ replicate ?k None) (length (map Some ys))
          (length ?b) lg' =
        Done (map Some ys @ replicate (length ?b) None @ replicate ?k None,
              lg' @ map Destroyed ?b)" for lg'
    by (rule destroy_n_live)
  have r: "replicate (length xs - length ys) None @ replicate (capacity_m (data_m v) - length xs) None =
      replicate (capacity_m (data_m v) - length ys) (None :: 'a option)"
    using assms(3) s(3) by (simp add: replicate_add [symmetric] Capacity_def)
  show ?thesis
    using assms(3) s(3) l1 l2 [of "lg @ map Copy_assigned ys"]
    by (simp add: copy_assign_body_def s cr cv la r Capacity_def)
qed

lemma holds_vec: "length xs \<le> cap \<Longrightarrow> 0 < cap \<Longrightarrow> holds (vec p cap xs) xs"
  by (simp add: holds_def vec_def)

text \<open>
  C6. Copy assignment between two different vectors, \<^verbatim>\<open>*this\<close> holding \<open>xs\<close> and
  \<^verbatim>\<open>rhs\<close> holding \<open>ys\<close>, when no element operation throws and the allocation
  succeeds. If the size of \<^verbatim>\<open>rhs\<close> is above the capacity of \<^verbatim>\<open>*this\<close>: a new
  block of exactly that size is allocated, the elements \<open>ys\<close> are copy-constructed in it,
  the old elements are destroyed and the old block is deallocated. Otherwise the block and
  the capacity stay: if \<^verbatim>\<open>rhs\<close> is at least as long, the first \<open>length xs\<close> elements
  of \<open>ys\<close> are copy-assigned and the others copy-constructed; if it is shorter, \<open>ys\<close> is
  copy-assigned and the elements of \<open>xs\<close> beyond it are destroyed. In each case
  \<^verbatim>\<open>*this\<close> ends in a valid state holding \<open>ys\<close>, its size that of \<^verbatim>\<open>rhs\<close>, and
  no other vector of the store changes. (Assignment to itself is C10.)
\<close>

theorem copy_assignment_two_cases:
  assumes "this \<noteq> rhs" "holds (st this) xs" "holds (st rhs) ys"
  shows "(Capacity (st this) < Size (st rhs) \<and> fits T (Size (st rhs)) \<and>
      operator_new (Size (st rhs) * sizeof_T T) \<and>
      list_all (\<lambda>x. \<not> copy_ctor_throws T x) ys \<longrightarrow>
       (\<exists>st' lg'. Vector_copy_assign T operator_new st this rhs lg = Done (st', lg') \<and>
          holds (st' this) ys \<and> Size (st' this) = Size (st rhs) \<and>
          Capacity (st' this) = Size (st rhs) \<and> (\<forall>a. a \<noteq> this \<longrightarrow> st' a = st a) \<and>
          lg' = Deallocate (buffer_m (data_m (st this)))
                  (lg @ allocation T (length ys) @ map Copy_constructed ys @
                   map Destroyed xs))) \<and>
    (Size (st rhs) \<le> Capacity (st this) \<and> Size (st this) \<le> Size (st rhs) \<and>
      list_all (\<lambda>x. \<not> copy_assign_throws T x) (take (length xs) ys) \<and>
      list_all (\<lambda>x. \<not> copy_ctor_throws T x) (drop (length xs) ys) \<longrightarrow>
       (\<exists>st' lg'. Vector_copy_assign T operator_new st this rhs lg = Done (st', lg') \<and>
          holds (st' this) ys \<and> Size (st' this) = Size (st rhs) \<and>
          Capacity (st' this) = Capacity (st this) \<and>
          buffer_m (data_m (st' this)) = buffer_m (data_m (st this)) \<and>
          (\<forall>a. a \<noteq> this \<longrightarrow> st' a = st a) \<and>
          lg' = lg @ map Copy_assigned (take (length xs) ys) @
                  map Copy_constructed (drop (length xs) ys))) \<and>
    (Size (st rhs) < Size (st this) \<and> list_all (\<lambda>x. \<not> copy_assign_throws T x) ys \<longrightarrow>
       (\<exists>st' lg'. Vector_copy_assign T operator_new st this rhs lg = Done (st', lg') \<and>
          holds (st' this) ys \<and> Size (st' this) = Size (st rhs) \<and>
          Capacity (st' this) = Capacity (st this) \<and>
          buffer_m (data_m (st' this)) = buffer_m (data_m (st this)) \<and>
          (\<forall>a. a \<noteq> this \<longrightarrow> st' a = st a) \<and>
          lg' = lg @ map Copy_assigned ys @ map Destroyed (drop (length ys) xs)))"
proof -
  have sz: "Size (st rhs) = length ys" "Size (st this) = length xs"
    "length xs \<le> Capacity (st this)"
    "(buffer_m (data_m (st this)) = nullptr) = (Capacity (st this) = 0)"
    using assms(2,3) by (simp_all add: holds_def Size_def Capacity_def)
  show ?thesis
  proof (intro conjI impI)
    assume h: "Capacity (st this) < Size (st rhs) \<and> fits T (Size (st rhs)) \<and>
      operator_new (Size (st rhs) * sizeof_T T) \<and>
      list_all (\<lambda>x. \<not> copy_ctor_throws T x) ys"
    have "copy_assign_body T operator_new (st this) (st rhs) lg =
      Done (\<lparr>data_m = \<lparr>buffer_m = block_ptr lg (length ys), capacity_m = length ys,
                       cells = map Some ys\<rparr>, size_m = length ys\<rparr>,
           Deallocate (buffer_m (data_m (st this)))
             (lg @ allocation T (length ys) @ map Copy_constructed ys @ map Destroyed xs))"
      by (rule copy_assign_body_swap [OF assms(2,3)]) (use h sz in auto)
    then show "\<exists>st' lg'. Vector_copy_assign T operator_new st this rhs lg = Done (st', lg') \<and>
          holds (st' this) ys \<and> Size (st' this) = Size (st rhs) \<and>
          Capacity (st' this) = Size (st rhs) \<and> (\<forall>a. a \<noteq> this \<longrightarrow> st' a = st a) \<and>
          lg' = Deallocate (buffer_m (data_m (st this)))
                  (lg @ allocation T (length ys) @ map Copy_constructed ys @
                   map Destroyed xs)"
      using assms(1) sz
      by (simp add: Vector_copy_assign_def Vector_copy_holds Size_def Capacity_def)
  next
    assume h: "Size (st rhs) \<le> Capacity (st this) \<and> Size (st this) \<le> Size (st rhs) \<and>
      list_all (\<lambda>x. \<not> copy_assign_throws T x) (take (length xs) ys) \<and>
      list_all (\<lambda>x. \<not> copy_ctor_throws T x) (drop (length xs) ys)"
    have "copy_assign_body T operator_new (st this) (st rhs) lg =
      Done ((set_cells (st this) (map Some ys @ replicate (Capacity (st this) - length ys) None))
             \<lparr>size_m := length ys\<rparr>,
           lg @ map Copy_assigned (take (length xs) ys) @
             map Copy_constructed (drop (length xs) ys))"
      by (rule copy_assign_body_grow [OF assms(2,3)]) (use h sz in auto)
    then show "\<exists>st' lg'. Vector_copy_assign T operator_new st this rhs lg = Done (st', lg') \<and>
          holds (st' this) ys \<and> Size (st' this) = Size (st rhs) \<and>
          Capacity (st' this) = Capacity (st this) \<and>
          buffer_m (data_m (st' this)) = buffer_m (data_m (st this)) \<and>
          (\<forall>a. a \<noteq> this \<longrightarrow> st' a = st a) \<and>
          lg' = lg @ map Copy_assigned (take (length xs) ys) @
                  map Copy_constructed (drop (length xs) ys)"
      using assms(1) sz h
      by (simp add: Vector_copy_assign_def holds_def set_cells_def Size_def Capacity_def)
  next
    assume h: "Size (st rhs) < Size (st this) \<and> list_all (\<lambda>x. \<not> copy_assign_throws T x) ys"
    have "copy_assign_body T operator_new (st this) (st rhs) lg =
      Done ((set_cells (st this) (map Some ys @ replicate (Capacity (st this) - length ys) None))
             \<lparr>size_m := length ys\<rparr>,
           lg @ map Copy_assigned ys @ map Destroyed (drop (length ys) xs))"
      by (rule copy_assign_body_shrink [OF assms(2,3)]) (use h sz in auto)
    then show "\<exists>st' lg'. Vector_copy_assign T operator_new st this rhs lg = Done (st', lg') \<and>
          holds (st' this) ys \<and> Size (st' this) = Size (st rhs) \<and>
          Capacity (st' this) = Capacity (st this) \<and>
          buffer_m (data_m (st' this)) = buffer_m (data_m (st this)) \<and>
          (\<forall>a. a \<noteq> this \<longrightarrow> st' a = st a) \<and>
          lg' = lg @ map Copy_assigned ys @ map Destroyed (drop (length ys) xs)"
      using assms(1) sz h
      by (simp add: Vector_copy_assign_def holds_def set_cells_def Size_def Capacity_def)
  qed
qed

theorem copy_assignment_two_cases_witness:
  "(\<exists>st' lg'. Vector_copy_assign int_type (\<lambda>b. True)
       (two_vectors (vec 0 1 [7]) (vec 2 3 [1, 2])) 0 1 [] = Done (st', lg') \<and>
      holds (st' 0) [1, 2] \<and> Capacity (st' 0) = 2 \<and>
      lg' = [New 8, Copy_constructed 1, Copy_constructed 2, Destroyed 7, Delete 0]) \<and>
   (\<exists>st' lg'. Vector_copy_assign int_type (\<lambda>b. True)
       (two_vectors (vec 0 3 [7]) (vec 2 3 [1, 2])) 0 1 [] = Done (st', lg') \<and>
      holds (st' 0) [1, 2] \<and> Capacity (st' 0) = 3 \<and>
      lg' = [Copy_assigned 1, Copy_constructed 2]) \<and>
   (\<exists>st' lg'. Vector_copy_assign int_type (\<lambda>b. True)
       (two_vectors (vec 0 3 [7, 8, 9]) (vec 2 3 [1, 2])) 0 1 [] = Done (st', lg') \<and>
      holds (st' 0) [1, 2] \<and> Capacity (st' 0) = 3 \<and>
      lg' = [Copy_assigned 1, Copy_assigned 2, Destroyed 9])"
proof -
  have ne: "(0 :: nat) \<noteq> 1" by simp
  have r: "holds (two_vectors v (vec 2 3 [1, 2 :: int]) 1) [1, 2]" for v
    by (simp add: two_vectors_def holds_vec)
  have a: "holds (two_vectors (vec 0 1 [7 :: int]) w 0) [7]"
    and b: "holds (two_vectors (vec 0 3 [7 :: int]) w 0) [7]"
    and c: "holds (two_vectors (vec 0 3 [7, 8, 9 :: int]) w 0) [7, 8, 9]" for w
    by (simp_all add: two_vectors_def holds_vec)
  have s: "Size (two_vectors v w 0) = size_m v" "Size (two_vectors v w (Suc 0)) = size_m w"
    "Capacity (two_vectors v w 0) = capacity_m (data_m v)"
    "buffer_m (data_m (two_vectors v w 0)) = buffer_m (data_m v)" for v w :: "int Vector"
    by (simp_all add: two_vectors_def Size_def Capacity_def)
  have vs: "size_m (vec p k xs) = length xs" "capacity_m (data_m (vec p k xs)) = k"
    "buffer_m (data_m (vec p k xs)) = Ptr p" for p k and xs :: "int list"
    by (simp_all add: vec_def)
  show ?thesis
    using copy_assignment_two_cases [of 0 1 "two_vectors (vec 0 1 [7]) (vec 2 3 [1, 2])"
          "[7]" "[1, 2]" int_type "\<lambda>b. True" "[]", OF ne a r]
      copy_assignment_two_cases [of 0 1 "two_vectors (vec 0 3 [7]) (vec 2 3 [1, 2])"
          "[7]" "[1, 2]" int_type "\<lambda>b. True" "[]", OF ne b r]
      copy_assignment_two_cases [of 0 1 "two_vectors (vec 0 3 [7, 8, 9]) (vec 2 3 [1, 2])"
          "[7, 8, 9]" "[1, 2]" int_type "\<lambda>b. True" "[]", OF ne c r]
    by (auto simp: s vs fits_def int_type_def size_t_range_def allocation_def Deallocate_def)
qed

section \<open>Appending\<close>

lemma length_relocated_from [simp]: "length (relocated_from T xs) = length xs"
  by (simp add: relocated_from_def)

lemma relocation_ok_append:
  "relocation_ok T (xs @ ys) = (relocation_ok T xs \<and> relocation_ok T ys)"
  by (simp add: relocation_ok_def)

lemma FillNewData_Done:
  assumes "relocation_ok T xs" "cells (data_m v) = sp @ map Some xs @ sq"
    "cells nd = dp @ ys @ dq" "length ys = length xs"
  shows "FillNewData T v nd (length sp) (length dp) (length xs) lg =
     Done (set_cells v (sp @ map Some (relocated_from T xs) @ sq),
           nd\<lparr>cells := dp @ map Some xs @ dq\<rparr>, lg @ relocation_events T xs)"
proof (cases "relocates_by_move T")
  case True
  then show ?thesis
    using assms uninit_move_loop_Done [of T xs ys sp sq dp dq "length dp" lg]
    by (simp add: FillNewData_def relocates_by_move_def uninitialized_move_n_def
        relocation_ok_def relocation_events_def relocated_from_def comp_def)
next
  case False
  have "set_cells v (sp @ map Some xs @ sq) = v"
    using assms(2) by (cases v) (simp add: set_cells_def)
  then show ?thesis
    using False assms uninit_copy_loop_Done [of T xs ys sp sq dp dq "length dp" lg]
    by (simp add: FillNewData_def relocates_by_move_def uninitialized_copy_n_def
        relocation_ok_def relocation_events_def relocated_from_def)
qed

lemma grown_capacity_fits:
  assumes "fits T (doubled n)"
  shows "grown_capacity n = doubled n"
proof -
  from assms have a: "0 < sizeof_T T" and b: "doubled n * sizeof_T T < size_t_range"
    by (simp_all add: fits_def)
  from a have "doubled n \<le> doubled n * sizeof_T T"
    by (cases "sizeof_T T") simp_all
  then have "doubled n < size_t_range"
    using b by (rule le_less_trans)
  then show ?thesis
    by (cases "n = 0") (simp_all add: grown_capacity_def doubled_def)
qed

lemma doubled_gt: "n < doubled n"
  by (cases n) (simp_all add: doubled_def max_def)

lemma EmplaceBack_in_place:
  assumes "holds v xs" "length xs < Capacity v" "\<not> ctor_throws T a"
  shows "EmplaceBack T operator_new v a lg =
     Done (((set_cells v (map Some (xs @ [ctor_value a]) @
                replicate (Capacity v - Suc (length xs)) None))
              \<lparr>size_m := Suc (length xs)\<rparr>, length xs),
           lg @ [ctor_event a])"
proof -
  from assms(1,2) have s: "size_m v = length xs"
    and c: "cells (data_m v) = map Some xs @ None # replicate (Capacity v - Suc (length xs)) None"
    by (auto simp: holds_def Capacity_def replicate_Suc [symmetric] Suc_diff_Suc
        simp del: replicate_Suc)
  show ?thesis
    using assms(2,3) by (simp add: EmplaceBack_def s c Capacity_def list_update_append)
qed

lemma EmplaceBack_grow:
  assumes "holds v xs" "length xs = Capacity v" "\<not> ctor_throws T a" "relocation_ok T xs"
    "fits T (doubled (length xs))" "operator_new (doubled (length xs) * sizeof_T T)"
  shows "EmplaceBack T operator_new v a lg =
     Done ((\<lparr>data_m = \<lparr>buffer_m = Ptr (length lg), capacity_m = doubled (length xs),
                        cells = map Some (xs @ [ctor_value a]) @
                          replicate (doubled (length xs) - Suc (length xs)) None\<rparr>,
             size_m = Suc (length xs)\<rparr>, length xs),
           Deallocate (buffer_m (data_m v))
             (lg @ [New (doubled (length xs) * sizeof_T T)] @ relocation_events T xs @
              [ctor_event a] @ map Destroyed (relocated_from T xs)))"
proof -
  let ?n = "doubled (length xs)"
  from assms(1,2) have s: "size_m v = length xs" "capacity_m (data_m v) = length xs"
    and c: "cells (data_m v) = [] @ map Some xs @ []"
    by (auto simp: holds_def Capacity_def)
  have g: "grown_capacity (length xs) = ?n" using assms(5) by (rule grown_capacity_fits)
  have r: "RawMemory_ctor T operator_new ?n lg =
     Done (\<lparr>buffer_m = Ptr (length lg), capacity_m = ?n, cells = replicate ?n None\<rparr>,
           lg @ [New (?n * sizeof_T T)])"
    using assms(5,6) doubled_gt [of "length xs"] by (intro RawMemory_ctor_fits) simp_all
  have sp: "replicate ?n None = [] @ replicate (length xs) (None :: 'a option) @
      None # replicate (?n - Suc (length xs)) None"
    using doubled_gt [of "length xs"]
    by (simp add: replicate_add [symmetric] replicate_Suc [symmetric] del: replicate_Suc)
  have f: "FillNewData T v \<lparr>buffer_m = Ptr (length lg), capacity_m = ?n, cells = replicate ?n None\<rparr>
        (length ([] :: 'a option list)) (length ([] :: 'a option list)) (length xs)
        (lg @ [New (?n * sizeof_T T)]) =
     Done (set_cells v ([] @ map Some (relocated_from T xs) @ []),
           \<lparr>buffer_m = Ptr (length lg), capacity_m = ?n, cells = replicate ?n None\<rparr>
             \<lparr>cells := [] @ map Some xs @ None # replicate (?n - Suc (length xs)) None\<rparr>,
           (lg @ [New (?n * sizeof_T T)]) @ relocation_events T xs)"
    by (rule FillNewData_Done [OF assms(4) c, where ys = "replicate (length xs) None"])
       (use sp in simp_all)
  have d: "destroy_n (map Some (relocated_from T xs)) 0 (length xs) lg' =
     Done (replicate (length xs) None, lg' @ map Destroyed (relocated_from T xs))" for lg'
    using destroy_n_live [of "[]" "relocated_from T xs" "[]" lg'] by simp
  have lt: "length xs < ?n" by (rule doubled_gt)
  show ?thesis
    using assms(3) f d lt
    by (simp add: EmplaceBack_def s g r set_cells_def RawMemory_Swap_def RawMemory_dtor_def
        Deallocate_def list_update_append split: ptr.split)
qed












section \<open>Insertion and removal inside the capacity\<close>

lemma move_backward_loop_shift:
  "list_all (\<lambda>x. \<not> move_assign_throws T x) xs \<Longrightarrow>
   move_backward_loop T (pre @ map Some xs @ Some y # post) (length pre) (length xs)
       (Suc (length pre + length xs)) lg =
     Done (pre @ Some (hd (map (moved_from T) xs @ [y])) # map Some xs @ post,
           lg @ map Move_assigned (rev xs))"
  using move_backward_loop_Done [of T xs pre y post lg] by (cases xs) simp_all

lemma move_loop_shift:
  "list_all (\<lambda>x. \<not> move_assign_throws T x) xs \<Longrightarrow>
   move_loop T (pre @ Some y # map Some xs @ post) (Suc (length pre)) (length xs)
       (length pre) lg =
     Done (pre @ map Some xs @ Some (last (y # map (moved_from T) xs)) # post,
           lg @ map Move_assigned xs)"
  using move_loop_Done [of T xs pre y post lg] by (cases "xs = []") (simp_all add: last_map)

lemma Emplace_in_place_shift:
  assumes "holds v (pre @ mid @ [y])" "length (pre @ mid @ [y]) < Capacity v"
    "\<not> ctor_throws T a" "\<not> move_throws T y"
    "list_all (\<lambda>x. \<not> move_assign_throws T x) mid" "\<not> move_assign_throws T (ctor_value a)"
  shows "Emplace_in_place T v (length pre) a lg =
     Done ((set_cells v (map Some (pre @ ctor_value a # mid @ [y]) @
              replicate (Capacity v - Suc (length (pre @ mid @ [y]))) None))
             \<lparr>size_m := Suc (length (pre @ mid @ [y]))\<rparr>,
           lg @ [ctor_event a, Move_constructed y] @ map Move_assigned (rev mid) @
             [Move_assigned (ctor_value a), Destroyed (moved_from T (ctor_value a))])"
proof -
  let ?n = "length pre + length mid"
  let ?rest = "replicate (Capacity v - Suc (Suc ?n)) (None :: 'a option)"
  let ?x = "ctor_value a"
  from assms(1,2) have s: "size_m v = Suc ?n"
    and c: "cells (data_m v) = map Some pre @ map Some mid @ Some y # None # ?rest"
    by (auto simp: holds_def Capacity_def replicate_Suc [symmetric] Suc_diff_Suc
        simp del: replicate_Suc)
  have mb: "move_backward_loop T
        (map Some pre @ map Some mid @ Some (moved_from T y) # Some y # ?rest)
        (length (map Some pre)) (length mid) (Suc (length (map Some pre) + length mid)) lg' =
      Done (map Some pre @ Some (hd (map (moved_from T) mid @ [moved_from T y])) #
              map Some mid @ Some y # ?rest,
            lg' @ map Move_assigned (rev mid))" for lg'
    by (rule move_backward_loop_shift [OF assms(5)])
  show ?thesis
    using assms(3,4,6) mb [of "lg @ [ctor_event a, Move_constructed y]"]
    by (simp add: Emplace_in_place_def s c Let_def nth_append list_update_append
        move_backward_def set_cells_def split del: if_split)
qed

lemma Erase_shift:
  assumes "holds v (pre @ y # post)" "list_all (\<lambda>x. \<not> move_assign_throws T x) post"
  shows "Erase T v (length pre) lg =
     Done (((set_cells v (map Some (pre @ post) @
               replicate (Capacity v - length (pre @ post)) None))
              \<lparr>size_m := length (pre @ post)\<rparr>, length pre),
           lg @ map Move_assigned post @ [Destroyed (last (y # map (moved_from T) post))])"
proof -
  let ?rest = "replicate (Capacity v - Suc (length pre + length post)) (None :: 'a option)"
  from assms(1) have s: "size_m v = Suc (length pre + length post)"
    and c: "cells (data_m v) = map Some pre @ Some y # map Some post @ ?rest"
    and le: "Suc (length pre + length post) \<le> Capacity v"
    by (auto simp: holds_def Capacity_def)
  have m: "move_loop T (map Some pre @ Some y # map Some post @ ?rest)
        (Suc (length (map Some pre))) (length post) (length (map Some pre)) lg =
      Done (map Some pre @ map Some post @ Some (last (y # map (moved_from T) post)) # ?rest,
            lg @ map Move_assigned post)"
    by (rule move_loop_shift [OF assms(2)])
  have r: "None # ?rest = replicate (Capacity v - (length pre + length post)) None"
    using le by (simp add: replicate_Suc [symmetric] Suc_diff_Suc del: replicate_Suc)
  show ?thesis
    using m r
    by (simp add: Erase_def s c move_range_def destroy_at_def set_cells_def nth_append
        list_update_append split del: if_split del: replicate_Suc)
qed

lemma PopBack_last:
  assumes "holds v (xs @ [y])"
  shows "PopBack v lg =
     Done ((set_cells v (map Some xs @ replicate (Capacity v - length xs) None))
             \<lparr>size_m := length xs\<rparr>,
           lg @ [Destroyed y])"
proof -
  let ?rest = "replicate (Capacity v - Suc (length xs)) (None :: 'a option)"
  from assms have s: "size_m v = Suc (length xs)"
    and c: "cells (data_m v) = map Some xs @ Some y # ?rest"
    and le: "Suc (length xs) \<le> Capacity v"
    by (auto simp: holds_def Capacity_def)
  have r: "None # ?rest = replicate (Capacity v - length xs) None"
    using le by (simp add: replicate_Suc [symmetric] Suc_diff_Suc del: replicate_Suc)
  show ?thesis
    using r by (simp add: PopBack_def s c destroy_at_def nth_append list_update_append
        set_cells_def del: replicate_Suc)
qed

section \<open>Every operation, from a valid state\<close>

lemma Vector_sized_Done:
  assumes "fits T n" "n \<noteq> 0 \<longrightarrow> operator_new (n * sizeof_T T)"
    "\<forall>k < n. \<not> value_ctor_throws T k"
  shows "Vector_sized T operator_new n lg =
     Done (\<lparr>data_m = \<lparr>buffer_m = block_ptr lg n, capacity_m = n,
                       cells = map Some (replicate n (value_init T))\<rparr>, size_m = n\<rparr>,
           lg @ allocation T n @ replicate n (Value_constructed (value_init T)))"
proof -
  have r: "RawMemory_ctor T operator_new n lg =
     Done (\<lparr>buffer_m = block_ptr lg n, capacity_m = n, cells = replicate n None\<rparr>,
           lg @ allocation T n)"
    using assms(1,2) by (rule RawMemory_ctor_ok)
  have u: "uninit_value_loop T (length (replicate n (None :: 'a option)))
        ([] @ replicate n None @ []) 0 (length ([] :: 'a option list)) lg' =
      Done ([] @ replicate (length (replicate n (None :: 'a option))) (Some (value_init T)) @ [],
            lg' @ replicate (length (replicate n (None :: 'a option)))
              (Value_constructed (value_init T)))" for lg'
    by (rule uninit_value_loop_Done [where j = 0]) (use assms(3) in simp_all)
  show ?thesis
    using u by (simp add: Vector_sized_def r uninitialized_value_construct_n_def)
qed

lemma Vector_list_Done:
  assumes "fits T (length xs)" "xs \<noteq> [] \<longrightarrow> operator_new (length xs * sizeof_T T)"
    "list_all (\<lambda>x. \<not> copy_ctor_throws T x) xs"
  shows "Vector_list T operator_new xs lg =
     Done (\<lparr>data_m = \<lparr>buffer_m = block_ptr lg (length xs), capacity_m = length xs,
                       cells = map Some xs\<rparr>, size_m = length xs\<rparr>,
           lg @ allocation T (length xs) @ map Copy_constructed xs)"
proof -
  have r: "RawMemory_ctor T operator_new (length xs) lg =
     Done (\<lparr>buffer_m = block_ptr lg (length xs), capacity_m = length xs,
            cells = replicate (length xs) None\<rparr>, lg @ allocation T (length xs))"
    using assms(1,2) by (intro RawMemory_ctor_ok) simp_all
  have u: "uninit_copy_loop T ([] @ map Some xs @ [])
          (length ([] :: 'a option list)) (length xs) ([] @ replicate (length xs) None @ []) 0
          (length ([] :: 'a option list)) lg' =
        Done ([] @ map Some xs @ [], lg' @ map Copy_constructed xs)" for lg'
    by (rule uninit_copy_loop_Done [OF assms(3)]) simp
  show ?thesis
    using u
    by (simp add: Vector_list_def r uninitialized_copy_n_def uninitialized_move_n_const_def)
qed

lemma Reserve_Done:
  assumes "holds v xs" "Capacity v < n" "fits T n" "operator_new (n * sizeof_T T)"
    "relocation_ok T xs"
  shows "Reserve T operator_new v n lg =
     Done (vec (length lg) n xs,
           Deallocate (buffer_m (data_m v))
             (lg @ [New (n * sizeof_T T)] @ relocation_events T xs @
              map Destroyed (relocated_from T xs)))"
proof (cases "relocates_by_move T")
  case True
  then show ?thesis
    using Reserve_move [where v = v and xs = xs and n = n and T = T
        and operator_new = operator_new and lg = lg] assms
    by (simp add: relocation_ok_def relocation_events_def relocated_from_def vec_def)
next
  case False
  then show ?thesis
    using Reserve_copy [where v = v and xs = xs and n = n and T = T
        and operator_new = operator_new and lg = lg] assms
    by (simp add: relocation_ok_def relocation_events_def relocated_from_def vec_def)
qed

lemma set_cells_same: "cells (data_m v) = c \<Longrightarrow> set_cells v c = v"
  by (cases v) (auto simp: set_cells_def)

lemma Resize_shrink:
  assumes "holds v (xs @ zs)"
  shows "Resize T operator_new v (length xs) lg =
     Done ((set_cells v (map Some xs @ replicate (Capacity v - length xs) None))
             \<lparr>size_m := length xs\<rparr>,
           lg @ map Destroyed zs)"
proof -
  let ?rest = "replicate (Capacity v - (length xs + length zs)) (None :: 'a option)"
  from assms have s: "size_m v = length xs + length zs"
    and c: "cells (data_m v) = map Some xs @ map Some zs @ ?rest"
    and le: "length xs + length zs \<le> Capacity v"
    by (auto simp: holds_def Capacity_def)
  have d: "destroy_n (map Some xs @ map Some zs @ ?rest) (length (map Some xs)) (length zs) lg =
      Done (map Some xs @ replicate (length zs) None @ ?rest, lg @ map Destroyed zs)"
    by (rule destroy_n_live)
  have r: "replicate (length zs) None @ ?rest = replicate (Capacity v - length xs) None"
    using le by (simp add: replicate_add [symmetric])
  show ?thesis
  proof (cases "zs = []")
    case True
    have "set_cells v (map Some xs @ replicate (Capacity v - length xs) None) = v"
      using c True by (intro set_cells_same) simp
    then show ?thesis
      using True s by (cases v) (simp add: Resize_def)
  next
    case False
    then show ?thesis
      using d r by (simp add: Resize_def s c Let_def)
  qed
qed

lemma Resize_grow_in_place:
  assumes "holds v xs" "length xs < n" "n \<le> Capacity v"
    "\<forall>k < n - length xs. \<not> value_ctor_throws T k"
  shows "Resize T operator_new v n lg =
     Done ((set_cells v (map Some (xs @ replicate (n - length xs) (value_init T)) @
               replicate (Capacity v - n) None))
             \<lparr>size_m := n\<rparr>,
           lg @ replicate (n - length xs) (Value_constructed (value_init T)))"
proof -
  let ?k = "n - length xs"
  let ?rest = "replicate (Capacity v - n) (None :: 'a option)"
  from assms(1-3) have s: "size_m v = length xs"
    and c: "cells (data_m v) = map Some xs @ replicate ?k None @ ?rest"
    by (auto simp: holds_def Capacity_def replicate_add [symmetric])
  have u: "uninit_value_loop T (length (replicate ?k (None :: 'a option)))
        (map Some xs @ replicate ?k None @ ?rest) (length xs) (length (map Some xs)) lg =
      Done (map Some xs @ replicate (length (replicate ?k (None :: 'a option)))
                (Some (value_init T)) @ ?rest,
            lg @ replicate (length (replicate ?k (None :: 'a option)))
              (Value_constructed (value_init T)))"
    by (rule uninit_value_loop_Done [where j = 0]) (use assms(4) in simp_all)
  show ?thesis
    using assms(2,3) u
    by (simp add: Resize_def s c Reserve_noop uninitialized_value_construct_n_def
        map_replicate)
qed

lemma Resize_grow_realloc:
  assumes "holds v xs" "Capacity v < n" "fits T n" "operator_new (n * sizeof_T T)"
    "relocation_ok T xs" "\<forall>k < n - length xs. \<not> value_ctor_throws T k"
  shows "Resize T operator_new v n lg =
     Done (vec (length lg) n (xs @ replicate (n - length xs) (value_init T)),
           Deallocate (buffer_m (data_m v))
             (lg @ [New (n * sizeof_T T)] @ relocation_events T xs @
              map Destroyed (relocated_from T xs)) @
           replicate (n - length xs) (Value_constructed (value_init T)))"
proof -
  let ?k = "n - length xs"
  from assms(1,2) have s: "size_m v = length xs" and lt: "length xs < n"
    by (auto simp: holds_def Capacity_def)
  have r: "Reserve T operator_new v n lg =
     Done (vec (length lg) n xs,
           Deallocate (buffer_m (data_m v))
             (lg @ [New (n * sizeof_T T)] @ relocation_events T xs @
              map Destroyed (relocated_from T xs)))"
    using assms(1-5) by (rule Reserve_Done)
  have u: "uninit_value_loop T (length (replicate ?k (None :: 'a option)))
        (map Some xs @ replicate ?k None @ []) (length xs) (length (map Some xs)) lg' =
      Done (map Some xs @ replicate (length (replicate ?k (None :: 'a option)))
                (Some (value_init T)) @ [],
            lg' @ replicate (length (replicate ?k (None :: 'a option)))
              (Value_constructed (value_init T)))" for lg'
    by (rule uninit_value_loop_Done [where j = 0]) (use assms(6) in simp_all)
  show ?thesis
    using lt u
    by (simp add: Resize_def s r vec_def uninitialized_value_construct_n_def set_cells_def
        map_replicate)
qed


lemma relocation_events_append:
  "relocation_events T (xs @ ys) = relocation_events T xs @ relocation_events T ys"
  by (simp add: relocation_events_def)

lemma relocated_from_append:
  "relocated_from T (xs @ ys) = relocated_from T xs @ relocated_from T ys"
  by (simp add: relocated_from_def)

lemma Emplace_realloc_Done:
  assumes "holds v (pre @ post)" "length (pre @ post) = Capacity v" "\<not> ctor_throws T a"
    "relocation_ok T (pre @ post)"
    "fits T (doubled (length (pre @ post)))"
    "operator_new (doubled (length (pre @ post)) * sizeof_T T)"
  shows "Emplace_realloc T operator_new v (length pre) a lg =
     Done (vec (length lg) (doubled (length (pre @ post))) (pre @ ctor_value a # post),
           Deallocate (buffer_m (data_m v))
             (lg @ [New (doubled (length (pre @ post)) * sizeof_T T), ctor_event a] @
              relocation_events T (pre @ post) @
              map Destroyed (relocated_from T (pre @ post))))"
proof -
  let ?n = "length pre + length post"
  let ?N = "doubled ?n"
  let ?x = "ctor_value a"
  let ?lg1 = "lg @ [New (?N * sizeof_T T)]"
  let ?rest = "replicate (?N - Suc ?n) (None :: 'a option)"
  let ?nd = "\<lambda>c. \<lparr>buffer_m = Ptr (length lg), capacity_m = ?N, cells = c\<rparr> :: 'a RawMemory"
  from assms(1,2) have s: "size_m v = ?n" "capacity_m (data_m v) = ?n"
    and c: "cells (data_m v) = [] @ map Some pre @ map Some post"
    by (auto simp: holds_def Capacity_def)
  from assms(4) have ok: "relocation_ok T pre" "relocation_ok T post"
    by (simp_all add: relocation_ok_append)
  have lt: "?n < ?N" by (rule doubled_gt)
  from assms(5,6) have fo: "fits T ?N" "operator_new (?N * sizeof_T T)" by simp_all
  have g: "grown_capacity ?n = ?N" using fo(1) by (rule grown_capacity_fits)
  have r: "RawMemory_ctor T operator_new ?N lg = Done (?nd (replicate ?N None), ?lg1)"
    using fo lt by (intro RawMemory_ctor_fits) simp_all
  have "replicate ?N (None :: 'a option) =
      replicate (length pre) None @ None # replicate (length post) None @ ?rest"
    using lt by (simp add: replicate_add [symmetric] replicate_Suc [symmetric]
        del: replicate_Suc)
  then have u: "(replicate ?N (None :: 'a option))[length pre := Some ?x] =
      replicate (length pre) None @ Some ?x # replicate (length post) None @ ?rest"
    by (simp add: list_update_append)
  have f1: "FillNewData T v
        (?nd (replicate (length pre) None @ Some ?x # replicate (length post) None @ ?rest))
        (length ([] :: 'a option list)) (length ([] :: 'a option list)) (length pre) lg' =
     Done (set_cells v ([] @ map Some (relocated_from T pre) @ map Some post),
           (?nd (replicate (length pre) None @ Some ?x # replicate (length post) None @ ?rest))
             \<lparr>cells := [] @ map Some pre @ Some ?x # replicate (length post) None @ ?rest\<rparr>,
           lg' @ relocation_events T pre)" for lg'
    by (rule FillNewData_Done [OF ok(1) c, where ys = "replicate (length pre) None"])
       simp_all
  let ?v1 = "set_cells v (map Some (relocated_from T pre) @ map Some post)"
  have c1: "cells (data_m ?v1) = map Some (relocated_from T pre) @ map Some post @ []"
    by (simp add: set_cells_def)
  have f2: "FillNewData T ?v1
        (?nd (map Some pre @ Some ?x # replicate (length post) None @ ?rest))
        (length (map Some (relocated_from T pre))) (length (map Some pre @ [Some ?x]))
        (length post) lg' =
     Done (set_cells ?v1 (map Some (relocated_from T pre) @
               map Some (relocated_from T post) @ []),
           (?nd (map Some pre @ Some ?x # replicate (length post) None @ ?rest))
             \<lparr>cells := (map Some pre @ [Some ?x]) @ map Some post @ ?rest\<rparr>,
           lg' @ relocation_events T post)" for lg'
    by (rule FillNewData_Done [OF ok(2) c1, where ys = "replicate (length post) None"])
       simp_all
  have d: "destroy_n (map Some (relocated_from T pre) @ map Some (relocated_from T post)) 0
        (length pre + length post) lg' =
     Done (replicate (length pre + length post) None,
           lg' @ map Destroyed (relocated_from T pre) @ map Destroyed (relocated_from T post))"
    for lg'
    using destroy_n_live [of "[]" "relocated_from T pre @ relocated_from T post" "[]" lg']
    by simp
  have sz: "size_m ?v1 = length pre + length post"
    using s by (simp add: set_cells_def)
  show ?thesis
    using assms(3) lt f1 f2 d
    by (simp add: Emplace_realloc_def s g r u FillBehindIndex_def FillAfterIndex_def
        set_cells_def RawMemory_Swap_def RawMemory_dtor_def Deallocate_def vec_def
        relocation_events_append relocated_from_append split: ptr.split)
qed


lemma quiet_relocation_ok: "quiet T xs \<Longrightarrow> relocation_ok T xs"
  by (simp add: quiet_def relocation_ok_def list_all_iff)

lemma quiet_copy: "quiet T xs \<Longrightarrow> list_all (\<lambda>x. \<not> copy_ctor_throws T x) xs"
  by (simp add: quiet_def list_all_iff)

lemma quiet_copy_assign: "quiet T xs \<Longrightarrow> list_all (\<lambda>x. \<not> copy_assign_throws T x) xs"
  by (simp add: quiet_def list_all_iff)

lemma quiet_move_assign: "quiet T xs \<Longrightarrow> list_all (\<lambda>x. \<not> move_assign_throws T x) xs"
  by (simp add: quiet_def list_all_iff)

lemma quiet_move: "quiet T xs \<Longrightarrow> list_all (\<lambda>x. \<not> move_throws T x) xs"
  by (simp add: quiet_def list_all_iff)

lemma list_all_take: "list_all P xs \<Longrightarrow> list_all P (take n xs)"
  by (auto simp: list_all_iff dest: in_set_takeD)

lemma list_all_drop: "list_all P xs \<Longrightarrow> list_all P (drop n xs)"
  by (auto simp: list_all_iff dest: in_set_dropD)

lemma holds_in_place:
  assumes "holds v zs" "length xs \<le> Capacity v"
  shows "holds ((set_cells v (map Some xs @ replicate (Capacity v - length xs) None))
                 \<lparr>size_m := length xs\<rparr>) xs"
    and "Capacity ((set_cells v (map Some xs @ replicate (Capacity v - length xs) None))
                 \<lparr>size_m := length xs\<rparr>) = Capacity v"
  using assms by (simp_all add: holds_def set_cells_def Capacity_def)

lemma Capacity_vec: "Capacity (vec p cap xs) = cap"
  by (simp add: Capacity_def vec_def)

lemma EmplaceBack_Done:
  assumes "holds v xs" "\<not> ctor_throws T a" "relocation_ok T xs"
    "length xs = Capacity v \<longrightarrow>
       fits T (doubled (length xs)) \<and> operator_new (doubled (length xs) * sizeof_T T)"
  shows "\<exists>v' lg'. EmplaceBack T operator_new v a lg = Done ((v', length xs), lg') \<and>
     holds v' (xs @ [ctor_value a]) \<and>
     Capacity v' = (if length xs = Capacity v then doubled (length xs) else Capacity v)"
proof (cases "length xs = Capacity v")
  case True
  have "EmplaceBack T operator_new v a lg =
     Done ((vec (length lg) (doubled (length xs)) (xs @ [ctor_value a]), length xs),
           Deallocate (buffer_m (data_m v))
             (lg @ [New (doubled (length xs) * sizeof_T T)] @ relocation_events T xs @
              [ctor_event a] @ map Destroyed (relocated_from T xs)))"
    unfolding vec_def
    using EmplaceBack_grow [where v = v and xs = xs and T = T and a = a
        and operator_new = operator_new and lg = lg] assms True
    by simp
  moreover have "holds (vec (length lg) (doubled (length xs)) (xs @ [ctor_value a]))
      (xs @ [ctor_value a])"
    using doubled_gt [of "length xs"] by (intro holds_vec) simp_all
  ultimately show ?thesis using True by (simp add: Capacity_vec)
next
  case False
  with assms(1) have lt: "length xs < Capacity v" by (simp add: holds_def Capacity_def)
  have e: "EmplaceBack T operator_new v a lg =
     Done (((set_cells v (map Some (xs @ [ctor_value a]) @
                replicate (Capacity v - length (xs @ [ctor_value a])) None))
              \<lparr>size_m := length (xs @ [ctor_value a])\<rparr>, length xs),
           lg @ [ctor_event a])"
    using EmplaceBack_in_place [OF assms(1) lt assms(2), of operator_new lg] by simp
  have le: "length (xs @ [ctor_value a]) \<le> Capacity v" using lt by simp
  show ?thesis
    unfolding e using False holds_in_place [OF assms(1) le] by simp
qed

lemma Emplace_in_place_empty:
  assumes "holds v []" "0 < Capacity v" "\<not> ctor_throws T a"
  shows "Emplace_in_place T v index a lg =
     Done ((set_cells v (map Some [ctor_value a] @
                replicate (Capacity v - length [ctor_value a]) None))
              \<lparr>size_m := length [ctor_value a]\<rparr>,
           lg @ [ctor_event a])"
proof -
  from assms(1,2) have s: "size_m v = 0"
    and c: "cells (data_m v) = None # replicate (Capacity v - Suc 0) None"
    by (auto simp: holds_def Capacity_def replicate_Suc [symmetric] simp del: replicate_Suc)
  show ?thesis
    using assms(3) by (simp add: Emplace_in_place_def s c)
qed

lemma Emplace_Done:
  assumes "holds v xs" "index \<le> length xs"
    "index < length xs \<or> xs = [] \<or> length xs = Capacity v"
    "\<not> ctor_throws T a" "quiet T xs" "\<not> move_assign_throws T (ctor_value a)"
    "length xs = Capacity v \<longrightarrow>
       fits T (doubled (length xs)) \<and> operator_new (doubled (length xs) * sizeof_T T)"
  shows "\<exists>v' lg'. Emplace T operator_new v index a lg = Done ((v', index), lg') \<and>
     holds v' (take index xs @ ctor_value a # drop index xs) \<and>
     Capacity v' = (if length xs = Capacity v then doubled (length xs) else Capacity v)"
proof -
  let ?ys = "take index xs @ ctor_value a # drop index xs"
  from assms(1) have s: "size_m v = length xs" "capacity_m (data_m v) = Capacity v"
    by (simp_all add: holds_def Capacity_def)
  have ly: "length ?ys = Suc (length xs)" using assms(2) by simp
  show ?thesis
  proof (cases "length xs = Capacity v")
    case True
    let ?pre = "take index xs" and ?post = "drop index xs"
    have l: "length ?pre = index" using assms(2) by simp
    have "Emplace_realloc T operator_new v (length ?pre) a lg =
     Done (vec (length lg) (doubled (length (?pre @ ?post))) (?pre @ ctor_value a # ?post),
           Deallocate (buffer_m (data_m v))
             (lg @ [New (doubled (length (?pre @ ?post)) * sizeof_T T), ctor_event a] @
              relocation_events T (?pre @ ?post) @
              map Destroyed (relocated_from T (?pre @ ?post))))"
      using assms(1,4,7) True quiet_relocation_ok [OF assms(5)]
      by (intro Emplace_realloc_Done) simp_all
    then have e: "Emplace_realloc T operator_new v index a lg =
     Done (vec (length lg) (doubled (length xs)) ?ys,
           Deallocate (buffer_m (data_m v))
             (lg @ [New (doubled (length xs) * sizeof_T T), ctor_event a] @
              relocation_events T xs @ map Destroyed (relocated_from T xs)))"
      unfolding l by simp
    have "holds (vec (length lg) (doubled (length xs)) ?ys) ?ys"
      using doubled_gt [of "length xs"] ly by (intro holds_vec) simp_all
    then show ?thesis
      using True by (simp add: Emplace_def s e Capacity_vec)
  next
    case False
    with assms(1) have lt: "length xs < Capacity v" by (simp add: holds_def Capacity_def)
    have le: "length ?ys \<le> Capacity v" using lt ly by simp
    show ?thesis
    proof (cases "xs = []")
      case True
      have e: "Emplace_in_place T v index a lg =
         Done ((set_cells v (map Some ?ys @ replicate (Capacity v - length ?ys) None))
                  \<lparr>size_m := length ?ys\<rparr>,
               lg @ [ctor_event a])"
        using Emplace_in_place_empty [of v T a index lg] assms(1,4) lt True by simp
      show ?thesis
        unfolding Emplace_def s e
        using False holds_in_place [OF assms(1) le] s True by simp
    next
      case ne: False
      with assms(3) \<open>length xs \<noteq> Capacity v\<close> have i: "index < length xs" by simp
      let ?pre = "take index xs" and ?mid = "drop index (butlast xs)" and ?y = "last xs"
      have l: "length ?pre = index" using i by simp
      have x: "xs = ?pre @ ?mid @ [?y]"
      proof -
        have "xs = butlast xs @ [?y]" using ne by simp
        also have "butlast xs = take index (butlast xs) @ ?mid" by simp
        also have "take index (butlast xs) = ?pre" using i by (simp add: take_butlast)
        finally show ?thesis by simp
      qed
      have d: "drop index xs = ?mid @ [?y]"
        using x i by (metis append_eq_conv_conj l)
      have q: "list_all (\<lambda>x. \<not> move_assign_throws T x) ?mid" "\<not> move_throws T ?y"
      proof -
        have "list_all (\<lambda>x. \<not> move_assign_throws T x) (?pre @ ?mid @ [?y])"
          using quiet_move_assign [OF assms(5)] x by simp
        then show "list_all (\<lambda>x. \<not> move_assign_throws T x) ?mid" by simp
        have "list_all (\<lambda>x. \<not> move_throws T x) (?pre @ ?mid @ [?y])"
          using quiet_move [OF assms(5)] x by simp
        then show "\<not> move_throws T ?y" by simp
      qed
      have h: "holds v (?pre @ ?mid @ [?y])" using assms(1) x by simp
      have c: "length (?pre @ ?mid @ [?y]) < Capacity v" using lt x by simp
      have "Emplace_in_place T v (length ?pre) a lg =
         Done ((set_cells v (map Some (?pre @ ctor_value a # ?mid @ [?y]) @
                  replicate (Capacity v - Suc (length (?pre @ ?mid @ [?y]))) None))
                 \<lparr>size_m := Suc (length (?pre @ ?mid @ [?y]))\<rparr>,
               lg @ [ctor_event a, Move_constructed ?y] @ map Move_assigned (rev ?mid) @
                 [Move_assigned (ctor_value a), Destroyed (moved_from T (ctor_value a))])"
        using h c assms(4) q(2) q(1) assms(6) by (rule Emplace_in_place_shift)
      then have e: "Emplace_in_place T v index a lg =
         Done ((set_cells v (map Some ?ys @ replicate (Capacity v - length ?ys) None))
                  \<lparr>size_m := length ?ys\<rparr>,
               lg @ [ctor_event a, Move_constructed ?y] @ map Move_assigned (rev ?mid) @
                 [Move_assigned (ctor_value a), Destroyed (moved_from T (ctor_value a))])"
        unfolding l x [symmetric] d [symmetric] ly by simp
      show ?thesis
        unfolding Emplace_def s e
        using False holds_in_place [OF assms(1) le] s by simp
    qed
  qed
qed

lemma Erase_Done:
  assumes "holds v xs" "index < length xs"
    "list_all (\<lambda>x. \<not> move_assign_throws T x) (drop (Suc index) xs)"
  shows "\<exists>v' lg'. Erase T v index lg = Done ((v', index), lg') \<and>
     holds v' (take index xs @ drop (Suc index) xs) \<and> Capacity v' = Capacity v"
proof -
  let ?pre = "take index xs" and ?post = "drop (Suc index) xs"
  have x: "xs = ?pre @ xs ! index # ?post" using assms(2) by (rule id_take_nth_drop)
  have l: "length ?pre = index" using assms(2) by simp
  have h: "holds v (?pre @ xs ! index # ?post)" using assms(1) x by simp
  have e: "Erase T v (length ?pre) lg =
     Done (((set_cells v (map Some (?pre @ ?post) @
               replicate (Capacity v - length (?pre @ ?post)) None))
              \<lparr>size_m := length (?pre @ ?post)\<rparr>, length ?pre),
           lg @ map Move_assigned ?post @
             [Destroyed (last (xs ! index # map (moved_from T) ?post))])"
    using h assms(3) by (rule Erase_shift)
  have le: "length (?pre @ ?post) \<le> Capacity v"
    using assms(1,2) by (auto simp: holds_def Capacity_def)
  show ?thesis
    using e holds_in_place [OF assms(1) le] unfolding l by simp
qed

lemma PopBack_Done:
  assumes "holds v xs" "xs \<noteq> []"
  shows "\<exists>v' lg'. PopBack v lg = Done (v', lg') \<and> holds v' (butlast xs) \<and>
     Capacity v' = Capacity v"
proof -
  have x: "xs = butlast xs @ [last xs]" using assms(2) by simp
  have h: "holds v (butlast xs @ [last xs])" using assms(1) x by simp
  have e: "PopBack v lg =
     Done ((set_cells v (map Some (butlast xs) @
               replicate (Capacity v - length (butlast xs)) None))
             \<lparr>size_m := length (butlast xs)\<rparr>,
           lg @ [Destroyed (last xs)])"
    using h by (rule PopBack_last)
  have le: "length (butlast xs) \<le> Capacity v"
    using assms(1) by (auto simp: holds_def Capacity_def)
  show ?thesis
    unfolding e using holds_in_place [OF assms(1) le] by simp
qed

lemma holds_length_cells: "holds v xs \<Longrightarrow> length (cells (data_m v)) = Capacity v"
  by (auto simp: holds_def Capacity_def)

lemma holds_Size: "holds v xs \<Longrightarrow> Size v = length xs"
  by (simp add: holds_def Size_def)

lemma Reserve_holds:
  assumes "holds v xs" "relocation_ok T xs"
    "Capacity v < n \<longrightarrow> fits T n \<and> operator_new (n * sizeof_T T)"
  shows "\<exists>v' lg'. Reserve T operator_new v n lg = Done (v', lg') \<and> holds v' xs \<and>
     Capacity v' = max (Capacity v) n"
proof (cases "Capacity v < n")
  case True
  then have r: "Reserve T operator_new v n lg =
     Done (vec (length lg) n xs,
           Deallocate (buffer_m (data_m v))
             (lg @ [New (n * sizeof_T T)] @ relocation_events T xs @
              map Destroyed (relocated_from T xs)))"
    using assms by (intro Reserve_Done) simp_all
  from assms(1) True have "length xs \<le> n" "0 < n" by (auto simp: holds_def Capacity_def)
  then have "holds (vec (length lg) n xs) xs" by (rule holds_vec)
  then show ?thesis using True by (simp add: r Capacity_vec max_def)
next
  case False
  then have "Reserve T operator_new v n lg = Done (v, lg)" by (intro Reserve_noop) simp
  then show ?thesis using False assms(1) by (simp add: max_def)
qed

lemma Resize_holds:
  assumes "holds v xs" "relocation_ok T xs"
    "Capacity v < n \<longrightarrow> fits T n \<and> operator_new (n * sizeof_T T)"
    "\<forall>k < n - length xs. \<not> value_ctor_throws T k"
  shows "\<exists>v' lg'. Resize T operator_new v n lg = Done (v', lg') \<and>
     holds v' (take n xs @ replicate (n - length xs) (value_init T)) \<and>
     Capacity v' = max (Capacity v) n"
proof -
  let ?ys = "take n xs @ replicate (n - length xs) (value_init T)"
  from assms(1) have le: "length xs \<le> Capacity v" by (auto simp: holds_def Capacity_def)
  consider "n \<le> length xs" | "length xs < n" "n \<le> Capacity v" | "Capacity v < n"
    by linarith
  then show ?thesis
  proof cases
    case 1
    have h: "holds v (take n xs @ drop n xs)" using assms(1) by simp
    have l: "length (take n xs) = n" using 1 by simp
    have r: "Resize T operator_new v n lg =
       Done ((set_cells v (map Some (take n xs) @ replicate (Capacity v - length (take n xs)) None))
               \<lparr>size_m := length (take n xs)\<rparr>,
             lg @ map Destroyed (drop n xs))"
      using Resize_shrink [OF h, of T operator_new lg] unfolding l .
    have c: "length (take n xs) \<le> Capacity v" using 1 le by simp
    show ?thesis
      unfolding r using holds_in_place [OF assms(1) c] 1 le by (simp add: max_def)
  next
    case 2
    have l: "length ?ys = n" using 2 by simp
    have y: "?ys = xs @ replicate (n - length xs) (value_init T)" using 2 by simp
    have "Resize T operator_new v n lg =
       Done ((set_cells v (map Some (xs @ replicate (n - length xs) (value_init T)) @
                 replicate (Capacity v - n) None))
               \<lparr>size_m := n\<rparr>,
             lg @ replicate (n - length xs) (Value_constructed (value_init T)))"
      using assms(1) 2 assms(4) by (rule Resize_grow_in_place)
    then have r: "Resize T operator_new v n lg =
       Done ((set_cells v (map Some ?ys @ replicate (Capacity v - length ?ys) None))
               \<lparr>size_m := length ?ys\<rparr>,
             lg @ replicate (n - length xs) (Value_constructed (value_init T)))"
      using 2 by simp
    have c: "length ?ys \<le> Capacity v" using 2 l by simp
    show ?thesis
      unfolding r using holds_in_place [OF assms(1) c] 2 by (simp add: max_def)
  next
    case 3
    then have lt: "length xs < n" using le by simp
    have y: "?ys = xs @ replicate (n - length xs) (value_init T)" using lt by simp
    have r: "Resize T operator_new v n lg =
       Done (vec (length lg) n (xs @ replicate (n - length xs) (value_init T)),
             Deallocate (buffer_m (data_m v))
               (lg @ [New (n * sizeof_T T)] @ relocation_events T xs @
                map Destroyed (relocated_from T xs)) @
             replicate (n - length xs) (Value_constructed (value_init T)))"
      using assms 3 by (intro Resize_grow_realloc) simp_all
    have "holds (vec (length lg) n (xs @ replicate (n - length xs) (value_init T)))
        (xs @ replicate (n - length xs) (value_init T))"
      using lt by (intro holds_vec) simp_all
    then show ?thesis
      unfolding y using 3 by (simp add: r Capacity_vec max_def)
  qed
qed

lemma copy_assign_body_holds:
  assumes "holds v xs" "holds w ys" "quiet T ys"
    "Capacity v < length ys \<longrightarrow> fits T (length ys) \<and> operator_new (length ys * sizeof_T T)"
  shows "\<exists>v' lg'. copy_assign_body T operator_new v w lg = Done (v', lg') \<and> holds v' ys \<and>
     Capacity v \<le> Capacity v'"
proof -
  consider "Capacity v < length ys" | "length ys \<le> Capacity v" "length xs \<le> length ys"
    | "length ys < length xs"
    by linarith
  then show ?thesis
  proof cases
    case 1
    have "copy_assign_body T operator_new v w lg =
     Done (\<lparr>data_m = \<lparr>buffer_m = block_ptr lg (length ys), capacity_m = length ys,
                       cells = map Some ys\<rparr>, size_m = length ys\<rparr>,
           Deallocate (buffer_m (data_m v))
             (lg @ allocation T (length ys) @ map Copy_constructed ys @ map Destroyed xs))"
      using assms(1,2) 1 assms(4) quiet_copy [OF assms(3)]
      by (intro copy_assign_body_swap) simp_all
    then show ?thesis
      using Vector_copy_holds [of lg ys] 1 by (simp add: Capacity_def)
  next
    case 2
    have r: "copy_assign_body T operator_new v w lg =
     Done ((set_cells v (map Some ys @ replicate (Capacity v - length ys) None))
             \<lparr>size_m := length ys\<rparr>,
           lg @ map Copy_assigned (take (length xs) ys) @
             map Copy_constructed (drop (length xs) ys))"
      using assms(1,2) 2 list_all_take [OF quiet_copy_assign [OF assms(3)]]
        list_all_drop [OF quiet_copy [OF assms(3)]]
      by (rule copy_assign_body_grow)
    show ?thesis
      unfolding r using holds_in_place [OF assms(1) 2(1)] by simp
  next
    case 3
    have r: "copy_assign_body T operator_new v w lg =
     Done ((set_cells v (map Some ys @ replicate (Capacity v - length ys) None))
             \<lparr>size_m := length ys\<rparr>,
           lg @ map Copy_assigned ys @ map Destroyed (drop (length ys) xs))"
      using assms(1,2) 3 quiet_copy_assign [OF assms(3)] by (rule copy_assign_body_shrink)
    have c: "length ys \<le> Capacity v" using 3 assms(1) by (auto simp: holds_def Capacity_def)
    show ?thesis
      unfolding r using holds_in_place [OF assms(1) c] by simp
  qed
qed

lemma Vector_copy_assign_holds:
  assumes "holds (st this) xs" "holds (st rhs) ys" "quiet T ys"
    "Capacity (st this) < length ys \<longrightarrow>
       fits T (length ys) \<and> operator_new (length ys * sizeof_T T)"
  shows "\<exists>st' lg'. Vector_copy_assign T operator_new st this rhs lg = Done (st', lg') \<and>
     holds (st' this) ys \<and> holds (st' rhs) ys \<and> Capacity (st this) \<le> Capacity (st' this) \<and>
     (\<forall>a. a \<noteq> this \<longrightarrow> st' a = st a)"
proof (cases "this = rhs")
  case True
  then show ?thesis using assms(2) by (simp add: Vector_copy_assign_def)
next
  case False
  obtain v' lg' where "copy_assign_body T operator_new (st this) (st rhs) lg = Done (v', lg')"
    "holds v' ys" "Capacity (st this) \<le> Capacity v'"
    using copy_assign_body_holds [where v = "st this" and w = "st rhs" and xs = xs
        and ys = ys and T = T and operator_new = operator_new and lg = lg] assms
    by blast
  then show ?thesis using False assms(2) by (simp add: Vector_copy_assign_def)
qed

lemma Vector_move_assign_holds:
  assumes "holds (st rhs) ys"
  shows "case Vector_move_assign st this rhs lg of
     (st', lg') \<Rightarrow> holds (st' this) ys \<and> holds (st' rhs) (if this = rhs then ys else []) \<and>
        (\<forall>a. a \<noteq> this \<and> a \<noteq> rhs \<longrightarrow> st' a = st a)"
  using assms holds_default [where 'a = 'a]
  by (simp add: Vector_move_assign_def move_assign_body_eq)

lemma Swap_holds:
  assumes "holds v xs" "holds w ys"
  shows "case Swap v w of (v', w') \<Rightarrow> holds v' ys \<and> holds w' xs"
  using assms by (simp add: Swap_def RawMemory_Swap_def holds_def)

lemma Vector_move_holds:
  assumes "holds w ys"
  shows "case Vector_move w of (v', w') \<Rightarrow> holds v' ys \<and> holds w' []"
  using assms holds_default [where 'a = 'a] by (simp add: Vector_move_eq)

lemma Vector_dtor_returns: "holds v xs \<Longrightarrow> \<exists>lg'. Vector_dtor v lg = Done lg'"
  by (simp add: Vector_dtor_holds)


lemma first_that_throws:
  assumes "\<not> list_all (\<lambda>x. \<not> P x) xs"
  obtains xs1 x xs2 where "xs = xs1 @ x # xs2" "list_all (\<lambda>x. \<not> P x) xs1" "P x"
proof -
  from assms have "\<exists>x \<in> set xs. P x" by (auto simp: list_all_iff)
  then obtain xs1 x xs2 where "xs = xs1 @ x # xs2" "P x" "\<forall>y \<in> set xs1. \<not> P y"
    using split_list_first_prop [of xs P] by blast
  then show ?thesis using that by (auto simp: list_all_iff)
qed

lemma uninit_copy_loop_raises:
  assumes "\<not> list_all (\<lambda>x. \<not> copy_ctor_throws T x) xs"
  shows "\<exists>lg'. uninit_copy_loop T (sp @ map Some xs @ sq) (length sp) (length xs)
          (dp @ replicate (length xs) None @ dq) (length dp) (length dp) lg =
        Raised element_exception (dp @ replicate (length xs) None @ dq, lg')"
proof -
  from assms obtain xs1 x xs2 where x: "xs = xs1 @ x # xs2"
    and ok: "list_all (\<lambda>x. \<not> copy_ctor_throws T x) xs1" and th: "copy_ctor_throws T x"
    by (rule first_that_throws)
  have "uninit_copy_loop T (sp @ map Some (xs1 @ x # xs2) @ sq) (length sp)
        (length xs1 + Suc (length xs2))
        (dp @ map Some [] @ replicate (length xs1) None @
           (replicate (Suc (length xs2)) None @ dq))
        (length dp) (length dp + length ([] :: 'a list)) lg =
     Raised element_exception
       (dp @ replicate (length ([] :: 'a list) + length xs1) None @
          (replicate (Suc (length xs2)) None @ dq),
        lg @ map Copy_constructed xs1 @ map Destroyed ([] @ xs1))"
    by (rule uninit_copy_loop_Raised [OF ok th]) simp_all
  moreover have "replicate (length (xs1 @ x # xs2)) (None :: 'a option) =
      replicate (length xs1) None @ replicate (Suc (length xs2)) None"
    by (simp add: replicate_add [symmetric] del: replicate_Suc)
  ultimately show ?thesis
    unfolding x
    by (simp del: replicate_Suc uninit_copy_loop.simps)
qed

lemma uninit_move_loop_raises:
  assumes "\<not> list_all (\<lambda>x. \<not> move_throws T x) xs"
  shows "\<exists>zs lg'. length zs = length xs \<and>
      uninit_move_loop T (sp @ map Some xs @ sq) (length sp) (length xs)
          (dp @ replicate (length xs) None @ dq) (length dp) (length dp) lg =
        Raised element_exception
          (sp @ map Some zs @ sq, dp @ replicate (length xs) None @ dq, lg')"
proof -
  from assms obtain xs1 x xs2 where x: "xs = xs1 @ x # xs2"
    and ok: "list_all (\<lambda>x. \<not> move_throws T x) xs1" and th: "move_throws T x"
    by (rule first_that_throws)
  have r: "uninit_move_loop T (sp @ map Some (xs1 @ x # xs2) @ sq) (length sp)
        (length xs1 + Suc (length xs2))
        (dp @ map Some [] @ replicate (length xs1) None @
           (replicate (Suc (length xs2)) None @ dq))
        (length dp) (length dp + length ([] :: 'a list)) lg =
     Raised element_exception
       (sp @ map (\<lambda>x. Some (moved_from T x)) xs1 @ map Some (x # xs2) @ sq,
        dp @ replicate (length ([] :: 'a list) + length xs1) None @
          (replicate (Suc (length xs2)) None @ dq),
        lg @ map Move_constructed xs1 @ map Destroyed ([] @ xs1))"
    by (rule uninit_move_loop_Raised [OF ok th]) simp_all
  have a: "replicate (length (xs1 @ x # xs2)) (None :: 'a option) =
      replicate (length xs1) None @ replicate (Suc (length xs2)) None"
    by (simp add: replicate_add [symmetric] del: replicate_Suc)
  have b: "map (\<lambda>x. Some (moved_from T x)) xs1 @ map Some (x # xs2) @ sq =
      map Some (map (moved_from T) xs1 @ x # xs2) @ sq"
    by (simp add: comp_def)
  show ?thesis
    unfolding x
    by (intro exI [of _ "map (moved_from T) xs1 @ x # xs2"]
          exI [of _ "lg @ map Move_constructed xs1 @ map Destroyed ([] @ xs1)"])
       (use r a b in \<open>simp del: replicate_Suc uninit_move_loop.simps\<close>)
qed

lemma copy_assign_loop_raises:
  "\<not> list_all (\<lambda>x. \<not> copy_assign_throws T x) xs \<Longrightarrow> length ys = length xs \<Longrightarrow>
   length sp = length dp \<Longrightarrow>
   \<exists>zs lg'. length zs = length xs \<and>
     copy_assign_loop T (sp @ map Some xs @ sq) (dp @ map Some ys @ dq) (length dp)
          (length xs) lg =
       Raised element_exception (dp @ map Some zs @ dq, lg')"
proof (induction xs arbitrary: sp dp ys lg)
  case Nil
  then show ?case by simp
next
  case (Cons x xs)
  then obtain y ys' where ys: "ys = y # ys'" by (cases ys) auto
  show ?case
  proof (cases "copy_assign_throws T x")
    case True
    show ?thesis
      by (intro exI [of _ "y # ys'"] exI [of _ lg])
         (use True Cons.prems ys in \<open>simp add: nth_append\<close>)
  next
    case False
    have l: "\<not> list_all (\<lambda>x. \<not> copy_assign_throws T x) xs" "length ys' = length xs"
      "length (sp @ [Some x]) = length (dp @ [Some x])"
      using Cons.prems ys False by simp_all
    obtain zs lg' where z: "length zs = length xs"
      "copy_assign_loop T ((sp @ [Some x]) @ map Some xs @ sq)
          ((dp @ [Some x]) @ map Some ys' @ dq) (length (dp @ [Some x])) (length xs)
          (lg @ [Copy_assigned x]) =
        Raised element_exception ((dp @ [Some x]) @ map Some zs @ dq, lg')"
      using Cons.IH [OF l, of "lg @ [Copy_assigned x]"] by blast
    have e: "copy_assign_loop T (sp @ map Some (x # xs) @ sq) (dp @ map Some ys @ dq)
          (length dp) (length (x # xs)) lg =
        copy_assign_loop T ((sp @ [Some x]) @ map Some xs @ sq)
          ((dp @ [Some x]) @ map Some ys' @ dq) (length (dp @ [Some x])) (length xs)
          (lg @ [Copy_assigned x])"
      using False Cons.prems ys by (simp add: nth_append list_update_append)
    show ?thesis
      unfolding e z(2)
      by (intro exI [of _ "x # zs"] exI [of _ lg']) (simp add: z(1))
  qed
qed

lemma move_loop_raises:
  "\<not> list_all (\<lambda>x. \<not> move_assign_throws T x) xs \<Longrightarrow>
   \<exists>zs lg'. length zs = Suc (length xs) \<and>
     move_loop T (pre @ Some y # map Some xs @ post) (Suc (length pre)) (length xs)
          (length pre) lg =
       Raised element_exception (pre @ map Some zs @ post, lg')"
proof (induction xs arbitrary: pre y lg)
  case Nil
  then show ?case by simp
next
  case (Cons x xs)
  show ?case
  proof (cases "move_assign_throws T x")
    case True
    show ?thesis
      by (intro exI [of _ "y # x # xs"] exI [of _ lg])
         (use True in \<open>simp add: nth_append\<close>)
  next
    case False
    then have l: "\<not> list_all (\<lambda>x. \<not> move_assign_throws T x) xs"
      using Cons.prems by simp
    obtain zs lg' where z: "length zs = Suc (length xs)"
      "move_loop T ((pre @ [Some x]) @ Some (moved_from T x) # map Some xs @ post)
          (Suc (length (pre @ [Some x]))) (length xs) (length (pre @ [Some x]))
          (lg @ [Move_assigned x]) =
        Raised element_exception ((pre @ [Some x]) @ map Some zs @ post, lg')"
      using Cons.IH [OF l, of "pre @ [Some x]" "moved_from T x" "lg @ [Move_assigned x]"]
      by blast
    have e: "move_loop T (pre @ Some y # map Some (x # xs) @ post) (Suc (length pre))
          (length (x # xs)) (length pre) lg =
        move_loop T ((pre @ [Some x]) @ Some (moved_from T x) # map Some xs @ post)
          (Suc (length (pre @ [Some x]))) (length xs) (length (pre @ [Some x]))
          (lg @ [Move_assigned x])"
      using False by (simp add: nth_append list_update_append)
    show ?thesis
      unfolding e z(2)
      by (intro exI [of _ "x # zs"] exI [of _ lg']) (simp add: z(1))
  qed
qed

lemma uninit_value_loop_raises:
  "\<not> (\<forall>k < m. \<not> value_ctor_throws T (length zs + k)) \<Longrightarrow>
   \<exists>lg'. uninit_value_loop T m (dp @ map Some zs @ replicate m None @ dq) (length dp)
          (length dp + length zs) lg =
       Raised element_exception (dp @ replicate (length zs + m) None @ dq, lg')"
proof (induction m arbitrary: zs lg)
  case 0
  then show ?case by simp
next
  case (Suc m)
  show ?case
  proof (cases "value_ctor_throws T (length zs)")
    case True
    have "destroy_n (dp @ map Some zs @ (replicate (Suc m) None @ dq)) (length dp) (length zs) lg =
        Done (dp @ replicate (length zs) None @ (replicate (Suc m) None @ dq),
              lg @ map Destroyed zs)"
      by (rule destroy_n_live)
    then show ?thesis
      using True by (simp add: replicate_add [symmetric] del: replicate_Suc)
  next
    case False
    from Suc.prems obtain k where k: "k < Suc m" "value_ctor_throws T (length zs + k)"
      by blast
    with False obtain k' where "k = Suc k'" by (cases k) auto
    with k have "\<not> (\<forall>k < m. \<not> value_ctor_throws T (length (zs @ [value_init T]) + k))"
      by auto
    from Suc.IH [OF this, of "lg @ [Value_constructed (value_init T)]"]
    obtain lg' where z: "uninit_value_loop T m
          (dp @ map Some (zs @ [value_init T]) @ replicate m None @ dq) (length dp)
          (length dp + length (zs @ [value_init T]))
          (lg @ [Value_constructed (value_init T)]) =
        Raised element_exception
          (dp @ replicate (length (zs @ [value_init T]) + m) None @ dq, lg')"
      by blast
    have e: "uninit_value_loop T (Suc m) (dp @ map Some zs @ replicate (Suc m) None @ dq)
          (length dp) (length dp + length zs) lg =
        uninit_value_loop T m
          (dp @ map Some (zs @ [value_init T]) @ replicate m None @ dq) (length dp)
          (length dp + length (zs @ [value_init T]))
          (lg @ [Value_constructed (value_init T)])"
      using False by (simp add: nth_append list_update_append)
    show ?thesis
      unfolding e z by simp
  qed
qed

lemma FillNewData_raises:
  assumes "\<not> relocation_ok T xs" "cells (data_m v) = sp @ map Some xs @ sq"
    "cells nd = dp @ replicate (length xs) None @ dq"
  shows "\<exists>zs lg'. length zs = length xs \<and>
     FillNewData T v nd (length sp) (length dp) (length xs) lg =
       Raised element_exception (set_cells v (sp @ map Some zs @ sq), nd, lg')"
proof (cases "relocates_by_move T")
  case True
  with assms(1) have "\<not> list_all (\<lambda>x. \<not> move_throws T x) xs"
    by (simp add: relocation_ok_def)
  then obtain zs lg' where z: "length zs = length xs"
    "uninit_move_loop T (sp @ map Some xs @ sq) (length sp) (length xs)
          (dp @ replicate (length xs) None @ dq) (length dp) (length dp) lg =
        Raised element_exception
          (sp @ map Some zs @ sq, dp @ replicate (length xs) None @ dq, lg')"
    using uninit_move_loop_raises [of T xs sp sq dp dq lg] by blast
  have "nd\<lparr>cells := dp @ replicate (length xs) None @ dq\<rparr> = nd"
    using assms(3) by (cases nd) simp
  then show ?thesis
    using True z
    by (intro exI [of _ zs] exI [of _ lg'])
       (simp add: FillNewData_def relocates_by_move_def uninitialized_move_n_def assms(2,3))
next
  case False
  with assms(1) have "\<not> list_all (\<lambda>x. \<not> copy_ctor_throws T x) xs"
    by (simp add: relocation_ok_def)
  then obtain lg' where z:
    "uninit_copy_loop T (sp @ map Some xs @ sq) (length sp) (length xs)
          (dp @ replicate (length xs) None @ dq) (length dp) (length dp) lg =
        Raised element_exception (dp @ replicate (length xs) None @ dq, lg')"
    using uninit_copy_loop_raises [of T xs sp sq dp dq lg] by blast
  have "nd\<lparr>cells := dp @ replicate (length xs) None @ dq\<rparr> = nd"
    using assms(3) by (cases nd) simp
  moreover have "set_cells v (sp @ map Some xs @ sq) = v"
    using assms(2) by (rule set_cells_same)
  ultimately show ?thesis
    using False z
    by (intro exI [of _ xs] exI [of _ lg'])
       (simp add: FillNewData_def relocates_by_move_def uninitialized_copy_n_def assms(2,3))
qed


lemma holds_same_shape:
  assumes "holds v xs" "length zs = length xs"
  shows "holds (set_cells v (map Some zs @ replicate (Capacity v - length xs) None)) zs"
    and "Capacity (set_cells v (map Some zs @ replicate (Capacity v - length xs) None)) =
      Capacity v"
  using assms by (simp_all add: holds_def set_cells_def Capacity_def)

lemma fits_mod: "fits T n \<Longrightarrow> (n * sizeof_T T) mod size_t_range = n * sizeof_T T"
  by (simp add: fits_def)

lemma Reserve_raises:
  assumes "holds v xs" "Capacity v < n" "fits T n"
    "\<not> operator_new (n * sizeof_T T) \<or> \<not> relocation_ok T xs"
  shows "\<exists>e v' zs lg'. Reserve T operator_new v n lg = Raised e (v', lg') \<and> holds v' zs \<and>
     length zs = length xs \<and> Capacity v' = Capacity v"
proof (cases "operator_new (n * sizeof_T T)")
  case False
  then have "Reserve T operator_new v n lg = Raised bad_alloc (v, lg)"
    using assms(2) fits_mod [OF assms(3)] by (intro Reserve_bad_alloc) simp_all
  then show ?thesis using assms(1) by auto
next
  case True
  with assms(4) have nok: "\<not> relocation_ok T xs" by simp
  let ?sq = "replicate (Capacity v - length xs) (None :: 'a option)"
  let ?nd = "\<lparr>buffer_m = Ptr (length lg), capacity_m = n, cells = replicate n None\<rparr>
      :: 'a RawMemory"
  from assms(1,2) have n: "n \<noteq> 0" "length xs < n" "size_m v = length xs"
    and c: "cells (data_m v) = [] @ map Some xs @ ?sq"
    by (auto simp: holds_def Capacity_def)
  have r: "RawMemory_ctor T operator_new n lg = Done (?nd, lg @ [New (n * sizeof_T T)])"
    using assms(3) n(1) True by (rule RawMemory_ctor_fits)
  have cn: "cells ?nd = [] @ replicate (length xs) None @ replicate (n - length xs) None"
    using n(2) by (simp add: replicate_add [symmetric])
  obtain zs lg' where z: "length zs = length xs"
    "FillNewData T v ?nd (length ([] :: 'a option list)) (length ([] :: 'a option list))
        (length xs) (lg @ [New (n * sizeof_T T)]) =
       Raised element_exception (set_cells v ([] @ map Some zs @ ?sq), ?nd, lg')"
    using FillNewData_raises [OF nok c cn, of "lg @ [New (n * sizeof_T T)]"] by blast
  have "Reserve T operator_new v n lg =
      Raised element_exception (set_cells v (map Some zs @ ?sq), RawMemory_dtor ?nd lg')"
    using assms(2) z(2) by (simp add: Reserve_def r n(3) Capacity_def)
  then show ?thesis
    using holds_same_shape [OF assms(1) z(1)] z(1) by auto
qed

lemma Reserve_safe:
  assumes "holds v xs" "Capacity v < n \<longrightarrow> fits T n"
  shows "case Reserve T operator_new v n lg of
       Done (v', lg') \<Rightarrow> holds v' xs \<and> Capacity v' = max (Capacity v) n
     | Raised e (v', lg') \<Rightarrow>
         (\<exists>zs. holds v' zs \<and> length zs = length xs) \<and> Capacity v' = Capacity v
     | Undefined \<Rightarrow> False"
proof (cases "Capacity v < n \<and> (\<not> operator_new (n * sizeof_T T) \<or> \<not> relocation_ok T xs)")
  case True
  then obtain e v' zs lg' where "Reserve T operator_new v n lg = Raised e (v', lg')"
    "holds v' zs" "length zs = length xs" "Capacity v' = Capacity v"
    using Reserve_raises [where lg = lg, OF assms(1)] assms(2) by blast
  then show ?thesis by auto
next
  case False
  show ?thesis
  proof (cases "Capacity v < n")
    case True
    with False obtain v' lg' where "Reserve T operator_new v n lg = Done (v', lg')"
      "holds v' xs" "Capacity v' = max (Capacity v) n"
      using Reserve_holds [where n = n and operator_new = operator_new and lg = lg
          and T = T, OF assms(1)] assms(2)
      by auto
    then show ?thesis by simp
  next
    case False
    then have "Reserve T operator_new v n lg = Done (v, lg)" by (intro Reserve_noop) simp
    then show ?thesis using False assms(1) by (simp add: max_def)
  qed
qed


lemma Capacity_set_cells [simp]:
  "Capacity (set_cells v c) = Capacity v" "Capacity (v\<lparr>size_m := k\<rparr>) = Capacity v"
  by (simp_all add: Capacity_def set_cells_def)

lemma value_construct_tail:
  assumes "holds v xs" "length xs < n" "n \<le> Capacity v"
  shows "case uninitialized_value_construct_n T (cells (data_m v)) (size_m v)
            (n - size_m v) lg of
       Done (c, lg') \<Rightarrow>
         holds ((set_cells v c)\<lparr>size_m := n\<rparr>)
           (xs @ replicate (n - length xs) (value_init T))
     | Raised e (c, lg') \<Rightarrow> holds (set_cells v c) xs
     | Undefined \<Rightarrow> False"
proof -
  let ?k = "n - length xs"
  let ?ys = "xs @ replicate ?k (value_init T)"
  let ?rest = "replicate (Capacity v - n) (None :: 'a option)"
  from assms have s: "size_m v = length xs"
    and c: "cells (data_m v) = map Some xs @ replicate ?k None @ ?rest"
    by (auto simp: holds_def Capacity_def replicate_add [symmetric])
  show ?thesis
  proof (cases "\<forall>k < ?k. \<not> value_ctor_throws T k")
    case True
    have u: "uninit_value_loop T (length (replicate ?k (None :: 'a option)))
          (map Some xs @ replicate ?k None @ ?rest) (length xs) (length (map Some xs)) lg =
        Done (map Some xs @ replicate (length (replicate ?k (None :: 'a option)))
                  (Some (value_init T)) @ ?rest,
              lg @ replicate (length (replicate ?k (None :: 'a option)))
                (Value_constructed (value_init T)))"
      by (rule uninit_value_loop_Done [where j = 0]) (use True in simp_all)
    have l: "length ?ys = n" "length ?ys \<le> Capacity v" using assms(2,3) by simp_all
    have "holds ((set_cells v (map Some ?ys @ replicate (Capacity v - length ?ys) None))
                 \<lparr>size_m := length ?ys\<rparr>) ?ys"
      using assms(1) l(2) by (rule holds_in_place)
    then show ?thesis
      using u l(1) by (simp add: uninitialized_value_construct_n_def s c map_replicate)
  next
    case False
    then have "\<not> (\<forall>k < ?k. \<not> value_ctor_throws T (length ([] :: 'a list) + k))" by simp
    from uninit_value_loop_raises [OF this, of "map Some xs" ?rest lg]
    obtain lg' where "uninit_value_loop T ?k (map Some xs @ replicate ?k None @ ?rest)
          (length xs) (length xs) lg =
        Raised element_exception (map Some xs @ replicate ?k None @ ?rest, lg')"
      by auto
    moreover have "set_cells v (map Some xs @ replicate ?k None @ ?rest) = v"
      using c by (rule set_cells_same)
    ultimately show ?thesis
      using assms(1) by (simp add: uninitialized_value_construct_n_def s c)
  qed
qed

lemma Resize_safe:
  assumes "holds v xs" "Capacity v < n \<longrightarrow> fits T n"
  shows "case Resize T operator_new v n lg of
       Done (v', lg') \<Rightarrow>
         holds v' (take n xs @ replicate (n - length xs) (value_init T)) \<and>
         Capacity v' = max (Capacity v) n
     | Raised e (v', lg') \<Rightarrow>
         (\<exists>zs. holds v' zs \<and> length zs = length xs) \<and> Capacity v \<le> Capacity v'
     | Undefined \<Rightarrow> False"
proof (cases "n \<le> length xs")
  case True
  from assms(1) have le: "length xs \<le> Capacity v" by (auto simp: holds_def Capacity_def)
  have h: "holds v (take n xs @ drop n xs)" using assms(1) by simp
  have l: "length (take n xs) = n" using True by simp
  have r: "Resize T operator_new v n lg =
     Done ((set_cells v (map Some (take n xs) @
               replicate (Capacity v - length (take n xs)) None))
             \<lparr>size_m := length (take n xs)\<rparr>,
           lg @ map Destroyed (drop n xs))"
    using Resize_shrink [OF h, of T operator_new lg] unfolding l .
  have c: "length (take n xs) \<le> Capacity v" using True le by simp
  show ?thesis
    unfolding r using holds_in_place [OF assms(1) c] True le by (simp add: max_def)
next
  case False
  then have lt: "length xs < n" by simp
  from assms(1) have s: "size_m v = length xs" by (simp add: holds_def)
  note rs = Reserve_safe [OF assms, of operator_new lg]
  show ?thesis
  proof (cases "Reserve T operator_new v n lg")
    case Undefined
    with rs show ?thesis by simp
  next
    case (Raised e p)
    with rs show ?thesis using lt s by (auto simp: Resize_def)
  next
    case (Done p)
    obtain v1 lg1 where p: "p = (v1, lg1)" by (cases p)
    from rs Done p have h1: "holds v1 xs" and c1: "Capacity v1 = max (Capacity v) n"
      by simp_all
    then have n1: "n \<le> Capacity v1" by simp
    note vt = value_construct_tail [OF h1 lt n1, of T lg1]
    have s1: "size_m v1 = length xs" using h1 by (simp add: holds_def)
    have e: "Resize T operator_new v n lg =
       (case uninitialized_value_construct_n T (cells (data_m v1)) (size_m v1)
               (n - size_m v1) lg1 of
          Done (c, lg2) \<Rightarrow> Done ((set_cells v1 c)\<lparr>size_m := n\<rparr>, lg2)
        | Raised e (c, lg2) \<Rightarrow> Raised e (set_cells v1 c, lg2)
        | Undefined \<Rightarrow> Undefined)"
      using lt s Done p by (simp add: Resize_def)
    show ?thesis
      unfolding e using vt c1 lt s1
      by (auto split: outcome.splits simp: max_def)
  qed
qed


lemma RawMemory_ctor_bad_alloc:
  "fits T n \<Longrightarrow> n \<noteq> 0 \<Longrightarrow> \<not> operator_new (n * sizeof_T T) \<Longrightarrow>
   RawMemory_ctor T operator_new n lg = Raised bad_alloc lg"
  by (simp add: RawMemory_ctor_def Allocate_def Let_def fits_mod)

lemma EmplaceBack_raises:
  assumes "holds v xs" "length xs = Capacity v \<longrightarrow> fits T (doubled (length xs))"
    "ctor_throws T a \<or>
     (length xs = Capacity v \<and>
      (\<not> operator_new (doubled (length xs) * sizeof_T T) \<or> \<not> relocation_ok T xs))"
  shows "\<exists>e v' zs lg'. EmplaceBack T operator_new v a lg = Raised e (v', lg') \<and>
     holds v' zs \<and> length zs = length xs \<and> Capacity v' = Capacity v"
proof (cases "length xs = Capacity v")
  case False
  with assms(1) have lt: "length xs < Capacity v" "size_m v = length xs"
    "length (cells (data_m v)) = Capacity v"
    by (auto simp: holds_def Capacity_def)
  from False assms(3) have "ctor_throws T a" by simp
  then have "EmplaceBack T operator_new v a lg = Raised element_exception (v, lg)"
    using lt by (simp add: EmplaceBack_def Capacity_def)
  then show ?thesis using assms(1) by auto
next
  case True
  let ?n = "doubled (length xs)"
  let ?nd = "\<lparr>buffer_m = Ptr (length lg), capacity_m = ?n, cells = replicate ?n None\<rparr>
      :: 'a RawMemory"
  from assms(1) True have s: "size_m v = length xs" "capacity_m (data_m v) = length xs"
    and c: "cells (data_m v) = [] @ map Some xs @ []"
    by (auto simp: holds_def Capacity_def)
  from True assms(2) have f: "fits T ?n" by simp
  have g: "grown_capacity (length xs) = ?n" using f by (rule grown_capacity_fits)
  have lt: "length xs < ?n" by (rule doubled_gt)
  then have n0: "?n \<noteq> 0" by simp
  have k: "Capacity v - length xs = 0" using True by simp
  show ?thesis
  proof (cases "operator_new (?n * sizeof_T T)")
    case False
    have "RawMemory_ctor T operator_new ?n lg = Raised bad_alloc lg"
      using f n0 False by (rule RawMemory_ctor_bad_alloc)
    then have "EmplaceBack T operator_new v a lg = Raised bad_alloc (v, lg)"
      by (simp add: EmplaceBack_def s g)
    then show ?thesis using assms(1) by auto
  next
    case new: True
    have r: "RawMemory_ctor T operator_new ?n lg = Done (?nd, lg @ [New (?n * sizeof_T T)])"
      using f n0 new by (rule RawMemory_ctor_fits)
    have cn: "cells ?nd = [] @ replicate (length xs) None @ replicate (?n - length xs) None"
      using lt by (simp add: replicate_add [symmetric])
    show ?thesis
    proof (cases "relocation_ok T xs")
      case False
      obtain zs lg' where z: "length zs = length xs"
        "FillNewData T v ?nd (length ([] :: 'a option list))
            (length ([] :: 'a option list)) (length xs) (lg @ [New (?n * sizeof_T T)]) =
           Raised element_exception (set_cells v ([] @ map Some zs @ []), ?nd, lg')"
        using FillNewData_raises [OF False c cn, of "lg @ [New (?n * sizeof_T T)]"] by blast
      have "EmplaceBack T operator_new v a lg =
          Raised element_exception (set_cells v (map Some zs), RawMemory_dtor ?nd lg')"
        using z(2) by (simp add: EmplaceBack_def s g r)
      then show ?thesis
        using holds_same_shape [OF assms(1) z(1)] z(1) k by auto
    next
      case ok: True
      with assms(3) new have th: "ctor_throws T a" by simp
      have fd: "FillNewData T v ?nd (length ([] :: 'a option list))
            (length ([] :: 'a option list)) (length xs) (lg @ [New (?n * sizeof_T T)]) =
         Done (set_cells v ([] @ map Some (relocated_from T xs) @ []),
               ?nd\<lparr>cells := [] @ map Some xs @ replicate (?n - length xs) None\<rparr>,
               (lg @ [New (?n * sizeof_T T)]) @ relocation_events T xs)"
        by (rule FillNewData_Done [OF ok c, where ys = "replicate (length xs) None"])
           (use cn in simp_all)
      have "\<exists>lg'. EmplaceBack T operator_new v a lg =
          Raised element_exception (set_cells v (map Some (relocated_from T xs)), lg')"
        using fd th lt by (simp add: EmplaceBack_def s g r set_cells_def)
      then obtain lg' where e: "EmplaceBack T operator_new v a lg =
          Raised element_exception (set_cells v (map Some (relocated_from T xs)), lg')"
        by blast
      have hz: "holds (set_cells v (map Some (relocated_from T xs))) (relocated_from T xs)"
        using holds_same_shape(1) [OF assms(1) length_relocated_from [of T xs]] k by simp
      show ?thesis
        unfolding e
        by (intro exI [of _ element_exception]
              exI [of _ "set_cells v (map Some (relocated_from T xs))"]
              exI [of _ "relocated_from T xs"] exI [of _ lg'])
           (simp add: hz)
    qed
  qed
qed

lemma EmplaceBack_safe:
  assumes "holds v xs" "length xs = Capacity v \<longrightarrow> fits T (doubled (length xs))"
  shows "case EmplaceBack T operator_new v a lg of
       Done ((v', i), lg') \<Rightarrow>
         i = length xs \<and> holds v' (xs @ [ctor_value a]) \<and>
         Capacity v' = (if length xs = Capacity v then doubled (length xs) else Capacity v)
     | Raised e (v', lg') \<Rightarrow>
         (\<exists>zs. holds v' zs \<and> length zs = length xs) \<and> Capacity v' = Capacity v
     | Undefined \<Rightarrow> False"
proof (cases "ctor_throws T a \<or>
     (length xs = Capacity v \<and>
      (\<not> operator_new (doubled (length xs) * sizeof_T T) \<or> \<not> relocation_ok T xs))")
  case True
  obtain e v' zs lg' where "EmplaceBack T operator_new v a lg = Raised e (v', lg')"
    "holds v' zs" "length zs = length xs" "Capacity v' = Capacity v"
    using EmplaceBack_raises [where lg = lg and v = v and xs = xs and T = T and a = a
        and operator_new = operator_new] assms True
    by blast
  then show ?thesis by auto
next
  case False
  have ok: "relocation_ok T xs \<or> length xs \<noteq> Capacity v" using False by auto
  show ?thesis
  proof (cases "length xs = Capacity v")
    case True
    with False ok assms(2) obtain v' lg' where
      "EmplaceBack T operator_new v a lg = Done ((v', length xs), lg')"
      "holds v' (xs @ [ctor_value a])"
      "Capacity v' = (if length xs = Capacity v then doubled (length xs) else Capacity v)"
      using EmplaceBack_Done [where a = a and operator_new = operator_new and lg = lg
          and T = T, OF assms(1)]
      by auto
    then show ?thesis by simp
  next
    case ne: False
    with assms(1) have lt: "length xs < Capacity v" by (auto simp: holds_def Capacity_def)
    have e: "EmplaceBack T operator_new v a lg =
       Done (((set_cells v (map Some (xs @ [ctor_value a]) @
                  replicate (Capacity v - length (xs @ [ctor_value a])) None))
                \<lparr>size_m := length (xs @ [ctor_value a])\<rparr>, length xs),
             lg @ [ctor_event a])"
      using EmplaceBack_in_place [OF assms(1) lt, of T a operator_new lg] False by simp
    have le: "length (xs @ [ctor_value a]) \<le> Capacity v" using lt by simp
    show ?thesis
      unfolding e using ne holds_in_place [OF assms(1) le] by simp
  qed
qed


lemma Erase_raises:
  assumes "holds v xs" "index < length xs"
    "\<not> list_all (\<lambda>x. \<not> move_assign_throws T x) (drop (Suc index) xs)"
  shows "\<exists>e v' zs lg'. Erase T v index lg = Raised e (v', lg') \<and> holds v' zs \<and>
     length zs = length xs \<and> Capacity v' = Capacity v"
proof -
  let ?pre = "take index xs" and ?post = "drop (Suc index) xs"
  let ?rest = "replicate (Capacity v - length xs) (None :: 'a option)"
  have x: "xs = ?pre @ xs ! index # ?post" using assms(2) by (rule id_take_nth_drop)
  have l: "length ?pre = index" "length ?post = length xs - Suc index"
    using assms(2) by simp_all
  from assms(1) have s: "size_m v = length xs"
    and c0: "cells (data_m v) = map Some xs @ ?rest"
    by (auto simp: holds_def Capacity_def)
  have c: "cells (data_m v) = map Some ?pre @ Some (xs ! index) # map Some ?post @ ?rest"
    unfolding c0 by (subst x) simp
  obtain zs lg' where z: "length zs = Suc (length ?post)"
    "move_loop T (map Some ?pre @ Some (xs ! index) # map Some ?post @ ?rest)
        (Suc (length (map Some ?pre))) (length ?post) (length (map Some ?pre)) lg =
      Raised element_exception (map Some ?pre @ map Some zs @ ?rest, lg')"
    using move_loop_raises [OF assms(3), of "map Some ?pre" "xs ! index" ?rest lg] by blast
  have lz: "length (?pre @ zs) = length xs" using z(1) assms(2) by simp
  have e: "Erase T v index lg =
      Raised element_exception (set_cells v (map Some (?pre @ zs) @ ?rest), lg')"
    using z(2) assms(2) l by (simp add: Erase_def s c move_range_def)
  show ?thesis
    unfolding e
    by (intro exI [of _ element_exception]
          exI [of _ "set_cells v (map Some (?pre @ zs) @ ?rest)"]
          exI [of _ "?pre @ zs"] exI [of _ lg'])
       (use holds_same_shape [OF assms(1) lz] lz in simp)
qed

lemma Erase_safe:
  assumes "holds v xs" "index < length xs"
  shows "case Erase T v index lg of
       Done ((v', i), lg') \<Rightarrow>
         i = index \<and> holds v' (take index xs @ drop (Suc index) xs) \<and>
         Capacity v' = Capacity v
     | Raised e (v', lg') \<Rightarrow>
         (\<exists>zs. holds v' zs \<and> length zs = length xs) \<and> Capacity v' = Capacity v
     | Undefined \<Rightarrow> False"
proof (cases "list_all (\<lambda>x. \<not> move_assign_throws T x) (drop (Suc index) xs)")
  case True
  obtain v' lg' where "Erase T v index lg = Done ((v', index), lg')"
    "holds v' (take index xs @ drop (Suc index) xs)" "Capacity v' = Capacity v"
    using Erase_Done [where lg = lg, OF assms True] by blast
  then show ?thesis by simp
next
  case False
  obtain e v' zs lg' where "Erase T v index lg = Raised e (v', lg')" "holds v' zs"
    "length zs = length xs" "Capacity v' = Capacity v"
    using Erase_raises [where lg = lg, OF assms False] by blast
  then show ?thesis by auto
qed

lemma Vector_copy_raises:
  assumes "holds w ys" "fits T (length ys)" "ys \<noteq> []"
    "\<not> operator_new (length ys * sizeof_T T) \<or>
     \<not> list_all (\<lambda>x. \<not> copy_ctor_throws T x) ys"
  shows "\<exists>e lg'. Vector_copy T operator_new w lg = Raised e lg'"
proof (cases "operator_new (length ys * sizeof_T T)")
  case False
  from assms(1) have s: "size_m w = length ys" by (simp add: holds_def)
  have "RawMemory_ctor T operator_new (length ys) lg = Raised bad_alloc lg"
    using assms(2) _ False by (rule RawMemory_ctor_bad_alloc) (use assms(3) in simp)
  then show ?thesis by (simp add: Vector_copy_def s)
next
  case True
  with assms(4) have nok: "\<not> list_all (\<lambda>x. \<not> copy_ctor_throws T x) ys" by simp
  let ?rest = "replicate (capacity_m (data_m w) - length ys) (None :: 'a option)"
  from assms(1) have s: "size_m w = length ys"
    and c: "cells (data_m w) = map Some ys @ ?rest"
    by (auto simp: holds_def)
  have r: "RawMemory_ctor T operator_new (length ys) lg =
     Done (\<lparr>buffer_m = Ptr (length lg), capacity_m = length ys,
            cells = replicate (length ys) None\<rparr>, lg @ [New (length ys * sizeof_T T)])"
    using assms(2) _ True by (rule RawMemory_ctor_fits) (use assms(3) in simp)
  obtain lg' where "uninit_copy_loop T ([] @ map Some ys @ ?rest)
          (length ([] :: 'a option list)) (length ys)
          ([] @ replicate (length ys) None @ []) (length ([] :: 'a option list))
          (length ([] :: 'a option list)) (lg @ [New (length ys * sizeof_T T)]) =
        Raised element_exception ([] @ replicate (length ys) None @ [], lg')"
    using uninit_copy_loop_raises [OF nok] by blast
  then show ?thesis
    by (simp add: Vector_copy_def s c r uninitialized_copy_n_def)
qed

lemma copy_assign_body_swap_raises:
  assumes "holds v xs" "holds w ys" "Capacity v < length ys" "fits T (length ys)"
    "\<not> operator_new (length ys * sizeof_T T) \<or>
     \<not> list_all (\<lambda>x. \<not> copy_ctor_throws T x) ys"
  shows "\<exists>e lg'. copy_assign_body T operator_new v w lg = Raised e (v, lg')"
proof -
  from assms(3) have ne: "ys \<noteq> []" by auto
  obtain e lg' where "Vector_copy T operator_new w lg = Raised e lg'"
    using Vector_copy_raises [where w = w and ys = ys and T = T
        and operator_new = operator_new and lg = lg] assms(2,4,5) ne
    by blast
  moreover from assms(2) have "size_m w = length ys" by (simp add: holds_def)
  ultimately show ?thesis
    using assms(3) by (simp add: copy_assign_body_def Capacity_def)
qed

lemma copy_assign_body_grow_raises:
  assumes "holds v xs" "holds w ys" "length ys \<le> Capacity v" "length xs \<le> length ys"
    "\<not> list_all (\<lambda>x. \<not> copy_assign_throws T x) (take (length xs) ys) \<or>
     \<not> list_all (\<lambda>x. \<not> copy_ctor_throws T x) (drop (length xs) ys)"
  shows "\<exists>e zs lg'. length zs = length xs \<and>
     copy_assign_body T operator_new v w lg =
       Raised e (set_cells v (map Some zs @ replicate (Capacity v - length xs) None), lg')"
proof -
  let ?a = "take (length xs) ys" and ?b = "drop (length xs) ys"
  let ?k = "Capacity v - length ys"
  let ?rw = "replicate (capacity_m (data_m w) - length ys) (None :: 'a option)"
  have s: "size_m w = length ys" "size_m v = length xs"
    and cr: "cells (data_m w) = map Some ?a @ map Some ?b @ ?rw"
    and cv: "cells (data_m v) = map Some xs @ replicate (length ?b) None @ replicate ?k None"
    using assms(1-4)
    by (auto simp: holds_def Capacity_def map_append [symmetric] replicate_add [symmetric]
        simp del: map_append)
  have la: "length ?a = length xs" using assms(4) by simp
  have rr: "replicate (length ?b) None @ replicate ?k None =
      replicate (Capacity v - length xs) (None :: 'a option)"
    using assms(3,4) by (simp add: replicate_add [symmetric])
  show ?thesis
  proof (cases "list_all (\<lambda>x. \<not> copy_assign_throws T x) ?a")
    case False
    obtain zs lg' where z: "length zs = length ?a"
      "copy_assign_loop T ([] @ map Some ?a @ map Some ?b @ ?rw)
          ([] @ map Some xs @ replicate (length ?b) None @ replicate ?k None)
          (length ([] :: 'a option list)) (length ?a) lg =
        Raised element_exception
          ([] @ map Some zs @ replicate (length ?b) None @ replicate ?k None, lg')"
      using copy_assign_loop_raises [where T = T and xs = ?a and ys = xs and sp = "[]"
          and dp = "[]" and sq = "map Some ?b @ ?rw"
          and dq = "replicate (length ?b) None @ replicate ?k None" and lg = lg] False la
      by auto
    show ?thesis
      by (intro exI [of _ element_exception] exI [of _ zs] exI [of _ lg'])
         (use z assms(3,4) la rr in
           \<open>simp add: copy_assign_body_def s cr cv Capacity_def
              del: map_append append_take_drop_id\<close>)
  next
    case True
    with assms(5) have nok: "\<not> list_all (\<lambda>x. \<not> copy_ctor_throws T x) ?b" by simp
    have l1: "copy_assign_loop T ([] @ map Some ?a @ map Some ?b @ ?rw)
          ([] @ map Some xs @ replicate (length ?b) None @ replicate ?k None)
          (length ([] :: 'a option list)) (length ?a) lg =
        Done ([] @ map Some ?a @ replicate (length ?b) None @ replicate ?k None,
              lg @ map Copy_assigned ?a)"
      by (rule copy_assign_loop_Done [OF True]) (use assms(4) in \<open>simp_all add: min_def\<close>)
    obtain lg' where l2: "uninit_copy_loop T (map Some ?a @ map Some ?b @ ?rw)
          (length (map Some ?a)) (length ?b)
          (map Some ?a @ replicate (length ?b) None @ replicate ?k None)
          (length (map Some ?a)) (length (map Some ?a)) (lg @ map Copy_assigned ?a) =
        Raised element_exception
          (map Some ?a @ replicate (length ?b) None @ replicate ?k None, lg')"
      using uninit_copy_loop_raises [OF nok] by blast
    show ?thesis
      by (intro exI [of _ element_exception] exI [of _ ?a] exI [of _ lg'])
         (use l1 l2 assms(3,4) la rr in
           \<open>simp add: copy_assign_body_def s cr cv Capacity_def uninitialized_copy_n_def
              del: map_append append_take_drop_id\<close>)
  qed
qed

lemma copy_assign_body_shrink_raises:
  assumes "holds v xs" "holds w ys" "length ys < length xs"
    "\<not> list_all (\<lambda>x. \<not> copy_assign_throws T x) ys"
  shows "\<exists>e zs lg'. length zs = length xs \<and>
     copy_assign_body T operator_new v w lg =
       Raised e (set_cells v (map Some zs @ replicate (Capacity v - length xs) None), lg')"
proof -
  let ?a = "take (length ys) xs" and ?b = "drop (length ys) xs"
  let ?k = "Capacity v - length xs"
  let ?rw = "replicate (capacity_m (data_m w) - length ys) (None :: 'a option)"
  have s: "size_m w = length ys" "size_m v = length xs" "length xs \<le> Capacity v"
    and cr: "cells (data_m w) = map Some ys @ ?rw"
    and cv: "cells (data_m v) = map Some ?a @ map Some ?b @ replicate ?k None"
    using assms(1-3)
    by (auto simp: holds_def Capacity_def map_append [symmetric] simp del: map_append)
  have la: "length ?a = length ys" using assms(3) by simp
  obtain zs lg' where z: "length zs = length ys"
    "copy_assign_loop T ([] @ map Some ys @ ?rw)
        ([] @ map Some ?a @ map Some ?b @ replicate ?k None)
        (length ([] :: 'a option list)) (length ys) lg =
      Raised element_exception ([] @ map Some zs @ map Some ?b @ replicate ?k None, lg')"
    using copy_assign_loop_raises [where T = T and xs = ys and ys = ?a and sp = "[]"
        and dp = "[]" and sq = ?rw and dq = "map Some ?b @ replicate ?k None"
        and lg = lg] assms(4) la
    by auto
  have lz: "length (zs @ ?b) = length xs" using z(1) assms(3) by simp
  show ?thesis
    by (intro exI [of _ element_exception] exI [of _ "zs @ ?b"] exI [of _ lg'])
       (use z assms(3) s(3) lz in
         \<open>simp add: copy_assign_body_def s(1,2) cr cv Capacity_def
            del: append_take_drop_id\<close>)
qed


lemma copy_assign_body_safe:
  assumes "holds v xs" "holds w ys" "Capacity v < length ys \<longrightarrow> fits T (length ys)"
  shows "case copy_assign_body T operator_new v w lg of
       Done (v', lg') \<Rightarrow> holds v' ys \<and> Capacity v \<le> Capacity v'
     | Raised e (v', lg') \<Rightarrow>
         (\<exists>zs. holds v' zs \<and> length zs = length xs) \<and> Capacity v' = Capacity v
     | Undefined \<Rightarrow> False"
proof -
  from assms(1) have le: "length xs \<le> Capacity v" by (auto simp: holds_def Capacity_def)
  consider "Capacity v < length ys" | "length ys \<le> Capacity v" "length xs \<le> length ys"
    | "length ys < length xs"
    by linarith
  then show ?thesis
  proof cases
    case 1
    show ?thesis
    proof (cases "operator_new (length ys * sizeof_T T) \<and>
        list_all (\<lambda>x. \<not> copy_ctor_throws T x) ys")
      case True
      have "copy_assign_body T operator_new v w lg =
       Done (\<lparr>data_m = \<lparr>buffer_m = block_ptr lg (length ys), capacity_m = length ys,
                         cells = map Some ys\<rparr>, size_m = length ys\<rparr>,
             Deallocate (buffer_m (data_m v))
               (lg @ allocation T (length ys) @ map Copy_constructed ys @ map Destroyed xs))"
        using assms(1,2) 1 assms(3) True by (intro copy_assign_body_swap) simp_all
      then show ?thesis
        using Vector_copy_holds [of lg ys] 1 by (simp add: Capacity_def)
    next
      case False
      obtain e lg' where "copy_assign_body T operator_new v w lg = Raised e (v, lg')"
        using copy_assign_body_swap_raises [where v = v and w = w and xs = xs and ys = ys
            and T = T and operator_new = operator_new and lg = lg] assms 1 False
        by blast
      then show ?thesis using assms(1) by auto
    qed
  next
    case 2
    show ?thesis
    proof (cases "list_all (\<lambda>x. \<not> copy_assign_throws T x) (take (length xs) ys) \<and>
        list_all (\<lambda>x. \<not> copy_ctor_throws T x) (drop (length xs) ys)")
      case True
      have r: "copy_assign_body T operator_new v w lg =
       Done ((set_cells v (map Some ys @ replicate (Capacity v - length ys) None))
               \<lparr>size_m := length ys\<rparr>,
             lg @ map Copy_assigned (take (length xs) ys) @
               map Copy_constructed (drop (length xs) ys))"
        using assms(1,2) 2 True by (intro copy_assign_body_grow) simp_all
      show ?thesis
        unfolding r using holds_in_place [OF assms(1) 2(1)] by simp
    next
      case False
      obtain e zs lg' where z: "length zs = length xs"
        "copy_assign_body T operator_new v w lg =
          Raised e (set_cells v (map Some zs @ replicate (Capacity v - length xs) None), lg')"
        using copy_assign_body_grow_raises [where v = v and w = w and xs = xs and ys = ys
            and T = T and operator_new = operator_new and lg = lg] assms(1,2) 2 False
        by blast
      show ?thesis
        unfolding z(2) using holds_same_shape [OF assms(1) z(1)] z(1) by auto
    qed
  next
    case 3
    show ?thesis
    proof (cases "list_all (\<lambda>x. \<not> copy_assign_throws T x) ys")
      case True
      have r: "copy_assign_body T operator_new v w lg =
       Done ((set_cells v (map Some ys @ replicate (Capacity v - length ys) None))
               \<lparr>size_m := length ys\<rparr>,
             lg @ map Copy_assigned ys @ map Destroyed (drop (length ys) xs))"
        using assms(1,2) 3 True by (rule copy_assign_body_shrink)
      have c: "length ys \<le> Capacity v" using 3 le by simp
      show ?thesis
        unfolding r using holds_in_place [OF assms(1) c] by simp
    next
      case False
      obtain e zs lg' where z: "length zs = length xs"
        "copy_assign_body T operator_new v w lg =
          Raised e (set_cells v (map Some zs @ replicate (Capacity v - length xs) None), lg')"
        using copy_assign_body_shrink_raises [where v = v and w = w and xs = xs and ys = ys
            and T = T and operator_new = operator_new and lg = lg] assms(1,2) 3 False
        by blast
      show ?thesis
        unfolding z(2) using holds_same_shape [OF assms(1) z(1)] z(1) by auto
    qed
  qed
qed

lemma Vector_copy_assign_safe:
  assumes "holds (st this) xs" "holds (st rhs) ys"
    "Capacity (st this) < length ys \<longrightarrow> fits T (length ys)"
  shows "case Vector_copy_assign T operator_new st this rhs lg of
       Done (st', lg') \<Rightarrow>
         holds (st' this) ys \<and> holds (st' rhs) ys \<and>
         Capacity (st this) \<le> Capacity (st' this) \<and> (\<forall>a. a \<noteq> this \<longrightarrow> st' a = st a)
     | Raised e (st', lg') \<Rightarrow>
         (\<exists>zs. holds (st' this) zs \<and> length zs = length xs) \<and>
         Capacity (st' this) = Capacity (st this) \<and> (\<forall>a. a \<noteq> this \<longrightarrow> st' a = st a)
     | Undefined \<Rightarrow> False"
proof (cases "this = rhs")
  case True
  then show ?thesis using assms(2) by (simp add: Vector_copy_assign_def)
next
  case False
  note b = copy_assign_body_safe [where v = "st this" and w = "st rhs" and xs = xs
      and ys = ys and T = T and operator_new = operator_new and lg = lg, OF assms]
  show ?thesis
    using b False assms(2)
    by (auto simp: Vector_copy_assign_def split: outcome.splits)
qed

lemma Vector_sized_safe:
  assumes "fits T n"
  shows "case Vector_sized T operator_new n lg of
       Done (v', lg') \<Rightarrow> holds v' (replicate n (value_init T))
     | Raised e lg' \<Rightarrow> True
     | Undefined \<Rightarrow> False"
proof (cases "(n \<noteq> 0 \<longrightarrow> operator_new (n * sizeof_T T)) \<and> (\<forall>k < n. \<not> value_ctor_throws T k)")
  case True
  then have "Vector_sized T operator_new n lg =
     Done (\<lparr>data_m = \<lparr>buffer_m = block_ptr lg n, capacity_m = n,
                       cells = map Some (replicate n (value_init T))\<rparr>, size_m = n\<rparr>,
           lg @ allocation T n @ replicate n (Value_constructed (value_init T)))"
    using assms by (intro Vector_sized_Done) simp_all
  then show ?thesis
    using Vector_copy_holds [of lg "replicate n (value_init T)"] by simp
next
  case False
  then have n0: "n \<noteq> 0" by auto
  show ?thesis
  proof (cases "operator_new (n * sizeof_T T)")
    case False
    have "RawMemory_ctor T operator_new n lg = Raised bad_alloc lg"
      using assms n0 False by (rule RawMemory_ctor_bad_alloc)
    then show ?thesis by (simp add: Vector_sized_def)
  next
    case True
    have r: "RawMemory_ctor T operator_new n lg =
       Done (\<lparr>buffer_m = Ptr (length lg), capacity_m = n, cells = replicate n None\<rparr>,
             lg @ [New (n * sizeof_T T)])"
      using assms n0 True by (rule RawMemory_ctor_fits)
    from True \<open>\<not> ((n \<noteq> 0 \<longrightarrow> operator_new (n * sizeof_T T)) \<and>
        (\<forall>k < n. \<not> value_ctor_throws T k))\<close>
    have "\<not> (\<forall>k < n. \<not> value_ctor_throws T (length ([] :: 'a list) + k))" by simp
    from uninit_value_loop_raises [OF this, of "[]" "[]" "lg @ [New (n * sizeof_T T)]"]
    obtain lg' where "uninit_value_loop T n (replicate n None) 0 0
        (lg @ [New (n * sizeof_T T)]) = Raised element_exception (replicate n None, lg')"
      by auto
    then show ?thesis
      by (simp add: Vector_sized_def r uninitialized_value_construct_n_def)
  qed
qed

lemma Vector_list_safe:
  assumes "fits T (length ys)"
  shows "case Vector_list T operator_new ys lg of
       Done (v', lg') \<Rightarrow> holds v' ys
     | Raised e lg' \<Rightarrow> True
     | Undefined \<Rightarrow> False"
proof (cases "(ys \<noteq> [] \<longrightarrow> operator_new (length ys * sizeof_T T)) \<and>
    list_all (\<lambda>x. \<not> copy_ctor_throws T x) ys")
  case True
  then have "Vector_list T operator_new ys lg =
     Done (\<lparr>data_m = \<lparr>buffer_m = block_ptr lg (length ys), capacity_m = length ys,
                       cells = map Some ys\<rparr>, size_m = length ys\<rparr>,
           lg @ allocation T (length ys) @ map Copy_constructed ys)"
    using assms by (intro Vector_list_Done) simp_all
  then show ?thesis using Vector_copy_holds [of lg ys] by simp
next
  case False
  then have ne: "ys \<noteq> []" by auto
  show ?thesis
  proof (cases "operator_new (length ys * sizeof_T T)")
    case False
    have "RawMemory_ctor T operator_new (length ys) lg = Raised bad_alloc lg"
      using assms _ False by (rule RawMemory_ctor_bad_alloc) (use ne in simp)
    then show ?thesis by (simp add: Vector_list_def)
  next
    case True
    with \<open>\<not> ((ys \<noteq> [] \<longrightarrow> operator_new (length ys * sizeof_T T)) \<and>
        list_all (\<lambda>x. \<not> copy_ctor_throws T x) ys)\<close>
    have nok: "\<not> list_all (\<lambda>x. \<not> copy_ctor_throws T x) ys" by simp
    have r: "RawMemory_ctor T operator_new (length ys) lg =
       Done (\<lparr>buffer_m = Ptr (length lg), capacity_m = length ys,
              cells = replicate (length ys) None\<rparr>, lg @ [New (length ys * sizeof_T T)])"
      using assms _ True by (rule RawMemory_ctor_fits) (use ne in simp)
    obtain lg' where "uninit_copy_loop T ([] @ map Some ys @ [])
          (length ([] :: 'a option list)) (length ys)
          ([] @ replicate (length ys) None @ []) (length ([] :: 'a option list))
          (length ([] :: 'a option list)) (lg @ [New (length ys * sizeof_T T)]) =
        Raised element_exception ([] @ replicate (length ys) None @ [], lg')"
      using uninit_copy_loop_raises [OF nok] by blast
    then show ?thesis
      by (simp add: Vector_list_def r uninitialized_copy_n_def uninitialized_move_n_const_def)
  qed
qed

lemma Vector_copy_safe:
  assumes "holds w ys" "fits T (length ys)"
  shows "case Vector_copy T operator_new w lg of
       Done (v', lg') \<Rightarrow> holds v' ys
     | Raised e lg' \<Rightarrow> True
     | Undefined \<Rightarrow> False"
proof (cases "(ys \<noteq> [] \<longrightarrow> operator_new (length ys * sizeof_T T)) \<and>
    list_all (\<lambda>x. \<not> copy_ctor_throws T x) ys")
  case True
  then have "Vector_copy T operator_new w lg =
     Done (\<lparr>data_m = \<lparr>buffer_m = block_ptr lg (length ys), capacity_m = length ys,
                       cells = map Some ys\<rparr>, size_m = length ys\<rparr>,
           lg @ allocation T (length ys) @ map Copy_constructed ys)"
    using assms by (intro Vector_copy_Done) simp_all
  then show ?thesis using Vector_copy_holds [of lg ys] by simp
next
  case False
  then have ne: "ys \<noteq> []" by auto
  obtain e lg' where "Vector_copy T operator_new w lg = Raised e lg'"
    using Vector_copy_raises [where w = w and ys = ys and T = T
        and operator_new = operator_new and lg = lg] assms ne False
    by blast
  then show ?thesis by simp
qed

text \<open>
  C9 as stated fails where a byte size wraps: on a \<^verbatim>\<open>Vector<int>\<close> that holds one
  element in a block of one slot, \<^verbatim>\<open>Reserve\<close> of \<open>2^62 + 1\<close> asks for
  \<open>(2^62 + 1) * 4 mod 2^64 = 4\<close> bytes, moves the element into the new block and returns
  with capacity \<open>2^62 + 1\<close> over a block of one slot: the slots from the size to the
  capacity are not reserved memory.
\<close>

theorem Reserve_capacity_beyond_block:
  "holds (vec 0 1 [7 :: int]) [7] \<and>
   Reserve int_type (\<lambda>b. True) (vec 0 1 [7]) (2 ^ 62 + 1) [New 4] =
     Done (\<lparr>data_m = \<lparr>buffer_m = Ptr 1, capacity_m = 2 ^ 62 + 1, cells = [Some 7]\<rparr>,
            size_m = 1\<rparr>,
           [New 4, New 4, Move_constructed 7, Destroyed 7, Delete 0]) \<and>
   \<not> invariant \<lparr>data_m = \<lparr>buffer_m = Ptr 1, capacity_m = 2 ^ 62 + 1, cells = [Some (7 :: int)]\<rparr>,
                size_m = 1\<rparr>"
proof (intro conjI)
  show "holds (vec 0 1 [7 :: int]) [7]" by (simp add: holds_vec)
  show "Reserve int_type (\<lambda>b. True) (vec 0 1 [7]) (2 ^ 62 + 1) [New 4] =
     Done (\<lparr>data_m = \<lparr>buffer_m = Ptr 1, capacity_m = 2 ^ 62 + 1, cells = [Some 7]\<rparr>,
            size_m = 1\<rparr>,
           [New 4, New 4, Move_constructed 7, Destroyed 7, Delete 0])"
    by (simp add: Reserve_def RawMemory_ctor_def Allocate_def int_type_def size_t_range_def
        vec_def FillNewData_def uninitialized_move_n_def move_throws_def
        set_cells_def RawMemory_Swap_def RawMemory_dtor_def Deallocate_def)
  show "\<not> invariant \<lparr>data_m = \<lparr>buffer_m = Ptr 1, capacity_m = 2 ^ 62 + 1,
      cells = [Some (7 :: int)]\<rparr>, size_m = 1\<rparr>"
    using holds_length_cells [of "\<lparr>data_m = \<lparr>buffer_m = Ptr 1, capacity_m = 2 ^ 62 + 1,
      cells = [Some (7 :: int)]\<rparr>, size_m = 1\<rparr>"]
    by (auto simp: invariant_def Capacity_def)
qed

text \<open>
  Without reallocation, an insertion before the end (or into an empty vector) followed by
  the erasure at the same index gives back the elements and the capacity there were.
\<close>

lemma Insert_then_Erase_restores:
  assumes "holds v xs" "length xs < Capacity v" "index < length xs \<or> (xs = [] \<and> index = 0)"
    "\<not> ctor_throws T a" "quiet T xs" "\<not> move_assign_throws T (ctor_value a)"
  shows "\<exists>v1 lg1 v2 lg2.
     Emplace T operator_new v index a lg = Done ((v1, index), lg1) \<and>
     holds v1 (take index xs @ ctor_value a # drop index xs) \<and>
     Erase T v1 index lg1 = Done ((v2, index), lg2) \<and>
     holds v2 xs \<and> Capacity v2 = Capacity v"
proof -
  let ?ys = "take index xs @ ctor_value a # drop index xs"
  have i: "index \<le> length xs" using assms(3) by auto
  obtain v1 lg1 where e: "Emplace T operator_new v index a lg = Done ((v1, index), lg1)"
    and h1: "holds v1 ?ys"
    and c1: "Capacity v1 = (if length xs = Capacity v then doubled (length xs) else Capacity v)"
    using Emplace_Done [where operator_new = operator_new and lg = lg and index = index
        and a = a, OF assms(1) i _ assms(4,5,6)] assms(2,3)
    by auto
  have l: "index < length ?ys" using i by simp
  have d: "drop (Suc index) ?ys = drop index xs" using i by (simp add: drop_Suc_Cons)
  have t: "take index ?ys = take index xs" using i by simp
  have q: "list_all (\<lambda>x. \<not> move_assign_throws T x) (drop (Suc index) ?ys)"
    unfolding d using quiet_move_assign [OF assms(5)] by (rule list_all_drop)
  obtain v2 lg2 where e2: "Erase T v1 index lg1 = Done ((v2, index), lg2)"
    and h2: "holds v2 (take index ?ys @ drop (Suc index) ?ys)" and c2: "Capacity v2 = Capacity v1"
    using Erase_Done [where lg = lg1, OF h1 l q] by blast
  have "holds v2 xs" using h2 unfolding d t by simp
  then show ?thesis using e h1 e2 c1 c2 assms(2) by auto
qed

section \<open>Three inputs on which the code goes wrong\<close>

text \<open>
  C3, at the position the code misses: a \<^verbatim>\<open>Vector<int>\<close> holding 1, 2, 3 in a block
  of 4 slots, and an insertion at index 3, the end. The branch without reallocation calls
  \<^verbatim>\<open>std::move_backward(begin() + 3, end() - 1, end())\<close>, whose range starts after
  its end: the behaviour is undefined.
\<close>

theorem Emplace_at_end_undefined:
  "holds (vec 0 4 [1, 2, 3 :: int]) [1, 2, 3] \<and>
   Size (vec 0 4 [1, 2, 3 :: int]) < Capacity (vec 0 4 [1, 2, 3 :: int]) \<and>
   Emplace int_type (\<lambda>b. True) (vec 0 4 [1, 2, 3]) 3 (Lvalue 99) [] = Undefined"
proof (intro conjI)
  show "holds (vec 0 4 [1, 2, 3 :: int]) [1, 2, 3]"
    by (simp add: holds_vec)
  show "Size (vec 0 4 [1, 2, 3 :: int]) < Capacity (vec 0 4 [1, 2, 3 :: int])"
    by (simp add: Size_def Capacity_def vec_def)
  show "Emplace int_type (\<lambda>b. True) (vec 0 4 [1, 2, 3]) 3 (Lvalue 99) [] = Undefined"
    by (simp add: vec_def Emplace_def Emplace_in_place_def int_type_def move_throws_def
        move_backward_def Let_def)
qed

text \<open>
  C5, at the path the code misses: \<^verbatim>\<open>std::string\<close> is nothrow-move-constructible,
  so the constructor from a list takes the branch of \<^verbatim>\<open>std::uninitialized_move_n\<close>;
  the elements of the list are const, and both are copy-constructed.
\<close>

theorem Vector_list_copies:
  "relocates_by_move string_type \<and>
   Vector_list string_type (\<lambda>b. True) [''a'', ''b''] [] =
     Done (vec 0 2 [''a'', ''b''], [New 64, Copy_constructed ''a'', Copy_constructed ''b''])"
proof -
  have r: "RawMemory_ctor string_type (\<lambda>b. True) (length [''a'', ''b'']) [] =
     Done (\<lparr>buffer_m = Ptr (length ([] :: string event list)),
            capacity_m = length [''a'', ''b''],
            cells = replicate (length [''a'', ''b'']) None\<rparr>,
           [] @ [New (length [''a'', ''b''] * sizeof_T string_type)])"
    by (rule RawMemory_ctor_fits) (simp_all add: fits_def string_type_def size_t_range_def)
  have s: "sizeof_T string_type = 32" "is_nothrow_move_constructible string_type"
    "copy_ctor_throws string_type x = False" for x
    by (simp_all add: string_type_def)
  show ?thesis
    using r
    by (simp add: Vector_list_def uninitialized_move_n_const_def relocates_by_move_def s vec_def)
qed


text \<open>
  C1, on the code: a vector of two elements with size equal to capacity, the copy of the
  second element throwing, and an insertion at index 0. \<^verbatim>\<open>FillAfterIndex\<close> catches
  the exception and returns; \<^verbatim>\<open>Emplace\<close> destroys the old elements, adopts the new
  block and returns with size 3, over slots that hold no object. No exception reaches the
  caller, and the state is not valid.
\<close>

theorem Emplace_swallows_copy_failure:
  "holds (vec 0 2 [(1, False), (2, True)]) [(1 :: nat, False), (2, True)] \<and>
   Size (vec 0 2 [(1 :: nat, False), (2, True)]) = Capacity (vec 0 2 [(1 :: nat, False), (2, True)]) \<and>
   copy_ctor_throws obj_type (2, True) \<and>
   Emplace obj_type (\<lambda>b. True) (vec 0 2 [(1, False), (2, True)]) 0 (Lvalue (9, False))
       [New 16] =
     Done ((\<lparr>data_m = \<lparr>buffer_m = Ptr 1, capacity_m = 4,
                        cells = [None, None, None, None]\<rparr>, size_m = 3\<rparr>, 0),
           [New 16, New 32, Copy_constructed (9, False), Copy_constructed (1, False),
            Destroyed (1, False), Destroyed (9, False), Destroyed (1, False),
            Destroyed (2, True), Delete 0]) \<and>
   \<not> invariant \<lparr>data_m = \<lparr>buffer_m = Ptr 1, capacity_m = 4,
                    cells = [None, None, None, None :: (nat \<times> bool) option]\<rparr>, size_m = 3\<rparr>"
proof (intro conjI)
  show "\<not> invariant \<lparr>data_m = \<lparr>buffer_m = Ptr 1, capacity_m = 4,
                    cells = [None, None, None, None :: (nat \<times> bool) option]\<rparr>, size_m = 3\<rparr>"
    by (simp add: invariant_def holds_def contents_def elements_def)
  show "holds (vec 0 2 [(1, False), (2, True)]) [(1 :: nat, False), (2, True)]"
    by (simp add: holds_vec)
  show "Size (vec 0 2 [(1 :: nat, False), (2, True)]) =
      Capacity (vec 0 2 [(1 :: nat, False), (2, True)])"
    by (simp add: Size_def Capacity_def vec_def)
  show "copy_ctor_throws obj_type (2, True)"
    by (simp add: obj_type_def)
  have g: "grown_capacity (Suc (Suc 0)) = 4"
    by (simp add: grown_capacity_def size_t_range_def)
  have r0: "RawMemory_ctor obj_type (\<lambda>b. True) 4 [New 16] =
      Done (\<lparr>buffer_m = Ptr 1, capacity_m = 4, cells = replicate 4 None\<rparr>,
            [New 16, New 32])"
    by (simp add: RawMemory_ctor_def Allocate_def obj_type_def size_t_range_def)
  have r4: "replicate 4 None = [None, None, None, None :: (nat \<times> bool) option]"
    by (simp add: numeral_eq_Suc)
  have t: "is_nothrow_move_constructible obj_type = False" "is_copy_constructible obj_type"
    "copy_ctor_throws obj_type x = snd x" for x
    by (simp_all add: obj_type_def)
  show "Emplace obj_type (\<lambda>b. True) (vec 0 2 [(1, False), (2, True)]) 0 (Lvalue (9, False))
       [New 16] =
     Done ((\<lparr>data_m = \<lparr>buffer_m = Ptr 1, capacity_m = 4,
                        cells = [None, None, None, None]\<rparr>, size_m = 3\<rparr>, 0),
           [New 16, New 32, Copy_constructed (9, False), Copy_constructed (1, False),
            Destroyed (1, False), Destroyed (9, False), Destroyed (1, False),
            Destroyed (2, True), Delete 0])"
    by (simp add: vec_def Emplace_def Emplace_realloc_def g r0 r4 t FillBehindIndex_def
        FillAfterIndex_def FillNewData_def uninitialized_copy_n_def destroy_at_def
        RawMemory_Swap_def RawMemory_dtor_def Deallocate_def)
qed

end
